(* ===== verification/Prelude.thy ===== *)
theory Prelude
  imports Main "HOL-Library.Char_ord" "HOL-Library.List_Lexorder"
begin

text \<open>
  The vocabulary the components share. A Python call that may raise is a value of
  \<open>py_exc + 'a\<close> (\<open>Inl\<close> is the exception); domain exceptions have a datatype of
  their own (theory Exceptions). A Python \<open>dict\<close> whose order or duplicates matter is an
  association list in insertion order (\<open>dict_get\<close>, \<open>dict_set\<close>). The collections
  \<open>span_simps\<close> and \<open>dict_simps\<close> gather the rewriting of match spans and of
  dictionaries.
\<close>

named_theorems span_simps "facts about lists of match spans"
named_theorems dict_simps "facts about insertion-ordered dictionaries"

section \<open>Exceptions of the Python runtime\<close>

datatype py_exc =
    ValueError
  | TypeError
  | KeyError string
  | AttributeError
  | IndexError
  | NameError string
  | RuntimeError string
  | UnicodeEncodeError
  | FileNotFoundError string

type_synonym 'a py = "py_exc + 'a"

section \<open>Insertion-ordered dictionaries\<close>

text \<open>\<open>d.get(k)\<close>, \<open>d[k] = v\<close> (an existing key keeps its position) and
  \<open>d.pop(k, None)\<close>.\<close>

fun dict_get :: "('k \<times> 'v) list \<Rightarrow> 'k \<Rightarrow> 'v option" where
  "dict_get [] k = None"
| "dict_get ((k', v) # d) k = (if k' = k then Some v else dict_get d k)"

fun dict_set :: "('k \<times> 'v) list \<Rightarrow> 'k \<Rightarrow> 'v \<Rightarrow> ('k \<times> 'v) list" where
  "dict_set [] k v = [(k, v)]"
| "dict_set ((k', v') # d) k v = (if k' = k then (k, v) # d else (k', v') # dict_set d k v)"

definition dict_del :: "('k \<times> 'v) list \<Rightarrow> 'k \<Rightarrow> ('k \<times> 'v) list" where
  "dict_del d k = filter (\<lambda>(k', _). k' \<noteq> k) d"

definition dict_get_default :: "('k \<times> 'v) list \<Rightarrow> 'k \<Rightarrow> 'v \<Rightarrow> 'v" where
  "dict_get_default d k v = (case dict_get d k of None \<Rightarrow> v | Some w \<Rightarrow> w)"

lemma dict_get_set [dict_simps]:
  "dict_get (dict_set d k v) k' = (if k = k' then Some v else dict_get d k')"
  by (induction d k v rule: dict_set.induct) auto

lemma dict_get_map_of: "dict_get d k = map_of d k"
proof (induction d)
  case (Cons p d)
  then show ?case by (cases p) simp
qed simp

lemma set_keys_dict_set [dict_simps]: "fst ` set (dict_set d k v) = insert k (fst ` set d)"
  by (induction d k v rule: dict_set.induct) auto

lemma distinct_dict_set [dict_simps]:
  "distinct (map fst d) \<Longrightarrow> distinct (map fst (dict_set d k v))"
proof (induction d k v rule: dict_set.induct)
  case (1 k v)
  then show ?case by simp
next
  case (2 k' v' d k v)
  have "k' \<notin> fst ` set (dict_set d k v)" if "k' \<noteq> k"
    using 2 that by (simp add: set_keys_dict_set)
  with 2 show ?case by auto
qed

lemma dict_get_del [dict_simps]:
  "dict_get (dict_del d k) k' = (if k = k' then None else dict_get d k')"
  unfolding dict_del_def
proof (induction d)
  case (Cons p d)
  then show ?case by (cases p) auto
qed simp

lemma set_keys_dict_del [dict_simps]: "fst ` set (dict_del d k) = fst ` set d - {k}"
  unfolding dict_del_def by (induction d) auto

lemma distinct_dict_del [dict_simps]:
  "distinct (map fst d) \<Longrightarrow> distinct (map fst (dict_del d k))"
  unfolding dict_del_def by (induction d) (auto simp: image_iff)

lemma dict_get_None_iff [dict_simps]: "dict_get d k = None \<longleftrightarrow> k \<notin> fst ` set d"
  by (simp add: dict_get_map_of map_of_eq_None_iff)

lemma dict_get_append: "dict_get (d @ e) k = (case dict_get d k of None \<Rightarrow> dict_get e k | Some v \<Rightarrow> Some v)"
  by (induction d k rule: dict_get.induct) auto

lemma dict_get_Some_in: "dict_get d k = Some v \<Longrightarrow> (k, v) \<in> set d"
  by (simp add: dict_get_map_of map_of_SomeD)

section \<open>Lists\<close>

text \<open>\<open>xs[:-n]\<close> and \<open>xs[-n:]\<close> for a positive \<open>n\<close>.\<close>

definition drop_last :: "nat \<Rightarrow> 'a list \<Rightarrow> 'a list" where
  "drop_last n xs = take (length xs - n) xs"

definition take_last :: "nat \<Rightarrow> 'a list \<Rightarrow> 'a list" where
  "take_last n xs = drop (length xs - n) xs"

lemma drop_take_last [simp]: "drop_last n xs @ take_last n xs = xs"
  by (simp add: drop_last_def take_last_def)

lemma length_take_last [simp]: "length (take_last n xs) = min n (length xs)"
  by (simp add: take_last_def)

lemma length_drop_last [simp]: "length (drop_last n xs) = length xs - n"
  by (simp add: drop_last_def)

text \<open>Appending a value to a list of labels unless it is there (\<open>if x not in xs: xs.append(x)\<close>).\<close>

definition add_new :: "'a \<Rightarrow> 'a list \<Rightarrow> 'a list" where
  "add_new x xs = (if x \<in> set xs then xs else xs @ [x])"

lemma set_add_new [simp]: "set (add_new x xs) = insert x (set xs)"
  by (auto simp: add_new_def)

lemma distinct_add_new [simp]: "distinct (add_new x xs) \<longleftrightarrow> distinct xs"
  by (simp add: add_new_def)

text \<open>\<open>sorted(set)\<close> of the strings of a list: Python compares strings by code point, which is
  the lexicographic order the library gives \<open>char list\<close>.\<close>

definition sorted_strs :: "string list \<Rightarrow> string list" where
  "sorted_strs xs = sort xs"

lemma sorted_sorted_strs [simp]: "sorted (sorted_strs xs)"
  and set_sorted_strs [simp]: "set (sorted_strs xs) = set xs"
  and distinct_sorted_strs [simp]: "distinct (sorted_strs xs) \<longleftrightarrow> distinct xs"
  and length_sorted_strs [simp]: "length (sorted_strs xs) = length xs"
  by (simp_all add: sorted_strs_def)

lemma sorted_strs_Nil_iff [simp]: "sorted_strs xs = [] \<longleftrightarrow> xs = []"
  by (metis length_0_conv length_sorted_strs)

section \<open>First matches\<close>

lemma find_append: "find P (xs @ ys) = (case find P xs of None \<Rightarrow> find P ys | Some x \<Rightarrow> Some x)"
  by (induction xs) auto

lemma find_rev_distinct:
  assumes "distinct (map f ts)"
  shows "find (\<lambda>t. f t = k) (rev ts) = find (\<lambda>t. f t = k) ts"
proof (cases "\<exists>t \<in> set ts. f t = k")
  case True
  then obtain t where t: "t \<in> set ts" "f t = k" by auto
  have "find (\<lambda>t. f t = k) us = Some t" if "set us = set ts" for us
  proof -
    have "find (\<lambda>t. f t = k) us \<noteq> None" using t that by (auto simp: find_None_iff)
    then obtain v where v: "find (\<lambda>t. f t = k) us = Some v" by auto
    then have "v \<in> set us" "f v = k" by (auto simp: find_Some_iff)
    with that t assms have "v = t" by (auto simp: distinct_map inj_on_def)
    with v show ?thesis by simp
  qed
  from this [of "rev ts"] this [of ts] show ?thesis by simp
next
  case False
  then have "find (\<lambda>t. f t = k) us = None" if "set us = set ts" for us
    using that by (auto simp: find_None_iff)
  from this [of "rev ts"] this [of ts] show ?thesis by simp
qed

lemma find_filter: "find P (filter Q xs) = find (\<lambda>x. Q x \<and> P x) xs"
  by (induction xs) auto

lemma find_cong_set: "(\<And>x. x \<in> set xs \<Longrightarrow> P x = Q x) \<Longrightarrow> find P xs = find Q xs"
  by (induction xs) auto

end
