(* ===== verification/Py_Str.thy ===== *)
theory Py_Str
  imports Prelude
begin

text \<open>
  The operations of Python's \<open>str\<close> that the program uses. A string is a list of
  characters with code points below 256: the character classes below are Python's own on
  that range (the isspace, isdecimal, isdigit, isalnum, lower and upper tables of Python
  3.11), and code points above it are outside the model.
\<close>

section \<open>Character classes\<close>

definition cp :: "char \<Rightarrow> nat" where
  "cp c = of_char c"

definition is_space :: "char \<Rightarrow> bool" where
  "is_space c = (let n = cp c in 9 \<le> n \<and> n \<le> 13 \<or> 28 \<le> n \<and> n \<le> 32 \<or> n = 133 \<or> n = 160)"

text \<open>\<open>str.isdecimal\<close> (the class \<open>\d\<close>) and \<open>str.isdigit\<close> (which also holds of
  the superscripts one, two and three).\<close>

definition is_decimal :: "char \<Rightarrow> bool" where
  "is_decimal c = (let n = cp c in 48 \<le> n \<and> n \<le> 57)"

definition is_digit :: "char \<Rightarrow> bool" where
  "is_digit c = (let n = cp c in 48 \<le> n \<and> n \<le> 57 \<or> n = 178 \<or> n = 179 \<or> n = 185)"

definition is_upper_az :: "char \<Rightarrow> bool" where
  "is_upper_az c = (let n = cp c in 65 \<le> n \<and> n \<le> 90)"

text \<open>The class \<open>\w\<close>: alphanumeric or underscore.\<close>

definition is_word :: "char \<Rightarrow> bool" where
  "is_word c = (let n = cp c in
     48 \<le> n \<and> n \<le> 57 \<or> 65 \<le> n \<and> n \<le> 90 \<or> n = 95 \<or> 97 \<le> n \<and> n \<le> 122
     \<or> n = 170 \<or> n = 178 \<or> n = 179 \<or> n = 181 \<or> n = 185 \<or> n = 186
     \<or> 188 \<le> n \<and> n \<le> 190 \<or> 192 \<le> n \<and> n \<le> 214 \<or> 216 \<le> n \<and> n \<le> 246 \<or> 248 \<le> n)"

definition lower_char :: "char \<Rightarrow> char" where
  "lower_char c = (let n = cp c in
     if 65 \<le> n \<and> n \<le> 90 \<or> 192 \<le> n \<and> n \<le> 214 \<or> 216 \<le> n \<and> n \<le> 222
     then char_of (n + 32) else c)"

text \<open>\<open>upper\<close> of one character: sharp s becomes \<open>SS\<close>; the micro sign and y with
  diaeresis, whose capitals lie above the range, stay (neither they nor their capitals are
  digits or Latin capitals, all that the program asks of the result).\<close>

definition upper_char :: "char \<Rightarrow> string" where
  "upper_char c = (let n = cp c in
     if n = 223 then ''SS''
     else if 97 \<le> n \<and> n \<le> 122 \<or> 224 \<le> n \<and> n \<le> 246 \<or> 248 \<le> n \<and> n \<le> 254
     then [char_of (n - 32)] else [c])"

lemma cp_less [simp]: "cp c < 256"
  by (simp add: cp_def)

lemma cp_inj: "cp c = cp d \<longleftrightarrow> c = d"
  by (simp add: cp_def)

lemma cp_char_of [simp]: "n < 256 \<Longrightarrow> cp (char_of n) = n"
  by (simp add: cp_def)

lemma decimal_is_word [simp]: "is_decimal c \<Longrightarrow> is_word c"
  by (auto simp: is_decimal_def is_word_def Let_def)

lemma decimal_is_digit [simp]: "is_decimal c \<Longrightarrow> is_digit c"
  by (auto simp: is_decimal_def is_digit_def Let_def)

lemma decimal_not_space [simp]: "is_decimal c \<Longrightarrow> \<not> is_space c"
  by (auto simp: is_decimal_def is_space_def Let_def)

lemma lower_char_idem [simp]: "lower_char (lower_char c) = lower_char c"
proof (cases "65 \<le> cp c \<and> cp c \<le> 90 \<or> 192 \<le> cp c \<and> cp c \<le> 214 \<or> 216 \<le> cp c \<and> cp c \<le> 222")
  case True
  then have "lower_char c = char_of (cp c + 32)" and "cp (char_of (cp c + 32) :: char) = cp c + 32"
    by (auto simp: lower_char_def Let_def)
  with True show ?thesis by (auto simp: lower_char_def [of "char_of (cp c + 32)"] Let_def)
next
  case False
  then have "lower_char c = c" by (auto simp: lower_char_def Let_def)
  then show ?thesis by simp
qed

lemma is_space_lower [simp]: "is_space (lower_char c) \<longleftrightarrow> is_space c"
  by (auto simp: lower_char_def is_space_def Let_def)

section \<open>Strings\<close>

definition lower :: "string \<Rightarrow> string" where
  "lower s = map lower_char s"

definition upper :: "string \<Rightarrow> string" where
  "upper s = concat (map upper_char s)"

definition lstrip :: "string \<Rightarrow> string" where
  "lstrip s = dropWhile is_space s"

definition rstrip :: "string \<Rightarrow> string" where
  "rstrip s = rev (dropWhile is_space (rev s))"

definition strip :: "string \<Rightarrow> string" where
  "strip s = rstrip (lstrip s)"

text \<open>\<open>s.strip(chars)\<close> and \<open>s.rstrip(chars)\<close> for one character.\<close>

definition rstrip_char :: "char \<Rightarrow> string \<Rightarrow> string" where
  "rstrip_char c s = rev (dropWhile (\<lambda>d. d = c) (rev s))"

definition strip_char :: "char \<Rightarrow> string \<Rightarrow> string" where
  "strip_char c s = rstrip_char c (dropWhile (\<lambda>d. d = c) s)"

text \<open>\<open>s.split(sep)\<close> for a separator of one character, and \<open>sep.join(parts)\<close>.\<close>

fun split_char :: "char \<Rightarrow> string \<Rightarrow> string list" where
  "split_char sep [] = [[]]"
| "split_char sep (c # s) =
     (if c = sep then [] # split_char sep s
      else (case split_char sep s of [] \<Rightarrow> [[c]] | p # ps \<Rightarrow> (c # p) # ps))"

fun join_str :: "string \<Rightarrow> string list \<Rightarrow> string" where
  "join_str sep [] = []"
| "join_str sep [x] = x"
| "join_str sep (x # y # xs) = x @ sep @ join_str sep (y # xs)"

text \<open>\<open>s.replace(old, new)\<close> where \<open>old\<close> is one character.\<close>

definition replace_char :: "char \<Rightarrow> string \<Rightarrow> string \<Rightarrow> string" where
  "replace_char old new s = concat (map (\<lambda>c. if c = old then new else [c]) s)"

fun starts_with :: "string \<Rightarrow> string \<Rightarrow> bool" where
  "starts_with [] s = True"
| "starts_with (c # p) [] = False"
| "starts_with (c # p) (d # s) = (c = d \<and> starts_with p s)"

text \<open>\<open>p in s\<close>: substring test.\<close>

fun contains :: "string \<Rightarrow> string \<Rightarrow> bool" where
  "contains p [] = (p = [])"
| "contains p (c # s) = (starts_with p (c # s) \<or> contains p s)"

text \<open>\<open>str(n)\<close> for integers, and \<open>int(s)\<close> for a string of decimal digits.\<close>

fun str_nat :: "nat \<Rightarrow> string" where
  "str_nat n = (if n < 10 then [char_of (n + 48)] else str_nat (n div 10) @ [char_of (n mod 10 + 48)])"

declare str_nat.simps [simp del]

definition str_int :: "int \<Rightarrow> string" where
  "str_int i = (if i < 0 then ''-'' @ str_nat (nat (- i)) else str_nat (nat i))"

definition digit_val :: "char \<Rightarrow> nat" where
  "digit_val c = cp c - 48"

fun digits_val :: "nat \<Rightarrow> string \<Rightarrow> nat" where
  "digits_val acc [] = acc"
| "digits_val acc (c # s) = digits_val (acc * 10 + digit_val c) s"

definition int_of_digits :: "string \<Rightarrow> nat py" where
  "int_of_digits s =
     (if s \<noteq> [] \<and> list_all is_decimal s then Inr (digits_val 0 s) else Inl ValueError)"

lemma starts_with_iff: "starts_with p s \<longleftrightarrow> (\<exists>t. s = p @ t)"
  by (induction p s rule: starts_with.induct) auto

lemma starts_with_append [simp]: "starts_with p (p @ t)"
  by (simp add: starts_with_iff)

lemma contains_iff: "contains p s \<longleftrightarrow> (\<exists>a b. s = a @ p @ b)"
proof (induction s)
  case Nil
  then show ?case by simp
next
  case (Cons c s)
  show ?case
  proof
    assume "contains p (c # s)"
    then show "\<exists>a b. c # s = a @ p @ b"
    proof (cases "starts_with p (c # s)")
      case True
      then show ?thesis by (auto simp: starts_with_iff intro: exI [of _ "[]"])
    next
      case False
      with \<open>contains p (c # s)\<close> Cons.IH obtain a b where "s = a @ p @ b" by auto
      then have "c # s = (c # a) @ p @ b" by simp
      then show ?thesis by blast
    qed
  next
    assume "\<exists>a b. c # s = a @ p @ b"
    then obtain a b where ab: "c # s = a @ p @ b" by blast
    show "contains p (c # s)"
    proof (cases a)
      case Nil
      with ab have "starts_with p (c # s)" by (auto simp: starts_with_iff)
      then show ?thesis by simp
    next
      case (Cons x a')
      with ab have "s = a' @ p @ b" by simp
      with Cons.IH show ?thesis by auto
    qed
  qed
qed

lemma lower_idem [simp]: "lower (lower s) = lower s"
  by (simp add: lower_def)

lemma length_lower [simp]: "length (lower s) = length s"
  by (simp add: lower_def)

lemma split_char_not_Nil [simp]: "split_char sep s \<noteq> []"
  by (induction s) (auto split: list.splits)

lemma split_char_no_sep: "sep \<notin> set s \<Longrightarrow> split_char sep s = [s]"
  by (induction s) auto

lemma split_char_append:
  "sep \<notin> set p \<Longrightarrow> split_char sep (p @ sep # s) = p # split_char sep s"
  by (induction p) auto

lemma split_join_char:
  "xs \<noteq> [] \<Longrightarrow> \<forall>x \<in> set xs. sep \<notin> set x \<Longrightarrow> split_char sep (join_str [sep] xs) = xs"
  by (induction "[sep]" xs rule: join_str.induct) (auto simp: split_char_no_sep split_char_append)

lemma join_split_char: "join_str [sep] (split_char sep s) = s"
proof (induction s)
  case Nil
  then show ?case by simp
next
  case (Cons c s)
  then show ?case
    by (cases "split_char sep s"; cases "tl (split_char sep s)") auto
qed

lemma digits_val_append: "digits_val acc (s @ t) = digits_val (digits_val acc s) t"
  by (induction s arbitrary: acc) auto

lemma digits_val_acc: "digits_val acc s = acc * 10 ^ length s + digits_val 0 s"
proof (induction s arbitrary: acc)
  case Nil
  then show ?case by simp
next
  case (Cons c s)
  have "digits_val acc (c # s) = digits_val (acc * 10 + digit_val c) s" by simp
  also have "\<dots> = (acc * 10 + digit_val c) * 10 ^ length s + digits_val 0 s"
    by (rule Cons.IH)
  also have "digit_val c * 10 ^ length s + digits_val 0 s = digits_val (digit_val c) s"
    by (rule Cons.IH [symmetric])
  then have "(acc * 10 + digit_val c) * 10 ^ length s + digits_val 0 s
      = acc * 10 ^ length (c # s) + digits_val 0 (c # s)"
    by (simp add: algebra_simps)
  finally show ?case .
qed

lemma digit_val_char_of [simp]: "(d::nat) < 10 \<Longrightarrow> digit_val (char_of (d + 48)) = d"
  by (simp add: digit_val_def)

lemma is_decimal_char_of [simp]: "(d::nat) < 10 \<Longrightarrow> is_decimal (char_of (d + 48))"
  by (simp add: is_decimal_def Let_def)

lemma digits_val_str_nat [simp]: "digits_val 0 (str_nat n) = n"
proof (induction n rule: str_nat.induct)
  case (1 n)
  show ?case
  proof (cases "n < 10")
    case True
    then show ?thesis by (simp add: str_nat.simps [of n])
  next
    case False
    with 1 have "digits_val 0 (str_nat (n div 10)) = n div 10" by simp
    with False show ?thesis
      by (simp add: str_nat.simps [of n] digits_val_append)
  qed
qed

lemma str_nat_decimal [simp]: "list_all is_decimal (str_nat n)"
proof (induction n rule: str_nat.induct)
  case (1 n)
  then show ?case
    by (cases "n < 10") (simp_all add: str_nat.simps [of n])
qed

lemma str_nat_not_Nil [simp]: "str_nat n \<noteq> []"
  by (simp add: str_nat.simps [of n])

lemma int_of_digits_str_nat [simp]: "int_of_digits (str_nat n) = Inr n"
  by (simp add: int_of_digits_def)

lemma str_nat_inj: "str_nat m = str_nat n \<longleftrightarrow> m = n"
  by (metis digits_val_str_nat)

end
