(* ===== verification/Schemas.thy ===== *)
theory Schemas
  imports Py_Str
begin

text \<open>
  The request and policy schemas (src/fastapi\_backend/app/schemas): the enumerations as
  datatypes with their string values, the pydantic models as records. Reading the JSON a
  client sends into them is modelled in Validation.
\<close>

datatype sensitivity_level = LOW | MEDIUM | HIGH

fun sensitivity_value :: "sensitivity_level \<Rightarrow> string" where
  "sensitivity_value LOW = ''LOW''"
| "sensitivity_value MEDIUM = ''MEDIUM''"
| "sensitivity_value HIGH = ''HIGH''"

text \<open>\<open>SensitivityLevel(s)\<close> raises ValueError for any other text.\<close>

definition sensitivity_of :: "string \<Rightarrow> sensitivity_level py" where
  "sensitivity_of s =
     (if s = ''LOW'' then Inr LOW else if s = ''MEDIUM'' then Inr MEDIUM
      else if s = ''HIGH'' then Inr HIGH else Inl ValueError)"

lemma sensitivity_of_value [simp]: "sensitivity_of (sensitivity_value s) = Inr s"
  by (cases s) (simp_all add: sensitivity_of_def)

instantiation sensitivity_level :: linorder
begin

fun rank :: "sensitivity_level \<Rightarrow> nat" where
  "rank LOW = 0" | "rank MEDIUM = 1" | "rank HIGH = 2"

definition less_eq_sensitivity_level :: "sensitivity_level \<Rightarrow> sensitivity_level \<Rightarrow> bool" where
  "less_eq_sensitivity_level a b \<longleftrightarrow> rank a \<le> rank b"

definition less_sensitivity_level :: "sensitivity_level \<Rightarrow> sensitivity_level \<Rightarrow> bool" where
  "less_sensitivity_level a b \<longleftrightarrow> rank a < rank b"

instance
proof
  fix x y z :: sensitivity_level
  show "x < y \<longleftrightarrow> x \<le> y \<and> \<not> y \<le> x" and "x \<le> x" and "x \<le> y \<or> y \<le> x"
    and "x \<le> y \<Longrightarrow> y \<le> z \<Longrightarrow> x \<le> z"
    by (auto simp: less_eq_sensitivity_level_def less_sensitivity_level_def)
  show "x \<le> y \<Longrightarrow> y \<le> x \<Longrightarrow> x = y"
    by (cases x; cases y) (simp_all add: less_eq_sensitivity_level_def)
qed

end

lemma le_HIGH [simp]: "s \<le> HIGH"
  by (cases s) (simp_all add: less_eq_sensitivity_level_def)

record message_schema =
  role :: string
  content :: string

record ai_request_metadata =
  sensitivity :: sensitivity_level
  environment :: string

record ai_request_schema =
  intent :: string
  messages :: "message_schema list"
  metadata :: ai_request_metadata

datatype policy_effect = ALLOW_ONPREM_ONLY | DENY_CLOUD | ALLOW_ALL | DENY_ALL

fun effect_value :: "policy_effect \<Rightarrow> string" where
  "effect_value ALLOW_ONPREM_ONLY = ''allow_onprem_only''"
| "effect_value DENY_CLOUD = ''deny_cloud''"
| "effect_value ALLOW_ALL = ''allow_all''"
| "effect_value DENY_ALL = ''deny_all''"

record policy_condition =
  cond_sensitivity :: "sensitivity_level option"
  cond_tenant :: "string option"

record policy_schema =
  policy_id :: string
  description :: "string option"
  condition :: policy_condition
  effect :: policy_effect

end
