(* ===== verification/Py_Regex.thy ===== *)
theory Py_Regex
  imports Py_Str
begin

text \<open>
  The part of Python's \<open>re\<close> module the program uses: a syntax of patterns, a
  backtracking matcher in continuation style (alternatives in order, greedy and lazy
  repetition, the lookarounds and the word boundary of the program's patterns), \<open>search\<close>,
  \<open>finditer\<close>, \<open>fullmatch\<close> and \<open>sub\<close>. A cursor is the character before it (for
  the lookbehinds) and the rest of the text. The relation \<open>rsem\<close> is the declarative
  meaning of a pattern; \<open>match_at_SomeD\<close> and \<open>match_at_None_iff\<close> say the matcher finds a
  match exactly where it has one.
\<close>

section \<open>Patterns\<close>

datatype cset = CChar char | CRange char char | CWord | CDigit | CSpace

datatype rx =
    RSet bool "cset list"            \<comment> \<open>character class, negated when true\<close>
  | RAny                             \<comment> \<open>the dot: any character but a newline\<close>
  | REmpty
  | RSeq rx rx
  | RAlt rx rx
  | RRep rx nat "nat option" bool    \<comment> \<open>least, most, greedy\<close>
  | RNotBehindWord                   \<comment> \<open>negative lookbehind of a word character\<close>
  | RNotAheadWord                    \<comment> \<open>negative lookahead of a word character\<close>
  | RWordB                           \<comment> \<open>word boundary\<close>
  | REnd                             \<comment> \<open>the dollar sign\<close>

abbreviation RC :: "char \<Rightarrow> rx" where "RC c \<equiv> RSet False [CChar c]"
abbreviation ROpt :: "rx \<Rightarrow> rx" where "ROpt r \<equiv> RRep r 0 (Some 1) True"
abbreviation RStar :: "rx \<Rightarrow> rx" where "RStar r \<equiv> RRep r 0 None True"
abbreviation RPlus :: "rx \<Rightarrow> rx" where "RPlus r \<equiv> RRep r 1 None True"
abbreviation RTimes :: "rx \<Rightarrow> nat \<Rightarrow> rx" where "RTimes r n \<equiv> RRep r n (Some n) True"
abbreviation RBetween :: "rx \<Rightarrow> nat \<Rightarrow> nat \<Rightarrow> rx" where "RBetween r m n \<equiv> RRep r m (Some n) True"
abbreviation RDigit :: rx where "RDigit \<equiv> RSet False [CDigit]"
abbreviation RWord :: rx where "RWord \<equiv> RSet False [CWord]"
abbreviation RSpace :: rx where "RSpace \<equiv> RSet False [CSpace]"

text \<open>Concatenation of a list of patterns, a literal text, a list of alternatives.\<close>

fun rseq :: "rx list \<Rightarrow> rx" where
  "rseq [] = REmpty"
| "rseq [r] = r"
| "rseq (r # s # rs) = RSeq r (rseq (s # rs))"

definition rlit :: "string \<Rightarrow> rx" where
  "rlit s = rseq (map RC s)"

fun ralt :: "rx list \<Rightarrow> rx" where
  "ralt [] = RSet False []"
| "ralt [r] = r"
| "ralt (r # s # rs) = RAlt r (ralt (s # rs))"

section \<open>The matcher\<close>

type_synonym cursor = "char option \<times> string"

text \<open>Membership in a class; with \<open>re.I\<close> (the flag \<open>ic\<close>) a character matches when
  a case variant of it does.\<close>

definition in_range :: "char \<Rightarrow> char \<Rightarrow> char \<Rightarrow> bool" where
  "in_range a b c = (cp a \<le> cp c \<and> cp c \<le> cp b)"

fun in_cset :: "bool \<Rightarrow> char \<Rightarrow> cset \<Rightarrow> bool" where
  "in_cset ic c (CChar d) = (if ic then lower_char c = lower_char d else c = d)"
| "in_cset ic c (CRange a b) =
     (in_range a b c \<or> ic \<and> (in_range a b (lower_char c) \<or> list_ex (in_range a b) (upper_char c)))"
| "in_cset ic c CWord = is_word c"
| "in_cset ic c CDigit = is_decimal c"
| "in_cset ic c CSpace = is_space c"

definition in_class :: "bool \<Rightarrow> bool \<Rightarrow> cset list \<Rightarrow> char \<Rightarrow> bool" where
  "in_class ic neg cs c = (list_ex (in_cset ic c) cs \<noteq> neg)"

definition word_before :: "cursor \<Rightarrow> bool" where
  "word_before cu = (case fst cu of None \<Rightarrow> False | Some c \<Rightarrow> is_word c)"

definition word_after :: "cursor \<Rightarrow> bool" where
  "word_after cu = (case snd cu of [] \<Rightarrow> False | c # _ \<Rightarrow> is_word c)"

definition at_end :: "cursor \<Rightarrow> bool" where
  "at_end cu = (snd cu = [] \<or> snd cu = [CHR 0x0A])"

text \<open>
  Repetition of a matcher \<open>m\<close>, at most \<open>n\<close> more times, at least \<open>lo\<close>: a greedy one
  tries another round first, a lazy one tries to go on first. A round that consumes nothing
  is not repeated. The bound for an open repetition is one more than any text allows.
\<close>

fun rrep :: "((cursor \<Rightarrow> 'r option) \<Rightarrow> cursor \<Rightarrow> 'r option) \<Rightarrow> bool \<Rightarrow> nat \<Rightarrow> nat
    \<Rightarrow> (cursor \<Rightarrow> 'r option) \<Rightarrow> cursor \<Rightarrow> 'r option" where
  "rrep m g 0 lo k cu = (if lo = 0 then k cu else None)"
| "rrep m g (Suc n) lo k cu =
     (if 0 < lo then
        m (\<lambda>cu'. if length (snd cu') < length (snd cu) then rrep m g n (lo - 1) k cu' else None) cu
      else if g then
        (case m (\<lambda>cu'. if length (snd cu') < length (snd cu) then rrep m g n 0 k cu' else None) cu
         of None \<Rightarrow> k cu | Some x \<Rightarrow> Some x)
      else
        (case k cu of
           None \<Rightarrow> m (\<lambda>cu'. if length (snd cu') < length (snd cu) then rrep m g n 0 k cu' else None) cu
         | Some x \<Rightarrow> Some x))"

primrec rmatch :: "rx \<Rightarrow> bool \<Rightarrow> (cursor \<Rightarrow> 'r option) \<Rightarrow> cursor \<Rightarrow> 'r option" where
  "rmatch (RSet neg cs) ic k cu =
     (case snd cu of [] \<Rightarrow> None
      | c # w \<Rightarrow> if in_class ic neg cs c then k (Some c, w) else None)"
| "rmatch RAny ic k cu =
     (case snd cu of [] \<Rightarrow> None | c # w \<Rightarrow> if c \<noteq> CHR 0x0A then k (Some c, w) else None)"
| "rmatch REmpty ic k cu = k cu"
| "rmatch (RSeq a b) ic k cu = rmatch a ic (rmatch b ic k) cu"
| "rmatch (RAlt a b) ic k cu =
     (case rmatch a ic k cu of None \<Rightarrow> rmatch b ic k cu | Some x \<Rightarrow> Some x)"
| "rmatch (RRep a lo hi g) ic k cu =
     rrep (rmatch a ic) g (case hi of None \<Rightarrow> lo + length (snd cu) | Some h \<Rightarrow> h) lo k cu"
| "rmatch RNotBehindWord ic k cu = (if word_before cu then None else k cu)"
| "rmatch RNotAheadWord ic k cu = (if word_after cu then None else k cu)"
| "rmatch RWordB ic k cu = (if word_before cu \<noteq> word_after cu then k cu else None)"
| "rmatch REnd ic k cu = (if at_end cu then k cu else None)"

section \<open>The meaning of a pattern\<close>

definition shorter :: "(cursor \<times> cursor) set" where
  "shorter = {(c, c'). length (snd c') < length (snd c)}"

primrec rsem :: "rx \<Rightarrow> bool \<Rightarrow> (cursor \<times> cursor) set" where
  "rsem (RSet neg cs) ic = {((p, c # w), (Some c, w)) | p c w. in_class ic neg cs c}"
| "rsem RAny ic = {((p, c # w), (Some c, w)) | p c w. c \<noteq> CHR 0x0A}"
| "rsem REmpty ic = Id"
| "rsem (RSeq a b) ic = rsem a ic O rsem b ic"
| "rsem (RAlt a b) ic = rsem a ic \<union> rsem b ic"
| "rsem (RRep a lo hi g) ic =
     (\<Union>n \<in> {n. lo \<le> n \<and> (\<forall>h. hi = Some h \<longrightarrow> n \<le> h)}. (rsem a ic \<inter> shorter) ^^ n)"
| "rsem RNotBehindWord ic = Id_on {cu. \<not> word_before cu}"
| "rsem RNotAheadWord ic = Id_on {cu. \<not> word_after cu}"
| "rsem RWordB ic = Id_on {cu. word_before cu \<noteq> word_after cu}"
| "rsem REnd ic = Id_on {cu. at_end cu}"

text \<open>A matcher that realises a relation: whatever it returns comes from the continuation at
  a related cursor, and it fails only if the continuation fails at each of them.\<close>

definition realises :: "((cursor \<Rightarrow> 'r option) \<Rightarrow> cursor \<Rightarrow> 'r option) \<Rightarrow> (cursor \<times> cursor) set \<Rightarrow> bool" where
  "realises m R \<longleftrightarrow> (\<forall>k cu.
     (\<forall>x. m k cu = Some x \<longrightarrow> (\<exists>cu'. (cu, cu') \<in> R \<and> k cu' = Some x)) \<and>
     (m k cu = None \<longrightarrow> (\<forall>cu'. (cu, cu') \<in> R \<longrightarrow> k cu' = None)))"

lemma realisesD1: "realises m R \<Longrightarrow> m k cu = Some x \<Longrightarrow> \<exists>cu'. (cu, cu') \<in> R \<and> k cu' = Some x"
  and realisesD2: "realises m R \<Longrightarrow> m k cu = None \<Longrightarrow> (cu, cu') \<in> R \<Longrightarrow> k cu' = None"
  unfolding realises_def by blast+

definition rep_rel :: "(cursor \<times> cursor) set \<Rightarrow> nat \<Rightarrow> nat \<Rightarrow> (cursor \<times> cursor) set" where
  "rep_rel R lo n = (\<Union>i \<in> {lo..n}. (R \<inter> shorter) ^^ i)"

lemma rep_rel_0: "rep_rel R lo 0 = (if lo = 0 then Id else {})"
  by (auto simp: rep_rel_def)

lemma UN_Suc_relpow: "(\<Union>i \<in> Suc ` A. (X :: ('a \<times> 'a) set) ^^ i) = X O (\<Union>i \<in> A. X ^^ i)"
proof -
  have "X ^^ Suc i = X O X ^^ i" for i by (simp add: relpow_commute)
  then show ?thesis by (simp add: relcomp_UNION_distrib image_comp del: relpow.simps)
qed

lemma rep_rel_Suc_pos:
  assumes "0 < lo" shows "rep_rel R lo (Suc n) = (R \<inter> shorter) O rep_rel R (lo - 1) n"
proof -
  have "{lo..Suc n} = Suc ` {lo - 1..n}" using assms by (simp add: image_Suc_atLeastAtMost)
  then show ?thesis unfolding rep_rel_def by (simp only: UN_Suc_relpow)
qed

lemma rep_rel_Suc_0: "rep_rel R 0 (Suc n) = Id \<union> (R \<inter> shorter) O rep_rel R 0 n"
proof -
  have "{0..Suc n} = insert 0 (Suc ` {0..n})"
    by (metis atLeast0_atMost_Suc_eq_insert_0 atMost_atLeast0)
  then show ?thesis unfolding rep_rel_def by (simp only: UN_insert UN_Suc_relpow relpow.simps)
qed

lemma realises_round:
  assumes "realises m R" and "realises m' S"
  shows "realises (\<lambda>k cu. m (\<lambda>cu'. if length (snd cu') < length (snd cu) then m' k cu' else None) cu)
    ((R \<inter> shorter) O S)"
  unfolding realises_def
proof (intro allI conjI impI)
  fix k cu x
  assume "m (\<lambda>cu'. if length (snd cu') < length (snd cu) then m' k cu' else None) cu = Some x"
  from realisesD1 [OF assms(1) this] obtain c
    where c: "(cu, c) \<in> R" "length (snd c) < length (snd cu)" "m' k c = Some x"
    by (auto split: if_splits)
  from realisesD1 [OF assms(2) c(3)] obtain cu' where "(c, cu') \<in> S" "k cu' = Some x" by blast
  with c(1,2) have "(cu, cu') \<in> (R \<inter> shorter) O S" by (auto simp: shorter_def intro!: relcompI [of cu c])
  with \<open>k cu' = Some x\<close> show "\<exists>cu'. (cu, cu') \<in> (R \<inter> shorter) O S \<and> k cu' = Some x" by blast
next
  fix k cu cu'
  assume *: "m (\<lambda>cu'. if length (snd cu') < length (snd cu) then m' k cu' else None) cu = None"
    and "(cu, cu') \<in> (R \<inter> shorter) O S"
  then obtain c where c: "(cu, c) \<in> R" "length (snd c) < length (snd cu)" "(c, cu') \<in> S"
    by (auto simp: shorter_def)
  from realisesD2 [OF assms(1) * c(1)] c(2) have "m' k c = None" by simp
  then show "k cu' = None" using c(3) by (rule realisesD2 [OF assms(2)])
qed

lemma realises_or:
  assumes "realises m R" and "realises m' S"
  shows "realises (\<lambda>k cu. case m k cu of None \<Rightarrow> m' k cu | Some x \<Rightarrow> Some x) (R \<union> S)"
  unfolding realises_def
proof (intro allI conjI impI)
  fix k cu x
  assume "(case m k cu of None \<Rightarrow> m' k cu | Some x \<Rightarrow> Some x) = Some x"
  then consider "m k cu = Some x" | "m' k cu = Some x" by (cases "m k cu") simp_all
  then show "\<exists>cu'. (cu, cu') \<in> R \<union> S \<and> k cu' = Some x"
  proof cases
    case 1
    from realisesD1 [OF assms(1) 1] show ?thesis by blast
  next
    case 2
    from realisesD1 [OF assms(2) 2] show ?thesis by blast
  qed
next
  fix k cu cu'
  assume "(case m k cu of None \<Rightarrow> m' k cu | Some x \<Rightarrow> Some x) = None" and "(cu, cu') \<in> R \<union> S"
  then show "k cu' = None"
    by (auto split: option.splits dest: realisesD2 [OF assms(1)] realisesD2 [OF assms(2)])
qed

lemma realises_Id: "realises (\<lambda>k. k) Id"
  by (simp add: realises_def)

lemma realises_rrep:
  assumes m: "realises m R"
  shows "realises (rrep m g n lo) (rep_rel R lo n)"
proof (induction n arbitrary: lo)
  case 0
  then show ?case by (auto simp: realises_def rep_rel_0)
next
  case (Suc n)
  note round = realises_round [OF m Suc.IH]
  show ?case
  proof (cases "0 < lo")
    case True
    then have "rrep m g (Suc n) lo = (\<lambda>k cu. m (\<lambda>cu'. if length (snd cu') < length (snd cu)
        then rrep m g n (lo - 1) k cu' else None) cu)"
      by (intro ext) simp
    with round [of "lo - 1"] True show ?thesis by (simp add: rep_rel_Suc_pos)
  next
    case False
    show ?thesis
    proof (cases g)
      case True
      then have g: "g = True" by simp
      have "rrep m True (Suc n) 0 = (\<lambda>k cu. case m (\<lambda>cu'. if length (snd cu') < length (snd cu)
          then rrep m True n 0 k cu' else None) cu of None \<Rightarrow> k cu | Some x \<Rightarrow> Some x)"
        by (intro ext) simp
      with realises_or [OF round [of 0] realises_Id] False show ?thesis
        unfolding g by (simp add: rep_rel_Suc_0 Un_commute)
    next
      case g: False
      then have g: "g = False" by simp
      have "rrep m False (Suc n) 0 = (\<lambda>k cu. case k cu of None \<Rightarrow> m (\<lambda>cu'.
          if length (snd cu') < length (snd cu) then rrep m False n 0 k cu' else None) cu | Some x \<Rightarrow> Some x)"
        by (intro ext) simp
      with realises_or [OF realises_Id round [of 0]] False show ?thesis
        unfolding g by (simp add: rep_rel_Suc_0)
    qed
  qed
qed

lemma shorter_pow:
  "(cu, cu') \<in> (R \<inter> shorter) ^^ n \<Longrightarrow> n + length (snd cu') \<le> length (snd cu)"
proof (induction n arbitrary: cu')
  case (Suc n)
  then show ?case by (fastforce simp: shorter_def)
qed simp

lemma rep_rel_open:
  "(cu, cu') \<in> rep_rel R lo (lo + length (snd cu)) \<longleftrightarrow> (\<exists>n \<ge> lo. (cu, cu') \<in> (R \<inter> shorter) ^^ n)"
  using shorter_pow [of cu cu' _ R] unfolding rep_rel_def by (auto intro: le_trans) (metis add_leD1 atLeastAtMost_iff trans_le_add2)

lemma realises_rmatch: "realises (rmatch r ic) (rsem r ic)"
proof (induction r)
  case (RSet neg cs)
  show ?case by (auto simp: realises_def split: list.splits)
next
  case RAny
  show ?case by (auto simp: realises_def split: list.splits)
next
  case (RSeq a b)
  show ?case
    unfolding realises_def
  proof (intro allI conjI impI)
    fix k :: "cursor \<Rightarrow> 'a option" and cu x
    assume "rmatch (RSeq a b) ic k cu = Some x"
    then show "\<exists>cu'. (cu, cu') \<in> rsem (RSeq a b) ic \<and> k cu' = Some x"
      by (auto dest!: realisesD1 [OF RSeq.IH(1)] realisesD1 [OF RSeq.IH(2)])
  next
    fix k :: "cursor \<Rightarrow> 'a option" and cu cu'
    assume "rmatch (RSeq a b) ic k cu = None" and "(cu, cu') \<in> rsem (RSeq a b) ic"
    then show "k cu' = None"
      by (auto dest: realisesD2 [OF RSeq.IH(1)] realisesD2 [OF RSeq.IH(2)])
  qed
next
  case (RAlt a b)
  have "rmatch (RAlt a b) ic = (\<lambda>k cu. case rmatch a ic k cu of None \<Rightarrow> rmatch b ic k cu | Some x \<Rightarrow> Some x)"
    by (intro ext) simp
  with realises_or [OF RAlt.IH] show ?case by simp
next
  case (RRep a lo hi g)
  note rr = realises_rrep [OF RRep.IH]
  show ?case
    unfolding realises_def
  proof (intro allI conjI impI)
    fix k :: "cursor \<Rightarrow> 'a option" and cu x
    assume "rmatch (RRep a lo hi g) ic k cu = Some x"
    then obtain cu' where "(cu, cu') \<in> rep_rel (rsem a ic) lo
        (case hi of None \<Rightarrow> lo + length (snd cu) | Some h \<Rightarrow> h)" and "k cu' = Some x"
      by (auto dest!: realisesD1 [OF rr])
    moreover from this(1) have "(cu, cu') \<in> rsem (RRep a lo hi g) ic"
      by (cases hi) (auto simp: rep_rel_open, auto simp: rep_rel_def)
    ultimately show "\<exists>cu'. (cu, cu') \<in> rsem (RRep a lo hi g) ic \<and> k cu' = Some x" by blast
  next
    fix k :: "cursor \<Rightarrow> 'a option" and cu cu'
    assume *: "rmatch (RRep a lo hi g) ic k cu = None" and "(cu, cu') \<in> rsem (RRep a lo hi g) ic"
    then have "(cu, cu') \<in> rep_rel (rsem a ic) lo
        (case hi of None \<Rightarrow> lo + length (snd cu) | Some h \<Rightarrow> h)"
      by (cases hi) (auto simp: rep_rel_open, auto simp: rep_rel_def)
    with * show "k cu' = None" by (auto dest: realisesD2 [OF rr])
  qed
qed (auto simp: realises_def Id_on_def)

lemma rmatch_SomeD:
  "rmatch r ic k cu = Some x \<Longrightarrow> \<exists>cu'. (cu, cu') \<in> rsem r ic \<and> k cu' = Some x"
  by (rule realisesD1 [OF realises_rmatch])

lemma rmatch_NoneD: "rmatch r ic k cu = None \<Longrightarrow> (cu, cu') \<in> rsem r ic \<Longrightarrow> k cu' = None"
  by (rule realisesD2 [OF realises_rmatch])

section \<open>What a match consumes\<close>

text \<open>The least number of characters a pattern consumes, and the shape of a match: the rest of
  the text is a suffix, and the character before the cursor is the last one consumed.\<close>

primrec min_len :: "rx \<Rightarrow> nat" where
  "min_len (RSet neg cs) = 1"
| "min_len RAny = 1"
| "min_len REmpty = 0"
| "min_len (RSeq a b) = min_len a + min_len b"
| "min_len (RAlt a b) = min (min_len a) (min_len b)"
| "min_len (RRep a lo hi g) = lo * min_len a"
| "min_len RNotBehindWord = 0"
| "min_len RNotAheadWord = 0"
| "min_len RWordB = 0"
| "min_len REnd = 0"

definition moves :: "cursor \<Rightarrow> string \<Rightarrow> cursor \<Rightarrow> bool" where
  "moves cu w cu' \<longleftrightarrow> snd cu = w @ snd cu' \<and> fst cu' = (if w = [] then fst cu else Some (last w))"

lemma moves_refl [simp]: "moves cu [] cu"
  by (simp add: moves_def)

lemma moves_trans: "moves a v b \<Longrightarrow> moves b w c \<Longrightarrow> moves a (v @ w) c"
  by (auto simp: moves_def)

lemma moves_pow:
  assumes "\<And>cu cu'. (cu, cu') \<in> R \<Longrightarrow> \<exists>w. moves cu w cu' \<and> m \<le> length w"
  shows "(cu, cu') \<in> R ^^ n \<Longrightarrow> \<exists>w. moves cu w cu' \<and> n * m \<le> length w"
proof (induction n arbitrary: cu')
  case 0
  then show ?case by (auto intro: exI [of _ "[]"])
next
  case (Suc n)
  then obtain c where c: "(cu, c) \<in> R ^^ n" "(c, cu') \<in> R" by auto
  from Suc.IH [OF c(1)] obtain w where w: "moves cu w c" "n * m \<le> length w" by blast
  from assms [OF c(2)] obtain v where v: "moves c v cu'" "m \<le> length v" by blast
  from w v have "moves cu (w @ v) cu'" and "Suc n * m \<le> length (w @ v)"
    by (auto intro: moves_trans)
  then show ?case by blast
qed

lemma rsem_moves: "(cu, cu') \<in> rsem r ic \<Longrightarrow> \<exists>w. moves cu w cu' \<and> min_len r \<le> length w"
proof (induction r arbitrary: cu cu')
  case (RSet neg cs)
  then obtain p c w where "cu = (p, c # w)" and "cu' = (Some c, w)" by auto
  then show ?case by (intro exI [of _ "[c]"]) (simp add: moves_def)
next
  case RAny
  then obtain p c w where "cu = (p, c # w)" and "cu' = (Some c, w)" by auto
  then show ?case by (intro exI [of _ "[c]"]) (simp add: moves_def)
next
  case (RSeq a b)
  from RSeq.prems obtain c where c: "(cu, c) \<in> rsem a ic" "(c, cu') \<in> rsem b ic" by auto
  from RSeq.IH(1) [OF c(1)] obtain w where w: "moves cu w c" "min_len a \<le> length w" by blast
  from RSeq.IH(2) [OF c(2)] obtain v where v: "moves c v cu'" "min_len b \<le> length v" by blast
  from w v have "moves cu (w @ v) cu'" and "min_len (RSeq a b) \<le> length (w @ v)"
    by (auto intro: moves_trans)
  then show ?case by blast
next
  case (RAlt a b)
  then consider "(cu, cu') \<in> rsem a ic" | "(cu, cu') \<in> rsem b ic" by auto
  then obtain w where "moves cu w cu'" and "min_len a \<le> length w \<or> min_len b \<le> length w"
    by cases (blast dest: RAlt.IH(1), blast dest: RAlt.IH(2))
  moreover from this(2) have "min_len (RAlt a b) \<le> length w" by auto
  ultimately show ?case by blast
next
  case (RRep a lo hi g)
  then obtain n where n: "lo \<le> n" "(cu, cu') \<in> (rsem a ic \<inter> shorter) ^^ n" by auto
  then obtain w where "moves cu w cu'" "n * min_len a \<le> length w"
    using moves_pow [of "rsem a ic \<inter> shorter" "min_len a"] RRep.IH by blast
  moreover have "lo * min_len a \<le> n * min_len a" using n(1) by simp
  ultimately show ?case by (metis le_trans min_len.simps(6))
qed (auto intro: exI [of _ "[]"])

section \<open>match, search, finditer, fullmatch, sub\<close>

text \<open>The cursor at index \<open>i\<close> of a text; a match there as the cursor after it.\<close>

definition cursor_at :: "string \<Rightarrow> nat \<Rightarrow> cursor" where
  "cursor_at t i = ((if i = 0 then None else Some (t ! (i - 1))), drop i t)"

definition match_at :: "rx \<Rightarrow> bool \<Rightarrow> char option \<Rightarrow> string \<Rightarrow> cursor option" where
  "match_at r ic p s = rmatch r ic Some (p, s)"

fun search_from :: "rx \<Rightarrow> bool \<Rightarrow> char option \<Rightarrow> string \<Rightarrow> bool" where
  "search_from r ic p [] = (match_at r ic p [] \<noteq> None)"
| "search_from r ic p (c # s) = (match_at r ic p (c # s) \<noteq> None \<or> search_from r ic (Some c) s)"

definition re_search :: "rx \<Rightarrow> bool \<Rightarrow> string \<Rightarrow> bool" where
  "re_search r ic s = search_from r ic None s"

definition re_fullmatch :: "rx \<Rightarrow> bool \<Rightarrow> string \<Rightarrow> bool" where
  "re_fullmatch r ic s = (rmatch r ic (\<lambda>cu. if snd cu = [] then Some () else None) (None, s) \<noteq> None)"

text \<open>
  \<open>finditer\<close>: the spans (start, end) of the leftmost matches, each searched from the end of
  the one before. An empty match is passed over, which no pattern of the program has
  (\<open>min_len\<close> of each is positive).
\<close>

function finditer_from :: "rx \<Rightarrow> bool \<Rightarrow> nat \<Rightarrow> char option \<Rightarrow> string \<Rightarrow> (nat \<times> nat) list" where
  "finditer_from r ic i p s =
     (case match_at r ic p s of
        Some (p', s') \<Rightarrow>
          (if length s' < length s then
             (let j = i + (length s - length s') in (i, j) # finditer_from r ic j p' s')
           else (case s of [] \<Rightarrow> [] | c # w \<Rightarrow> finditer_from r ic (Suc i) (Some c) w))
      | None \<Rightarrow> (case s of [] \<Rightarrow> [] | c # w \<Rightarrow> finditer_from r ic (Suc i) (Some c) w))"
  by pat_completeness auto
termination
  by (relation "measure (\<lambda>(r, ic, i, p, s). length s)") auto

declare finditer_from.simps [simp del]

definition finditer :: "rx \<Rightarrow> bool \<Rightarrow> string \<Rightarrow> (nat \<times> nat) list" where
  "finditer r ic s = finditer_from r ic 0 None s"

text \<open>\<open>re.sub\<close> with a fixed replacement.\<close>

function re_sub_from :: "rx \<Rightarrow> bool \<Rightarrow> string \<Rightarrow> char option \<Rightarrow> string \<Rightarrow> string" where
  "re_sub_from r ic by p s =
     (case match_at r ic p s of
        Some (p', s') \<Rightarrow>
          (if length s' < length s then by @ re_sub_from r ic by p' s'
           else (case s of [] \<Rightarrow> [] | c # w \<Rightarrow> c # re_sub_from r ic by (Some c) w))
      | None \<Rightarrow> (case s of [] \<Rightarrow> [] | c # w \<Rightarrow> c # re_sub_from r ic by (Some c) w))"
  by pat_completeness auto
termination
  by (relation "measure (\<lambda>(r, ic, by, p, s). length s)") auto

declare re_sub_from.simps [simp del]

definition re_sub :: "rx \<Rightarrow> bool \<Rightarrow> string \<Rightarrow> string \<Rightarrow> string" where
  "re_sub r ic by s = re_sub_from r ic by None s"

text \<open>The text between two indices, \<open>s[a:b]\<close>.\<close>

definition slice :: "nat \<Rightarrow> nat \<Rightarrow> 'a list \<Rightarrow> 'a list" where
  "slice a b s = take (b - a) (drop a s)"

section \<open>Matches and the meaning of patterns\<close>

lemma match_at_SomeD:
  "match_at r ic p s = Some cu' \<Longrightarrow> ((p, s), cu') \<in> rsem r ic"
  unfolding match_at_def by (drule rmatch_SomeD) auto

lemma match_at_None_iff:
  "match_at r ic p s = None \<longleftrightarrow> (\<forall>cu'. ((p, s), cu') \<notin> rsem r ic)"
  unfolding match_at_def using rmatch_NoneD [of r ic Some "(p, s)"] rmatch_SomeD [of r ic Some "(p, s)"]
  by (metis option.distinct(1) option.exhaust)

lemma cursor_at_0 [simp]: "cursor_at t 0 = (None, t)"
  by (simp add: cursor_at_def)

lemma cursor_at_Suc: "cursor_at t i = (p, c # w) \<Longrightarrow> cursor_at t (Suc i) = (Some c, w)"
  unfolding cursor_at_def
  by (auto simp: drop_Suc tl_drop [symmetric] nth_via_drop)

lemma cursor_at_moves:
  assumes "moves (cursor_at t i) w cu'" and "i \<le> length t"
  shows "cu' = cursor_at t (i + length w)" and "i + length w \<le> length t" and "w = slice i (i + length w) t"
proof -
  from assms(1) have d: "drop i t = w @ snd cu'"
    and f: "fst cu' = (if w = [] then fst (cursor_at t i) else Some (last w))"
    by (auto simp: moves_def cursor_at_def)
  from d have s: "snd cu' = drop (i + length w) t"
    by (metis add.commute append_eq_conv_conj drop_drop)
  from d assms(2) show le: "i + length w \<le> length t"
    by (metis add_le_cancel_left le_add_diff_inverse length_append length_drop le_add1)
  from d show "w = slice i (i + length w) t" by (simp add: slice_def)
  have "last w = t ! (i + length w - 1)" if "w \<noteq> []"
  proof -
    from that have "last w = w ! (length w - 1)" by (simp add: last_conv_nth)
    also have "\<dots> = drop i t ! (length w - 1)" using that by (simp add: d nth_append)
    also have "\<dots> = t ! (i + length w - 1)" using that assms(2) by (simp add: Nat.add_diff_assoc Suc_leI)
    finally show ?thesis .
  qed
  with f s show "cu' = cursor_at t (i + length w)"
    by (cases cu') (auto simp: cursor_at_def)
qed

section \<open>Spans\<close>

text \<open>Spans inside \<open>lo..n\<close>, each nonempty, in order and disjoint.\<close>

fun spans_ok :: "nat \<Rightarrow> nat \<Rightarrow> (nat \<times> nat) list \<Rightarrow> bool" where
  "spans_ok lo n [] = (lo \<le> n)"
| "spans_ok lo n ((a, b) # ss) = (lo \<le> a \<and> a < b \<and> spans_ok b n ss)"

lemma spans_ok_le: "spans_ok lo n ss \<Longrightarrow> lo \<le> n"
  by (induction lo n ss rule: spans_ok.induct) auto

lemma spans_ok_mono: "spans_ok lo n ss \<Longrightarrow> lo' \<le> lo \<Longrightarrow> spans_ok lo' n ss"
  by (cases ss) auto

lemma spans_ok_bounds: "spans_ok lo n ss \<Longrightarrow> (a, b) \<in> set ss \<Longrightarrow> lo \<le> a \<and> a < b \<and> b \<le> n"
proof (induction lo n ss rule: spans_ok.induct)
  case (2 lo n a' b' ss)
  then show ?case using spans_ok_le [of b' n ss] by auto
qed simp

text \<open>What \<open>finditer\<close> returns: well-formed spans, each a match of the pattern at its start.\<close>

definition match_from :: "rx \<Rightarrow> bool \<Rightarrow> cursor \<Rightarrow> cursor option" where
  "match_from r ic cu = match_at r ic (fst cu) (snd cu)"

lemma finditer_from_spans:
  assumes "cursor_at t i = (p, s)" and "i \<le> length t"
  shows "spans_ok i (length t) (finditer_from r ic i p s) \<and>
    (\<forall>(a, b) \<in> set (finditer_from r ic i p s). match_from r ic (cursor_at t a) = Some (cursor_at t b))"
  using assms
proof (induction r ic i p s rule: finditer_from.induct)
  case (1 r ic i p s)
  have next_ok: "spans_ok i (length t) (finditer_from r ic (Suc i) (Some c) w) \<and>
      (\<forall>(a, b) \<in> set (finditer_from r ic (Suc i) (Some c) w). match_from r ic (cursor_at t a) = Some (cursor_at t b))"
    if "s = c # w" and "match_at r ic p s = None \<or>
      (\<exists>p' s'. match_at r ic p s = Some (p', s') \<and> \<not> length s' < length s)" for c w
  proof -
    from "1.prems" that have cu: "cursor_at t (Suc i) = (Some c, w)" by (auto intro: cursor_at_Suc)
    from "1.prems"(1) that(1) have "drop i t = c # w" by (simp add: cursor_at_def)
    then have "Suc i \<le> length t" by (metis Suc_leI drop_all list.distinct(1) not_le)
    from that(2) have "spans_ok (Suc i) (length t) (finditer_from r ic (Suc i) (Some c) w) \<and>
      (\<forall>(a, b) \<in> set (finditer_from r ic (Suc i) (Some c) w). match_from r ic (cursor_at t a) = Some (cursor_at t b))"
    proof
      assume "match_at r ic p s = None"
      from "1.IH"(1) [OF this that(1) cu \<open>Suc i \<le> length t\<close>] show ?thesis .
    next
      assume "\<exists>p' s'. match_at r ic p s = Some (p', s') \<and> \<not> length s' < length s"
      then obtain p' s' where m: "match_at r ic p s = Some (p', s')" and l: "\<not> length s' < length s"
        by blast
      from "1.IH"(3) [OF m refl l that(1) cu \<open>Suc i \<le> length t\<close>] show ?thesis .
    qed
    then show ?thesis by (auto intro: spans_ok_mono)
  qed
  show ?case
  proof (cases "match_at r ic p s")
    case None
    with "1.prems" next_ok show ?thesis
      by (subst (1 2) finditer_from.simps) (auto split: list.split)
  next
    case (Some cu')
    obtain p' s' where cu': "cu' = (p', s')" by (cases cu')
    show ?thesis
    proof (cases "length s' < length s")
      case False
      with Some cu' "1.prems" next_ok show ?thesis
        by (subst (1 2) finditer_from.simps) (auto split: list.split)
    next
      case True
      from Some cu' have sem: "((p, s), (p', s')) \<in> rsem r ic" by (simp add: match_at_SomeD)
      from rsem_moves [OF this] obtain w where w: "moves (cursor_at t i) w (p', s')"
        using "1.prems" by auto
      note at = cursor_at_moves [OF w "1.prems"(2)]
      let ?j = "i + length w"
      from w "1.prems"(1) have len: "length s - length s' = length w" by (simp add: moves_def)
      from True have "0 < length s - length s'" by simp
      then have j: "i < ?j" by (simp add: len)
      have eq: "finditer_from r ic i p s = (i, ?j) # finditer_from r ic ?j p' s'"
        using Some cu' True len by (subst finditer_from.simps) (simp add: Let_def)
      have "spans_ok ?j (length t) (finditer_from r ic ?j p' s') \<and>
          (\<forall>(a, b) \<in> set (finditer_from r ic ?j p' s'). match_from r ic (cursor_at t a) = Some (cursor_at t b))"
        using "1.IH"(2) [OF Some cu' [symmetric] True refl] at(1,2) len by simp
      moreover have "match_from r ic (cursor_at t i) = Some (cursor_at t ?j)"
        using Some cu' at(1) "1.prems"(1) by (simp add: match_from_def)
      ultimately show ?thesis using j by (simp add: eq)
    qed
  qed
qed

lemma finditer_spans_ok: "spans_ok 0 (length t) (finditer r ic t)"
  and finditer_match_from: "(a, b) \<in> set (finditer r ic t) \<Longrightarrow> match_from r ic (cursor_at t a) = Some (cursor_at t b)"
  using finditer_from_spans [of t 0 None t r ic] by (auto simp: finditer_def)

lemma finditer_match: "(a, b) \<in> set (finditer r ic t) \<Longrightarrow> (cursor_at t a, cursor_at t b) \<in> rsem r ic"
  by (drule finditer_match_from) (auto simp: match_from_def dest!: match_at_SomeD)

text \<open>Completeness: \<open>finditer\<close> of a pattern that consumes something is empty only if the
  pattern matches nowhere.\<close>

lemma match_shorter:
  assumes "0 < min_len r" and "match_at r ic p s = Some (p', s')"
  shows "length s' < length s"
proof -
  from rsem_moves [OF match_at_SomeD [OF assms(2)]] obtain w
    where "moves (p, s) w (p', s')" and "min_len r \<le> length w" by blast
  with assms(1) show ?thesis by (auto simp: moves_def)
qed

lemma finditer_from_Nil_iff:
  assumes "0 < min_len r"
  shows "finditer_from r ic i p s = [] \<longleftrightarrow> \<not> search_from r ic p s"
proof (induction s arbitrary: i p)
  case Nil
  then show ?case
    using match_shorter [OF assms, of ic p "[]"]
    by (subst finditer_from.simps) (auto split: option.split)
next
  case (Cons c s)
  then show ?case
    using match_shorter [OF assms, of ic p "c # s"]
    by (subst finditer_from.simps) (auto split: option.split simp: Let_def)
qed

lemma finditer_Nil_iff: "0 < min_len r \<Longrightarrow> finditer r ic s = [] \<longleftrightarrow> \<not> re_search r ic s"
  by (simp add: finditer_def re_search_def finditer_from_Nil_iff)

lemma search_from_iff:
  "search_from r ic p s \<longleftrightarrow>
     (\<exists>v w cu'. s = v @ w \<and> (((if v = [] then p else Some (last v)), w), cu') \<in> rsem r ic)"
proof (induction s arbitrary: p)
  case Nil
  then show ?case by (simp add: match_at_None_iff)
next
  case (Cons c s)
  have "(\<exists>v w cu'. c # s = v @ w \<and> (((if v = [] then p else Some (last v)), w), cu') \<in> rsem r ic)
      \<longleftrightarrow> (\<exists>cu'. ((p, c # s), cu') \<in> rsem r ic) \<or>
        (\<exists>v w cu'. s = v @ w \<and> (((if v = [] then Some c else Some (last v)), w), cu') \<in> rsem r ic)"
    (is "?L \<longleftrightarrow> ?A \<or> ?B")
  proof
    assume ?L
    then obtain v w cu' where *: "c # s = v @ w"
      "(((if v = [] then p else Some (last v)), w), cu') \<in> rsem r ic" by blast
    show "?A \<or> ?B"
    proof (cases v)
      case Nil
      with * have "((p, c # s), cu') \<in> rsem r ic" by simp
      then show ?thesis by blast
    next
      case (Cons d v')
      with * have "s = v' @ w" and "(((if v' = [] then Some c else Some (last v')), w), cu') \<in> rsem r ic"
        by (auto split: if_splits)
      then show ?thesis by blast
    qed
  next
    assume "?A \<or> ?B"
    then show ?L
    proof
      assume ?A
      then obtain cu' where "((p, c # s), cu') \<in> rsem r ic" by blast
      then show ?L by (intro exI [of _ "[]"] exI [of _ "c # s"] exI [of _ cu']) simp
    next
      assume ?B
      then obtain v w cu' where *: "s = v @ w"
        "(((if v = [] then Some c else Some (last v)), w), cu') \<in> rsem r ic" by blast
      then have "c # s = (c # v) @ w"
        and "(((if c # v = [] then p else Some (last (c # v))), w), cu') \<in> rsem r ic"
        by (auto split: if_splits)
      then show ?L by blast
    qed
  qed
  with Cons.IH show ?case by (auto simp: match_at_None_iff)
qed

lemma re_search_iff:
  "re_search r ic t \<longleftrightarrow>
     (\<exists>v w cu'. t = v @ w \<and> (((if v = [] then None else Some (last v)), w), cu') \<in> rsem r ic)"
  by (simp add: re_search_def search_from_iff)

lemma re_sub_from_no_match:
  "0 < min_len r \<Longrightarrow> \<not> search_from r ic p s \<Longrightarrow> re_sub_from r ic by p s = s"
proof (induction s arbitrary: p)
  case Nil
  then show ?case by (subst re_sub_from.simps) (auto split: option.split)
next
  case (Cons c s)
  then show ?case by (subst re_sub_from.simps) (auto split: option.split)
qed

text \<open>Replacing each character of a class deletes or replaces it wherever it is.\<close>

lemma re_sub_class:
  "re_sub_from (RSet neg cs) ic by p s = concat (map (\<lambda>c. if in_class ic neg cs c then by else [c]) s)"
proof (induction s arbitrary: p)
  case Nil
  then show ?case by (subst re_sub_from.simps) (simp add: match_at_def)
next
  case (Cons c s)
  then show ?case by (subst re_sub_from.simps) (simp add: match_at_def)
qed

lemma re_sub_delete_class:
  "re_sub (RSet neg cs) ic [] s = filter (\<lambda>c. \<not> in_class ic neg cs c) s"
proof -
  have "concat (map (\<lambda>c. if in_class ic neg cs c then [] else [c]) s)
      = filter (\<lambda>c. \<not> in_class ic neg cs c) s" by (induction s) auto
  then show ?thesis by (simp add: re_sub_def re_sub_class)
qed

end
