(* ===== verification/Redaction.thy ===== *)
theory Redaction
  imports Py_Regex
begin

text \<open>
  Replacing the matches of a pattern by a placeholder: splicing from the last span backwards
  is the substitution from left to right (\<open>splice_subst\<close>), \<open>finditer\<close> misses no position
  where the pattern matches (\<open>finditer_complete\<close>), and, for patterns of the kind of a
  social security number (the locale \<open>word_token\<close>), where a match of the substituted text
  must come from.
\<close>

section \<open>Substitution of spans\<close>

fun subst_spans :: "string \<Rightarrow> nat \<Rightarrow> (nat \<times> nat) list \<Rightarrow> string \<Rightarrow> string" where
  "subst_spans ph i [] t = drop i t"
| "subst_spans ph i ((a, b) # ss) t = slice i a t @ ph @ subst_spans ph b ss t"

definition splice :: "string \<Rightarrow> nat \<times> nat \<Rightarrow> string \<Rightarrow> string" where
  "splice ph ab t = take (fst ab) t @ ph @ drop (snd ab) t"

lemma slice_append: "a \<le> b \<Longrightarrow> take a t @ slice a b t = take b t"
  by (simp add: slice_def) (metis le_add_diff_inverse take_add)

lemma slice_drop: "a \<le> b \<Longrightarrow> slice a b t @ drop b t = drop a t"
  by (simp add: slice_def) (metis append_take_drop_id drop_drop le_add_diff_inverse2)

lemma splice_subst:
  "spans_ok i (length t) ss \<Longrightarrow> foldr (splice ph) ss t = take i t @ subst_spans ph i ss t"
proof (induction ss arbitrary: i)
  case Nil
  then show ?case by simp
next
  case (Cons ab ss)
  obtain a b where ab: "ab = (a, b)" by (cases ab)
  with Cons.prems have le: "i \<le> a" "a < b" and ok: "spans_ok b (length t) ss" by auto
  from ok have "b \<le> length t" by (rule spans_ok_le)
  moreover from Cons.IH [OF ok] have "foldr (splice ph) ss t = take b t @ subst_spans ph b ss t" .
  ultimately have "foldr (splice ph) (ab # ss) t = take a t @ ph @ subst_spans ph b ss t"
    using le by (simp add: ab splice_def min_def)
  also have "take a t = take i t @ slice i a t" using le by (simp add: slice_append)
  finally show ?case by (simp add: ab)
qed

lemma spans_ok_filter: "spans_ok lo n ss \<Longrightarrow> spans_ok lo n (filter P ss)"
proof (induction lo n ss rule: spans_ok.induct)
  case (2 lo n a b ss)
  then show ?case by (auto intro: spans_ok_mono)
qed simp

lemma spans_ok_disjoint:
  assumes "spans_ok lo n ss" and "(a, b) \<in> set ss" and "(a', b') \<in> set ss" and "a' < a"
  shows "b' \<le> a"
  using assms
proof (induction lo n ss rule: spans_ok.induct)
  case (2 lo n x y ss)
  then show ?case using spans_ok_bounds [of y n ss] by (fastforce simp del: spans_ok.simps(1))
qed simp

section \<open>finditer misses no match\<close>

lemma finditer_from_complete:
  assumes "0 < min_len r" and "cursor_at t i = (p, s)" and "i \<le> length t"
    and "i \<le> j" and "j \<le> length t" and "(cursor_at t j, cu') \<in> rsem r ic"
  shows "\<exists>(a, b) \<in> set (finditer_from r ic i p s). a \<le> j \<and> j < b"
  using assms(2-) assms(1)
proof (induction r ic i p s rule: finditer_from.induct)
  case (1 r ic i p s)
  note pr = "1.prems"
  show ?case
  proof (cases "match_at r ic p s")
    case None
    from None pr(1,5) have "j \<noteq> i" unfolding match_at_None_iff by (metis)
    with pr(3) have j: "Suc i \<le> j" by simp
    from pr(1) have "s = drop i t" by (simp add: cursor_at_def)
    with j pr(4) have "s \<noteq> []" by simp
    then obtain c v where s: "s = c # v" by (auto simp: neq_Nil_conv)
    from pr(1) s have cu: "cursor_at t (Suc i) = (Some c, v)" by (auto intro: cursor_at_Suc)
    from "1.IH"(1) [OF None s cu _ j pr(4-6)] j pr(4)
    have "\<exists>(a, b) \<in> set (finditer_from r ic (Suc i) (Some c) v). a \<le> j \<and> j < b" by simp
    with None s show ?thesis by (subst finditer_from.simps) simp
  next
    case (Some cu)
    obtain p' s' where cu: "cu = (p', s')" by (cases cu)
    with Some have lt: "length s' < length s" using match_shorter [OF pr(6)] by simp
    from Some cu have "((p, s), (p', s')) \<in> rsem r ic" by (simp add: match_at_SomeD)
    from rsem_moves [OF this] obtain w where w: "moves (cursor_at t i) w (p', s')"
      using pr(1) by auto
    note at = cursor_at_moves [OF w pr(2)]
    let ?e = "i + length w"
    from w pr(1) have len: "length s - length s' = length w" by (simp add: moves_def)
    have eq: "finditer_from r ic i p s = (i, ?e) # finditer_from r ic ?e p' s'"
      using Some cu lt len by (subst finditer_from.simps) (simp add: Let_def)
    show ?thesis
    proof (cases "j < ?e")
      case True
      with pr(3) show ?thesis by (simp add: eq)
    next
      case False
      then have "\<exists>(a, b) \<in> set (finditer_from r ic ?e p' s'). a \<le> j \<and> j < b"
        using "1.IH"(2) [OF Some cu [symmetric] lt refl] at(1,2) pr(4-6) len by simp
      then show ?thesis by (simp add: eq)
    qed
  qed
qed

lemma finditer_complete:
  assumes "0 < min_len r" and "j \<le> length t" and "(cursor_at t j, cu') \<in> rsem r ic"
  shows "\<exists>(a, b) \<in> set (finditer r ic t). a \<le> j \<and> j < b"
  unfolding finditer_def
  by (rule finditer_from_complete [OF assms(1) _ _ _ assms(2,3)]) simp_all

section \<open>re.sub\<close>

text \<open>Substituting what \<open>finditer\<close> finds is \<open>re.sub\<close>.\<close>

lemma subst_spans_shift:
  assumes "spans_ok (Suc i) (length t) ss"
  shows "subst_spans ph i ss t = t ! i # subst_spans ph (Suc i) ss t"
proof (cases ss)
  case Nil
  with assms show ?thesis by (simp add: Cons_nth_drop_Suc)
next
  case (Cons ab ss')
  obtain a b where "ab = (a, b)" by (cases ab)
  with assms Cons have "Suc i \<le> a" and "i < length t"
    using spans_ok_le [of "Suc i" "length t" ss] by auto
  then have "slice i a t = t ! i # slice (Suc i) a t"
    by (simp add: slice_def Cons_nth_drop_Suc [symmetric] take_Cons' Suc_diff_le)
  with Cons \<open>ab = (a, b)\<close> show ?thesis by simp
qed

lemma subst_finditer_from:
  assumes "cursor_at t i = (p, s)" and "i \<le> length t"
  shows "subst_spans ph i (finditer_from r ic i p s) t = re_sub_from r ic ph p s"
  using assms
proof (induction r ic i p s rule: finditer_from.induct)
  case (1 r ic i p s)
  note pr = "1.prems"
  have s: "s = drop i t" using pr(1) by (simp add: cursor_at_def)
  have step: "subst_spans ph i (finditer_from r ic (Suc i) (Some c) v) t = c # re_sub_from r ic ph (Some c) v"
    if "s = c # v" and "subst_spans ph (Suc i) (finditer_from r ic (Suc i) (Some c) v) t = re_sub_from r ic ph (Some c) v"
    for c v
  proof -
    from that(1) s have "i < length t" and "t ! i = c"
      by (auto simp: nth_via_drop dest: sym) (metis drop_all linorder_not_less list.distinct(1))
    moreover have "cursor_at t (Suc i) = (Some c, v)" using pr(1) that(1) by (auto intro: cursor_at_Suc)
    ultimately have "spans_ok (Suc i) (length t) (finditer_from r ic (Suc i) (Some c) v)"
      using finditer_from_spans [of t "Suc i" "Some c" v r ic] by simp
    from subst_spans_shift [OF this] that(2) \<open>t ! i = c\<close> show ?thesis by simp
  qed
  have nextcu: "cursor_at t (Suc i) = (Some c, v) \<and> Suc i \<le> length t" if "s = c # v" for c v
  proof -
    from that s have "i < length t" by (metis drop_all linorder_not_less list.distinct(1))
    then show ?thesis using pr(1) that by (auto intro: cursor_at_Suc)
  qed
  show ?case
  proof (cases "match_at r ic p s")
    case None
    show ?thesis
    proof (cases s)
      case Nil
      with None s show ?thesis by (subst finditer_from.simps, subst re_sub_from.simps) simp
    next
      case (Cons c v)
      with None step [OF Cons "1.IH"(1) [OF None Cons]] nextcu [OF Cons] show ?thesis
        by (subst finditer_from.simps, subst re_sub_from.simps) simp
    qed
  next
    case (Some cu)
    obtain p' s' where cu: "cu = (p', s')" by (cases cu)
    show ?thesis
    proof (cases "length s' < length s")
      case False
      show ?thesis
      proof (cases s)
        case Nil
        with Some cu False s show ?thesis by (subst finditer_from.simps, subst re_sub_from.simps) simp
      next
        case (Cons c v)
        with False Some cu step [OF Cons "1.IH"(3) [OF Some cu [symmetric] False Cons]] nextcu [OF Cons]
        show ?thesis by (subst finditer_from.simps, subst re_sub_from.simps) simp
      qed
    next
      case True
      from Some cu have "((p, s), (p', s')) \<in> rsem r ic" by (simp add: match_at_SomeD)
      from rsem_moves [OF this] obtain w where w: "moves (cursor_at t i) w (p', s')"
        using pr(1) by auto
      note at = cursor_at_moves [OF w pr(2)]
      from w pr(1) have len: "length s - length s' = length w" by (simp add: moves_def)
      have "subst_spans ph (i + length w) (finditer_from r ic (i + length w) p' s') t = re_sub_from r ic ph p' s'"
        using "1.IH"(2) [OF Some cu [symmetric] True refl] at(1,2) len by simp
      with Some cu True len show ?thesis
        by (subst finditer_from.simps, subst re_sub_from.simps) (simp add: Let_def slice_def)
    qed
  qed
qed

lemma subst_finditer: "subst_spans ph 0 (finditer r ic t) t = re_sub r ic ph t"
  by (simp add: finditer_def re_sub_def subst_finditer_from)

section \<open>Repetition of a class\<close>

text \<open>What the repetition of a character class matches.\<close>

lemma rsem_class_iff:
  "(cu, cu') \<in> rsem (RSet neg cs) ic \<longleftrightarrow>
     (\<exists>c. moves cu [c] cu' \<and> in_class ic neg cs c)"
  by (cases cu; cases cu') (auto simp: moves_def)

lemma moves_shorter: "moves cu w cu' \<Longrightarrow> w \<noteq> [] \<Longrightarrow> (cu, cu') \<in> shorter"
  by (auto simp: moves_def shorter_def)

lemma class_shorter: "rsem (RSet neg cs) ic \<inter> shorter = rsem (RSet neg cs) ic"
  by (auto simp: shorter_def)

lemma class_pow_iff:
  "(cu, cu') \<in> rsem (RSet neg cs) ic ^^ n \<longleftrightarrow>
     (\<exists>w. moves cu w cu' \<and> length w = n \<and> list_all (in_class ic neg cs) w)"
proof (induction n arbitrary: cu')
  case 0
  show ?case by (cases cu; cases cu') (auto simp: moves_def)
next
  case (Suc n)
  show ?case
  proof
    assume "(cu, cu') \<in> rsem (RSet neg cs) ic ^^ Suc n"
    then obtain d where "(cu, d) \<in> rsem (RSet neg cs) ic ^^ n" "(d, cu') \<in> rsem (RSet neg cs) ic"
      by (auto simp del: rsem.simps)
    then obtain w c where "moves cu w d" "length w = n" "list_all (in_class ic neg cs) w"
      "moves d [c] cu'" "in_class ic neg cs c" by (auto simp: Suc.IH rsem_class_iff simp del: rsem.simps)
    then show "\<exists>w. moves cu w cu' \<and> length w = Suc n \<and> list_all (in_class ic neg cs) w"
      by (intro exI [of _ "w @ [c]"]) (auto intro: moves_trans)
  next
    assume "\<exists>w. moves cu w cu' \<and> length w = Suc n \<and> list_all (in_class ic neg cs) w"
    then obtain w where w: "moves cu w cu'" "length w = Suc n" "list_all (in_class ic neg cs) w"
      by blast
    then obtain v c where v: "w = v @ [c]" by (cases w rule: rev_cases) auto
    define d where "d = ((if v = [] then fst cu else Some (last v)), c # snd cu')"
    from w(1) v have "moves cu v d" and "moves d [c] cu'" by (auto simp: moves_def d_def)
    with w v have "(cu, d) \<in> rsem (RSet neg cs) ic ^^ n" and "(d, cu') \<in> rsem (RSet neg cs) ic"
      by (auto simp: Suc.IH rsem_class_iff simp del: rsem.simps)
    then show "(cu, cu') \<in> rsem (RSet neg cs) ic ^^ Suc n" by auto
  qed
qed

lemma rsem_class_rep_iff:
  "(cu, cu') \<in> rsem (RRep (RSet neg cs) lo hi g) ic \<longleftrightarrow>
     (\<exists>w. moves cu w cu' \<and> lo \<le> length w \<and> (\<forall>h. hi = Some h \<longrightarrow> length w \<le> h)
        \<and> list_all (in_class ic neg cs) w)"
  unfolding rsem.simps(6) class_shorter by (auto simp: class_pow_iff simp del: rsem.simps)

lemma rsem_times_iff:
  "(cu, cu') \<in> rsem (RTimes (RSet neg cs) n) ic \<longleftrightarrow>
     (\<exists>w. moves cu w cu' \<and> length w = n \<and> list_all (in_class ic neg cs) w)"
  unfolding rsem_class_rep_iff by auto

lemma moves_append_iff: "moves cu (v @ w) cu' \<longleftrightarrow> (\<exists>c. moves cu v c \<and> moves c w cu')"
proof
  assume "moves cu (v @ w) cu'"
  then have "moves cu v ((if v = [] then fst cu else Some (last v)), w @ snd cu')
      \<and> moves ((if v = [] then fst cu else Some (last v)), w @ snd cu') w cu'"
    by (auto simp: moves_def)
  then show "\<exists>c. moves cu v c \<and> moves c w cu'" by blast
qed (auto intro: moves_trans)

lemma moves_exists: "snd cu = w @ v \<Longrightarrow> \<exists>cu'. moves cu w cu' \<and> snd cu' = v"
  by (intro exI [of _ "((if w = [] then fst cu else Some (last w)), v)"]) (simp add: moves_def)

lemma rsem_RSeqI: "(a, b) \<in> rsem r ic \<Longrightarrow> (b, c) \<in> rsem r' ic \<Longrightarrow> (a, c) \<in> rsem (RSeq r r') ic"
  by auto

lemma word_after_snd: "word_after cu = word_after (None, snd cu)"
  by (simp add: word_after_def)

text \<open>A greedy repetition at the end of a pattern stops only before a character out of its
  class.\<close>

lemma rrep_0_not_None: "rrep m g n 0 Some cu \<noteq> None"
  by (cases n) (auto split: option.splits)

lemma rrep_class_maximal:
  assumes "rrep (rmatch (RSet neg cs) ic) True n lo Some cu = Some cu'"
    and "lo + length (snd cu) \<le> n + lo" and "snd cu' = c # v"
  shows "\<not> in_class ic neg cs c"
  using assms
proof (induction n arbitrary: lo cu)
  case 0
  then show ?case by (auto split: if_splits)
next
  case (Suc n)
  show ?case
  proof (cases "snd cu")
    case Nil
    with Suc.prems show ?thesis by (auto split: if_splits)
  next
    case (Cons d w)
    with Suc show ?thesis by (auto split: if_splits option.splits simp: rrep_0_not_None)
  qed
qed

section \<open>Guarded patterns\<close>

text \<open>A pattern that begins with the lookbehind, and one that ends with the lookahead.\<close>

fun starts_guarded :: "rx \<Rightarrow> bool" where
  "starts_guarded RNotBehindWord = True"
| "starts_guarded (RSeq a b) = starts_guarded a"
| "starts_guarded _ = False"

fun ends_guarded :: "rx \<Rightarrow> bool" where
  "ends_guarded RNotAheadWord = True"
| "ends_guarded (RSeq a b) = ends_guarded b"
| "ends_guarded _ = False"

lemma starts_guardedD: "starts_guarded r \<Longrightarrow> (cu, cu') \<in> rsem r ic \<Longrightarrow> \<not> word_before cu"
  by (induction r arbitrary: cu cu') auto

lemma ends_guardedD: "ends_guarded r \<Longrightarrow> (cu, cu') \<in> rsem r ic \<Longrightarrow> \<not> word_after cu'"
  by (induction r arbitrary: cu cu') auto

lemma word_after_cursor_at: "i < length t \<Longrightarrow> word_after (cursor_at t i) = is_word (t ! i)"
  by (simp add: word_after_def cursor_at_def Cons_nth_drop_Suc [symmetric])

lemma word_before_cursor_at: "0 < i \<Longrightarrow> word_before (cursor_at t i) = is_word (t ! (i - 1))"
  by (simp add: word_before_def cursor_at_def)

text \<open>A pattern that cannot match without a character of one of some classes, and a text
  without such characters.\<close>

primrec needs :: "cset list \<Rightarrow> rx \<Rightarrow> bool" where
  "needs A (RSet neg cs) = (\<not> neg \<and> set cs \<subseteq> set A)"
| "needs A RAny = False"
| "needs A REmpty = False"
| "needs A (RSeq a b) = (needs A a \<or> needs A b)"
| "needs A (RAlt a b) = (needs A a \<and> needs A b)"
| "needs A (RRep a lo hi g) = (0 < lo \<and> needs A a)"
| "needs A RNotBehindWord = False"
| "needs A RNotAheadWord = False"
| "needs A RWordB = False"
| "needs A REnd = False"

definition lacks :: "bool \<Rightarrow> cset list \<Rightarrow> string \<Rightarrow> bool" where
  "lacks ic A s = list_all (\<lambda>c. \<not> in_class ic False A c) s"

lemma lacks_rsem:
  "needs A r \<Longrightarrow> (cu, cu') \<in> rsem r ic \<Longrightarrow> \<not> lacks ic A (snd cu)"
proof (induction r arbitrary: cu cu')
  case (RSet neg cs)
  then obtain p c w where cu: "cu = (p, c # w)" and c: "in_class ic False cs c" by auto
  from RSet.prems(1) c have "in_class ic False A c" by (auto simp: in_class_def list_ex_iff)
  with cu show ?case by (simp add: lacks_def)
next
  case (RSeq a b)
  then obtain d where d: "(cu, d) \<in> rsem a ic" "(d, cu') \<in> rsem b ic" by auto
  from RSeq.prems(1) consider "needs A a" | "needs A b" by auto
  then show ?case
  proof cases
    case 2
    from RSeq.IH(2) [OF 2 d(2)] rsem_moves [OF d(1)] show ?thesis by (auto simp: moves_def lacks_def)
  qed (use RSeq.IH(1) d(1) in blast)
next
  case (RRep a lo hi g)
  then obtain n where "lo \<le> n" and n: "(cu, cu') \<in> (rsem a ic \<inter> shorter) ^^ n" by auto
  with RRep.prems(1) have "0 < n" by auto
  then obtain k where "n = Suc k" by (cases n) auto
  with n obtain d where "(cu, d) \<in> rsem a ic" by (blast dest: relpow_Suc_D2)
  with RRep show ?case by auto
qed auto

lemma finditer_lacks:
  assumes "needs A r" and "lacks ic A t"
  shows "finditer r ic t = []"
proof (rule ccontr)
  assume "finditer r ic t \<noteq> []"
  then obtain a b where "(a, b) \<in> set (finditer r ic t)" by (cases "finditer r ic t") auto
  from lacks_rsem [OF assms(1) finditer_match [OF this]] assms(2) show False
    by (auto simp: cursor_at_def lacks_def list_all_iff dest: in_set_dropD)
qed

text \<open>The characters a match consumes, for a property every character class of the pattern has.\<close>

primrec chars_in :: "(char \<Rightarrow> bool) \<Rightarrow> bool \<Rightarrow> rx \<Rightarrow> bool" where
  "chars_in P ic (RSet neg cs) = (\<forall>c. in_class ic neg cs c \<longrightarrow> P c)"
| "chars_in P ic RAny = (\<forall>c. P c)"
| "chars_in P ic REmpty = True"
| "chars_in P ic (RSeq a b) = (chars_in P ic a \<and> chars_in P ic b)"
| "chars_in P ic (RAlt a b) = (chars_in P ic a \<and> chars_in P ic b)"
| "chars_in P ic (RRep a lo hi g) = chars_in P ic a"
| "chars_in P ic RNotBehindWord = True"
| "chars_in P ic RNotAheadWord = True"
| "chars_in P ic RWordB = True"
| "chars_in P ic REnd = True"

lemma moves_all_pow:
  assumes "\<And>cu cu'. (cu, cu') \<in> R \<Longrightarrow> \<exists>w. moves cu w cu' \<and> list_all P w"
  shows "(cu, cu') \<in> R ^^ n \<Longrightarrow> \<exists>w. moves cu w cu' \<and> list_all P w"
proof (induction n arbitrary: cu')
  case 0
  then show ?case by (auto intro: exI [of _ "[]"])
next
  case (Suc n)
  then obtain c where c: "(cu, c) \<in> R ^^ n" "(c, cu') \<in> R" by auto
  from Suc.IH [OF c(1)] obtain w where w: "moves cu w c" "list_all P w" by blast
  from assms [OF c(2)] obtain v where v: "moves c v cu'" "list_all P v" by blast
  from w v have "moves cu (w @ v) cu'" and "list_all P (w @ v)" by (auto intro: moves_trans)
  then show ?case by blast
qed

lemma rsem_chars:
  "chars_in P ic r \<Longrightarrow> (cu, cu') \<in> rsem r ic \<Longrightarrow> \<exists>w. moves cu w cu' \<and> list_all P w"
proof (induction r arbitrary: cu cu')
  case (RSet neg cs)
  then show ?case unfolding rsem_class_iff by (auto intro: exI [of _ "[_]"])
next
  case RAny
  then obtain p c w where "cu = (p, c # w)" and "cu' = (Some c, w)" by auto
  with RAny show ?case by (intro exI [of _ "[c]"]) (simp add: moves_def)
next
  case (RSeq a b)
  from RSeq.prems obtain c where c: "(cu, c) \<in> rsem a ic" "(c, cu') \<in> rsem b ic" by auto
  from RSeq.IH(1) [OF _ c(1)] RSeq.prems(1) obtain w where w: "moves cu w c" "list_all P w" by auto
  from RSeq.IH(2) [OF _ c(2)] RSeq.prems(1) obtain v where v: "moves c v cu'" "list_all P v" by auto
  from w v have "moves cu (w @ v) cu'" and "list_all P (w @ v)" by (auto intro: moves_trans)
  then show ?case by blast
next
  case (RRep a lo hi g)
  then obtain n where n: "(cu, cu') \<in> (rsem a ic \<inter> shorter) ^^ n" by auto
  from RRep.prems(1) have "chars_in P ic a" by simp
  with RRep.IH show ?case by (intro moves_all_pow [OF _ n]) blast
qed (auto intro: exI [of _ "[]"])

lemma finditer_slice_chars:
  assumes "chars_in P ic r" and "(a, b) \<in> set (finditer r ic t)"
  shows "list_all P (slice a b t)"
proof -
  from rsem_chars [OF assms(1) finditer_match [OF assms(2)]]
  obtain w where w: "moves (cursor_at t a) w (cursor_at t b)" "list_all P w" by blast
  from spans_ok_bounds [OF finditer_spans_ok assms(2)] have "a < b" "b \<le> length t" by auto
  with cursor_at_moves [OF w(1)] have "w = slice a (a + length w) t"
    and "snd (cursor_at t b) = snd (cursor_at t (a + length w))" and "a + length w \<le> length t" by auto
  moreover from this(2,3) \<open>b \<le> length t\<close> have "b = a + length w"
    by (auto simp: cursor_at_def dest!: arg_cong [of "drop b t" _ length])
  ultimately show ?thesis using w(2) by simp
qed

section \<open>Word tokens\<close>

text \<open>
  A word token: a text with a shape \<open>P\<close>, not in contact with a further word character, that
  begins and ends with a word character and holds no bracket.
\<close>

definition token_at :: "(string \<Rightarrow> bool) \<Rightarrow> cursor \<Rightarrow> bool" where
  "token_at P cu \<longleftrightarrow> \<not> word_before cu \<and>
     (\<exists>w v. snd cu = w @ v \<and> P w \<and> \<not> word_after (None, v))"

text \<open>Some position of the text \<open>s\<close>, entered with the character \<open>q\<close> before it, has a token.\<close>

definition has_token :: "(string \<Rightarrow> bool) \<Rightarrow> char option \<Rightarrow> string \<Rightarrow> bool" where
  "has_token P q s \<longleftrightarrow> (\<exists>u x. s = u @ x \<and> token_at P ((if u = [] then q else Some (last u)), x))"

definition brackets :: "char set" where
  "brackets = {CHR ''['', CHR '']''}"

lemma brackets_not_word: "c \<in> brackets \<Longrightarrow> \<not> is_word c"
  by (auto simp: brackets_def is_word_def cp_def Let_def)

text \<open>A span list as a redaction rule leaves it: no span ends before a word character, and one
  begins after a word character only if the span before it ends there.\<close>

fun gaps_ok :: "string \<Rightarrow> nat \<Rightarrow> (nat \<times> nat) list \<Rightarrow> bool" where
  "gaps_ok t i [] = True"
| "gaps_ok t i ((a, b) # ss) =
     ((a \<le> i \<or> \<not> is_word (t ! (a - 1))) \<and> (b < length t \<longrightarrow> \<not> is_word (t ! b)) \<and> gaps_ok t b ss)"

lemma gaps_okI:
  assumes "\<And>a b. (a, b) \<in> set ss \<Longrightarrow> \<not> word_after (cursor_at t b)"
    and "\<And>a b. (a, b) \<in> set ss \<Longrightarrow> \<not> word_before (cursor_at t a)"
  shows "gaps_ok t i ss"
  using assms
proof (induction ss arbitrary: i)
  case (Cons ab ss)
  obtain a b where ab: "ab = (a, b)" by (cases ab)
  with Cons.prems have "\<not> word_after (cursor_at t b)" "\<not> word_before (cursor_at t a)" by auto
  moreover have "gaps_ok t b ss" using Cons.prems by (intro Cons.IH) (meson list.set_intros(2))+
  ultimately show ?case
    using word_after_cursor_at [of b t] word_before_cursor_at [of a t] by (cases "a = 0") (auto simp: ab)
qed simp

locale word_token =
  fixes P :: "string \<Rightarrow> bool"
  assumes shape: "P w \<Longrightarrow> w \<noteq> [] \<and> is_word (hd w) \<and> is_word (last w)"
    and no_bracket: "P w \<Longrightarrow> set w \<inter> brackets = {}"
begin

lemma has_token_Nil: "\<not> has_token P q []"
  using shape by (auto simp: has_token_def token_at_def)

lemma has_tokenE:
  assumes "has_token P q s"
  obtains u w v where "s = u @ w @ v" and "P w"
    and "\<not> word_before ((if u = [] then q else Some (last u)), [])"
    and "\<not> word_after (None, v)"
proof -
  from assms obtain u x where "s = u @ x" and "token_at P ((if u = [] then q else Some (last u)), x)"
    unfolding has_token_def by blast
  then obtain w v where "s = u @ w @ v" "P w" "\<not> word_after (None, v)"
    and "\<not> word_before ((if u = [] then q else Some (last u)), x)" by (auto simp: token_at_def)
  then show ?thesis using that [of u w v] by (simp add: word_before_def)
qed

lemma has_tokenI:
  assumes "s = u @ w @ v" and "P w" and "\<not> word_before ((if u = [] then q else Some (last u)), [])"
    and "\<not> word_after (None, v)"
  shows "has_token P q s"
proof -
  from assms(2-4) have "token_at P ((if u = [] then q else Some (last u)), w @ v)"
    by (auto simp: token_at_def word_before_def)
  with assms(1) show ?thesis unfolding has_token_def by blast
qed

text \<open>No token reaches over a bracket.\<close>

lemma has_token_split:
  assumes "has_token P q (x @ c # y)" and c: "c \<in> brackets"
  shows "has_token P q x \<or> has_token P (Some c) y"
proof -
  from assms(1) obtain u w v where e: "x @ c # y = u @ w @ v" and P: "P w"
    and b: "\<not> word_before ((if u = [] then q else Some (last u)), [])"
    and a: "\<not> word_after (None, v)" by (rule has_tokenE)
  from no_bracket [OF P] c have cw: "c \<notin> set w" by auto
  from e consider z where "u = x @ z" "c # y = z @ w @ v" | z where "x = u @ z" "z @ c # y = w @ v"
    by (auto simp: append_eq_append_conv2)
  then show ?thesis
  proof cases
    case 1
    show ?thesis
    proof (cases z)
      case Nil
      with 1 shape [OF P] cw show ?thesis by (cases w) auto
    next
      case (Cons d z')
      with 1 have "y = z' @ w @ v" and "d = c" by auto
      moreover from b 1 Cons \<open>d = c\<close> have "\<not> word_before ((if z' = [] then Some c else Some (last z')), [])"
        by auto
      ultimately have "has_token P (Some c) y" using P a by (intro has_tokenI)
      then show ?thesis ..
    qed
  next
    case 2
    from 2(2) consider z' where "z = w @ z'" "v = z' @ c # y" | z' where "w = z @ z'" "c # y = z' @ v"
      by (auto simp: append_eq_append_conv2)
    then show ?thesis
    proof cases
      case 1
      with a have "\<not> word_after (None, z')" by (cases z') (auto simp: word_after_def)
      with 1 2 P b have "has_token P q x" by (intro has_tokenI [of _ u w z']) auto
      then show ?thesis ..
    next
      case 2
      with cw have "z' = []" by (cases z') auto
      with 2 \<open>x = u @ z\<close> P b have "has_token P q x"
        by (intro has_tokenI [of _ u w "[]"]) (auto simp: word_after_def)
      then show ?thesis ..
    qed
  qed
qed

lemma has_token_placeholder:
  assumes "has_token P q (x @ (''['' @ m @ '']'') @ y)" and "\<And>w. P w \<Longrightarrow> \<not> set w \<subseteq> set m"
  shows "has_token P q x \<or> has_token P (Some (CHR '']'')) y"
proof -
  from assms(1) have "has_token P q (x @ CHR ''['' # (m @ CHR '']'' # y))" by simp
  then consider "has_token P q x" | "has_token P (Some (CHR ''['')) (m @ CHR '']'' # y)"
    using has_token_split [of q x "CHR ''[''"] by (auto simp: brackets_def)
  then show ?thesis
  proof cases
    case 2
    then consider "has_token P (Some (CHR ''['')) m" | "has_token P (Some (CHR '']'')) y"
      using has_token_split [of _ m "CHR '']''"] by (auto simp: brackets_def)
    then show ?thesis
    proof cases
      case 1
      then obtain u w v where "m = u @ w @ v" and "P w" by (rule has_tokenE)
      then have "set w \<subseteq> set m" by auto
      with \<open>P w\<close> assms(2) show ?thesis by blast
    qed simp
  qed simp
qed

text \<open>A token of a stretch between two spans is one of the text.\<close>

lemma has_token_gap:
  assumes "has_token P q (slice i a t)" and "i \<le> a" and "a \<le> length t"
    and q: "q = fst (cursor_at t i) \<or> (i < length t \<longrightarrow> \<not> is_word (t ! i))"
    and e: "a \<le> i \<or> a = length t \<or> \<not> is_word (t ! (a - 1))"
  shows "\<exists>j. i \<le> j \<and> j < a \<and> token_at P (cursor_at t j)"
proof -
  from assms(1) obtain u w v where uw: "slice i a t = u @ w @ v" and P: "P w"
    and b: "\<not> word_before ((if u = [] then q else Some (last u)), [])"
    and af: "\<not> word_after (None, v)" by (rule has_tokenE)
  let ?j = "i + length u"
  note w = shape [OF P]
  have len: "length (slice i a t) = a - i" using assms(2,3) by (simp add: slice_def)
  with uw w have j: "?j < a" by (cases w) auto
  from assms(2) have dr: "drop i t = u @ w @ v @ drop a t" using uw by (simp add: slice_drop [symmetric])
  then have dj: "drop ?j t = w @ v @ drop a t"
    by (metis add.commute append_eq_conv_conj drop_drop)
  have at: "cursor_at t ?j = ((if u = [] then fst (cursor_at t i) else Some (last u)), drop ?j t)"
    using cursor_at_moves(1) [of t i u "((if u = [] then fst (cursor_at t i) else Some (last u)), w @ v @ drop a t)"]
      dr dj assms by (auto simp: moves_def cursor_at_def)
  have "\<not> word_before (cursor_at t ?j)"
  proof (cases "u = []")
    case False
    with b at show ?thesis by (simp add: word_before_def)
  next
    case True
    then have "t ! i = hd w" using dj w j assms(3)
      by (metis add.right_neutral append_is_Nil_conv hd_append2 hd_drop_conv_nth le_trans length_0_conv
          linorder_not_le not_less_iff_gr_or_eq order_less_le_trans)
    with w q True j assms(3) have "q = fst (cursor_at t i)" by auto
    with True b at show ?thesis by (simp add: word_before_def)
  qed
  moreover have "\<not> word_after (None, v @ drop a t)"
  proof (cases "v = []")
    case False
    with af show ?thesis by (cases v) (auto simp: word_after_def)
  next
    case True
    have "last (take a t) = last w"
      using uw True w assms(2) by (metis append_Nil2 append_is_Nil_conv last_appendR slice_append)
    moreover from j have "last (take a t) = t ! (a - 1)" using assms(3)
      by (subst last_conv_nth) (auto simp: min_def)
    ultimately have "a = length t" using e w j by auto
    with True show ?thesis by (simp add: word_after_def)
  qed
  ultimately have "token_at P (cursor_at t ?j)" unfolding token_at_def using P dj at by auto
  with j show ?thesis by (intro exI [of _ ?j]) simp
qed

text \<open>Where the tokens of the substituted text come from: positions of the text outside every
  span.\<close>

lemma has_token_subst:
  assumes "spans_ok i (length t) ss" and "gaps_ok t i ss"
    and "has_token P q (subst_spans (''['' @ m @ '']'') i ss t)" and "\<And>w. P w \<Longrightarrow> \<not> set w \<subseteq> set m"
    and "q = fst (cursor_at t i) \<or> (i < length t \<longrightarrow> \<not> is_word (t ! i))"
  shows "\<exists>j. i \<le> j \<and> j < length t \<and> token_at P (cursor_at t j) \<and> (\<forall>(a, b) \<in> set ss. \<not> (a \<le> j \<and> j < b))"
  using assms(1-3,5)
proof (induction ss arbitrary: i q)
  case Nil
  then have "i \<le> length t" by simp
  with Nil has_token_gap [of q i "length t" t] show ?case by (auto simp: slice_def)
next
  case (Cons ab ss)
  obtain a b where ab: "ab = (a, b)" by (cases ab)
  with Cons.prems(1) have le: "i \<le> a" "a < b" and ok: "spans_ok b (length t) ss" by auto
  from ok have bt: "b \<le> length t" by (rule spans_ok_le)
  from Cons.prems(2) ab have g: "a \<le> i \<or> \<not> is_word (t ! (a - 1))" "b < length t \<longrightarrow> \<not> is_word (t ! b)"
    and gs: "gaps_ok t b ss" by auto
  from Cons.prems(3) ab
  have "has_token P q (slice i a t @ (''['' @ m @ '']'') @ subst_spans (''['' @ m @ '']'') b ss t)" by simp
  from has_token_placeholder [OF this assms(4)]
  show ?case
  proof
    assume "has_token P q (slice i a t)"
    from has_token_gap [OF this le(1) _ Cons.prems(4)] g(1) le bt
    obtain j where j: "i \<le> j" "j < a" "token_at P (cursor_at t j)" by auto
    have "\<not> (x \<le> j \<and> j < y)" if "(x, y) \<in> set ss" for x y
      using spans_ok_bounds [OF ok that] j le by auto
    with j le bt ab show ?thesis by (intro exI [of _ j]) auto
  next
    assume "has_token P (Some (CHR '']'')) (subst_spans (''['' @ m @ '']'') b ss t)"
    from Cons.IH [OF ok gs this disjI2 [OF g(2)]]
    obtain j where j: "b \<le> j" "j < length t" "token_at P (cursor_at t j)"
      "\<forall>(a, b) \<in> set ss. \<not> (a \<le> j \<and> j < b)" by auto
    with le ab show ?thesis by (intro exI [of _ j]) auto
  qed
qed

end

end
