(* ===== verification/Output_Guard.thy ===== *)
theory Output_Guard
  imports Redaction
begin

text \<open>
  The output guard (src/fastapi\_backend/app/services/output\_guard\_service.py): the nine PII
  rules in their order, \<open>redact\<close> with its loop over the matches from last to first, and the
  windowed \<open>redact_stream_chunk\<close>. The lemmas show that splicing from the last match
  backwards is the left-to-right substitution, that redaction never raises, what its counters
  mean, that no social security number survives its rule, and what the window keeps.
\<close>

section \<open>Patterns and rules\<close>

abbreviation phone_sep :: rx where
  "phone_sep \<equiv> RSet False [CChar (CHR ''-''), CChar (CHR ''.''), CSpace]"

definition email_pattern :: rx where
  "email_pattern = rseq
     [RPlus (RSet False [CWord, CChar (CHR ''.''), CChar (CHR ''-''), CChar (CHR ''+'')]),
      RC (CHR ''@''), RPlus (RSet False [CWord, CChar (CHR ''.''), CChar (CHR ''-'')]),
      RC (CHR ''.''), RRep RWord 2 None True]"

definition phone_us_pattern :: rx where
  "phone_us_pattern = rseq
     [RNotBehindWord,
      ROpt (rseq [ROpt (RC (CHR ''+'')), RC (CHR ''1''), ROpt phone_sep]),
      RAlt (rseq [RC (CHR ''(''), RTimes RDigit 3, RC (CHR '')'')]) (RTimes RDigit 3),
      ROpt phone_sep, RTimes RDigit 3, ROpt phone_sep, RTimes RDigit 4, RNotAheadWord]"

definition phone_intl_pattern :: rx where
  "phone_intl_pattern = rseq
     [RNotBehindWord, RC (CHR ''+''), RSet False [CRange (CHR ''1'') (CHR ''9'')],
      RBetween RDigit 6 14, RNotAheadWord]"

definition ssn_pattern :: rx where
  "ssn_pattern = rseq
     [RNotBehindWord, RTimes RDigit 3, RC (CHR ''-''), RTimes RDigit 2, RC (CHR ''-''),
      RTimes RDigit 4, RNotAheadWord]"

definition cc_pattern :: rx where
  "cc_pattern = rseq
     [RNotBehindWord,
      RBetween (RSeq RDigit (RRep (RSet False [CChar (CHR '' ''), CChar (CHR ''-'')]) 0 None False)) 13 19,
      RNotAheadWord]"

text \<open>Compiled with \<open>re.I\<close>.\<close>

definition iban_pattern :: rx where
  "iban_pattern = rseq
     [RNotBehindWord, RTimes (RSet False [CRange (CHR ''A'') (CHR ''Z'')]) 2, RTimes RDigit 2,
      RBetween (RSet False [CRange (CHR ''A'') (CHR ''Z''), CRange (CHR ''0'') (CHR ''9'')]) 11 30,
      RNotAheadWord]"

definition po_box_pattern :: rx where
  "po_box_pattern = rseq
     [RNotBehindWord, RC (CHR ''P''), ROpt (RC (CHR ''.'')), RStar RSpace,
      RC (CHR ''O''), ROpt (RC (CHR ''.'')), RStar RSpace, rlit ''Box'', RStar RSpace,
      RBetween RDigit 1 6, RNotAheadWord]"

definition lit_dot :: "string \<Rightarrow> rx" where
  "lit_dot s = RSeq (rlit s) (ROpt (RC (CHR ''.'')))"

definition street_pattern :: rx where
  "street_pattern = rseq
     [RNotBehindWord, RBetween RDigit 1 6, RPlus RSpace,
      RBetween (RSeq (RPlus (RSet False [CRange (CHR ''A'') (CHR ''Z''), CRange (CHR ''a'') (CHR ''z''),
          CRange (CHR ''0'') (CHR ''9''), CChar (CHR ''.''), CChar (CHR ''-'')])) (RPlus RSpace)) 0 4,
      ralt [rlit ''Street'', lit_dot ''St'', rlit ''Avenue'', lit_dot ''Ave'', rlit ''Road'',
        lit_dot ''Rd'', rlit ''Boulevard'', lit_dot ''Blvd'', rlit ''Lane'', lit_dot ''Ln'',
        rlit ''Drive'', lit_dot ''Dr'', rlit ''Court'', lit_dot ''Ct'', rlit ''Way'',
        rlit ''Terrace'', lit_dot ''Ter'', rlit ''Circle'', lit_dot ''Cir'', rlit ''Place'',
        lit_dot ''Pl''],
      RNotAheadWord]"

definition formal_name_pattern :: rx where
  "formal_name_pattern = rseq
     [RNotBehindWord,
      ralt [rlit ''Mr.'', rlit ''Mrs.'', rlit ''Ms.'', rlit ''Dr.'', rlit ''Prof.''],
      RPlus RSpace, RSet False [CRange (CHR ''A'') (CHR ''Z'')],
      RPlus (RSet False [CRange (CHR ''a'') (CHR ''z'')]),
      RBetween (rseq [RPlus RSpace, RSet False [CRange (CHR ''A'') (CHR ''Z'')],
        RPlus (RSet False [CRange (CHR ''a'') (CHR ''z'')])]) 1 2,
      RNotAheadWord]"

text \<open>\<open>int(d)\<close> raises on a character that is no decimal digit.\<close>

fun luhn_sum :: "nat \<Rightarrow> nat list \<Rightarrow> nat" where
  "luhn_sum i [] = 0"
| "luhn_sum i (d # ds) =
     (let d' = (if i mod 2 = 1 then (if 2 * d > 9 then 2 * d - 9 else 2 * d) else d)
      in d' + luhn_sum (Suc i) ds)"

definition luhn_check :: "string \<Rightarrow> bool py" where
  "luhn_check s =
     (if list_all is_decimal s then Inr (luhn_sum 0 (rev (map digit_val s)) mod 10 = 0)
      else Inl ValueError)"

definition cc_validator :: "string \<Rightarrow> bool py" where
  "cc_validator m = luhn_check (re_sub (RSet True [CDigit]) False [] m)"

record pii_rule =
  pattern :: rx
  ignorecase :: bool
  type_label :: string
  validator_fn :: "(string \<Rightarrow> bool py) option"

definition output_pii_rules :: "pii_rule list" where
  "output_pii_rules =
     [\<lparr>pattern = ssn_pattern, ignorecase = False, type_label = ''SSN'', validator_fn = None\<rparr>,
      \<lparr>pattern = email_pattern, ignorecase = False, type_label = ''EMAIL'', validator_fn = None\<rparr>,
      \<lparr>pattern = phone_us_pattern, ignorecase = False, type_label = ''PHONE'', validator_fn = None\<rparr>,
      \<lparr>pattern = phone_intl_pattern, ignorecase = False, type_label = ''PHONE'', validator_fn = None\<rparr>,
      \<lparr>pattern = po_box_pattern, ignorecase = True, type_label = ''ADDRESS'', validator_fn = None\<rparr>,
      \<lparr>pattern = street_pattern, ignorecase = True, type_label = ''ADDRESS'', validator_fn = None\<rparr>,
      \<lparr>pattern = formal_name_pattern, ignorecase = False, type_label = ''NAME'', validator_fn = None\<rparr>,
      \<lparr>pattern = iban_pattern, ignorecase = True, type_label = ''IBAN'', validator_fn = None\<rparr>,
      \<lparr>pattern = cc_pattern, ignorecase = False, type_label = ''CREDIT_CARD'',
        validator_fn = Some cc_validator\<rparr>]"

section \<open>redact\<close>

record redaction_result =
  redacted_text :: string
  redaction_count :: nat
  redacted_types :: "string list"

definition placeholder :: "string \<Rightarrow> string" where
  "placeholder lbl = ''[REDACTED:'' @ lbl @ '']''"

text \<open>The loop over the matches of one rule, given in the order it visits them (last first); a
  match reads its group from the text it was found in, \<open>src\<close>.\<close>

fun redact_matches :: "pii_rule \<Rightarrow> string \<Rightarrow> (nat \<times> nat) list \<Rightarrow> redaction_result
    \<Rightarrow> redaction_result py" where
  "redact_matches ru src [] st = Inr st"
| "redact_matches ru src ((a, b) # ms) st =
     (case (case validator_fn ru of None \<Rightarrow> Inr True | Some v \<Rightarrow> v (slice a b src)) of
        Inl e \<Rightarrow> Inl e
      | Inr ok \<Rightarrow>
          redact_matches ru src ms
            (if ok then
               \<lparr>redacted_text = take a (redacted_text st) @ placeholder (type_label ru) @
                  drop b (redacted_text st),
                redaction_count = redaction_count st + 1,
                redacted_types = add_new (type_label ru) (redacted_types st)\<rparr>
             else st))"

definition redact_rule :: "pii_rule \<Rightarrow> redaction_result \<Rightarrow> redaction_result py" where
  "redact_rule ru st =
     (let src = redacted_text st
      in redact_matches ru src (rev (finditer (pattern ru) (ignorecase ru) src)) st)"

fun redact_rules :: "pii_rule list \<Rightarrow> redaction_result \<Rightarrow> redaction_result py" where
  "redact_rules [] st = Inr st"
| "redact_rules (ru # rus) st =
     (case redact_rule ru st of Inl e \<Rightarrow> Inl e | Inr st' \<Rightarrow> redact_rules rus st')"

definition redact :: "string \<Rightarrow> redaction_result py" where
  "redact t =
     (case redact_rules output_pii_rules
         \<lparr>redacted_text = t, redaction_count = 0, redacted_types = []\<rparr> of
        Inl e \<Rightarrow> Inl e
      | Inr st \<Rightarrow> Inr (st\<lparr>redacted_types := sorted_strs (redacted_types st)\<rparr>))"

section \<open>redact\_stream\_chunk\<close>

definition carry_size :: nat where
  "carry_size = 30"

definition redact_stream_chunk :: "string \<Rightarrow> string \<Rightarrow> (string \<times> string) py" where
  "redact_stream_chunk chunk carry_buffer =
     (case redact (carry_buffer @ chunk) of
        Inl e \<Rightarrow> Inl e
      | Inr result \<Rightarrow>
          (let redacted = redacted_text result
           in if length redacted > carry_size
              then Inr (drop_last carry_size redacted, take_last carry_size redacted)
              else Inr ([], redacted)))"

section \<open>Luhn\<close>

lemma luhn_sum_append: "luhn_sum i (xs @ ys) = luhn_sum i xs + luhn_sum (i + length xs) ys"
  by (induction xs arbitrary: i) (auto simp: Let_def)

definition luhn_digit :: "nat \<Rightarrow> nat \<Rightarrow> nat" where
  "luhn_digit i d = (if i mod 2 = 1 then (if 2 * d > 9 then 2 * d - 9 else 2 * d) else d)"

lemma luhn_sum_Cons: "luhn_sum i (d # ds) = luhn_digit i d + luhn_sum (Suc i) ds"
  by (simp add: luhn_digit_def Let_def)

lemma luhn_digit_less: "d < 10 \<Longrightarrow> luhn_digit i d < 10"
  by (auto simp: luhn_digit_def)

lemma luhn_double_inj:
  assumes "(d::nat) < 10" and "e < 10"
    and "(if 2 * d > 9 then 2 * d - 9 else 2 * d) = (if 2 * e > 9 then 2 * e - 9 else 2 * e)"
  shows "d = e"
  using assms(3) by (cases "2 * d > 9"; cases "2 * e > 9"; simp only: if_True if_False simp_thms; presburger)

lemma luhn_digit_eq: "d < 10 \<Longrightarrow> e < 10 \<Longrightarrow> luhn_digit i d = luhn_digit i e \<Longrightarrow> d = e"
  unfolding luhn_digit_def using luhn_double_inj [of d e] by (cases "i mod 2 = 1") presburger+

lemma add_mod_10_le:
  assumes "(b::nat) < 10" and "a \<le> b" and "(x + a) mod 10 = (x + b) mod 10"
  shows "a = b"
proof -
  from assms have "10 dvd (x + b) - (x + a)" by (metis mod_eq_dvd_iff_nat add_left_mono)
  with assms show ?thesis by (auto dest: dvd_imp_le)
qed

lemma add_mod_10_inj: "(a::nat) < 10 \<Longrightarrow> b < 10 \<Longrightarrow> (x + a) mod 10 = (x + b) mod 10 \<Longrightarrow> a = b"
  using add_mod_10_le [of a b x] add_mod_10_le [of b a x] by (metis nat_le_linear)

lemma luhn_digit_inj:
  "d < 10 \<Longrightarrow> e < 10 \<Longrightarrow> d \<noteq> e \<Longrightarrow> (x + luhn_digit i d) mod 10 \<noteq> (x + luhn_digit i e) mod 10"
  using add_mod_10_inj luhn_digit_less luhn_digit_eq by blast

lemma digit_val_less: "is_decimal c \<Longrightarrow> digit_val c < 10"
  by (auto simp: is_decimal_def digit_val_def Let_def)

lemma digit_val_inj: "is_decimal c \<Longrightarrow> is_decimal d \<Longrightarrow> digit_val c = digit_val d \<Longrightarrow> c = d"
  by (subst cp_inj [symmetric]) (auto simp: is_decimal_def digit_val_def Let_def)

lemma luhn_check_decimal: "list_all is_decimal s \<Longrightarrow> \<exists>ok. luhn_check s = Inr ok"
  by (simp add: luhn_check_def)

lemma cc_validator_total: "\<exists>ok. cc_validator m = Inr ok"
  unfolding cc_validator_def re_sub_delete_class
  by (rule luhn_check_decimal) (auto simp: list_all_iff in_class_def)

section \<open>One rule\<close>

text \<open>The spans a rule replaces, and its verdict on one.\<close>

definition accepts :: "pii_rule \<Rightarrow> string \<Rightarrow> nat \<times> nat \<Rightarrow> bool" where
  "accepts ru src ab =
     (case validator_fn ru of None \<Rightarrow> True | Some v \<Rightarrow> v (slice (fst ab) (snd ab) src) = Inr True)"

definition rule_spans :: "pii_rule \<Rightarrow> string \<Rightarrow> (nat \<times> nat) list" where
  "rule_spans ru t = filter (accepts ru t) (finditer (pattern ru) (ignorecase ru) t)"

definition rule_total :: "pii_rule \<Rightarrow> bool" where
  "rule_total ru \<longleftrightarrow> (\<forall>v. validator_fn ru = Some v \<longrightarrow> (\<forall>m. \<exists>ok. v m = Inr ok))"

lemma output_pii_rules_total: "ru \<in> set output_pii_rules \<Longrightarrow> rule_total ru"
  by (auto simp: output_pii_rules_def rule_total_def cc_validator_total)

lemma redact_matches_eq:
  assumes "rule_total ru"
  shows "redact_matches ru src ms st =
    (let vs = filter (accepts ru src) ms
     in Inr \<lparr>redacted_text = fold (splice (placeholder (type_label ru))) vs (redacted_text st),
             redaction_count = redaction_count st + length vs,
             redacted_types = (if vs = [] then redacted_types st
                               else add_new (type_label ru) (redacted_types st))\<rparr>)"
proof (induction ms arbitrary: st)
  case (Cons ab ms)
  obtain a b where ab: "ab = (a, b)" by (cases ab)
  have "\<exists>ok. (case validator_fn ru of None \<Rightarrow> Inr True | Some v \<Rightarrow> v (slice a b src)) = Inr ok
      \<and> ok = accepts ru src (a, b)"
    using assms by (auto simp: rule_total_def accepts_def split: option.split) (metis sum.inject(2))+
  then have "(case validator_fn ru of None \<Rightarrow> Inr True | Some v \<Rightarrow> v (slice a b src))
      = Inr (accepts ru src (a, b))" by blast
  then show ?case
    by (simp add: ab Cons.IH Let_def splice_def add_new_def)
qed simp

lemma redact_rule_eq:
  assumes "rule_total ru"
  shows "redact_rule ru st =
    (let vs = rule_spans ru (redacted_text st)
     in Inr \<lparr>redacted_text = subst_spans (placeholder (type_label ru)) 0 vs (redacted_text st),
             redaction_count = redaction_count st + length vs,
             redacted_types = (if vs = [] then redacted_types st
                               else add_new (type_label ru) (redacted_types st))\<rparr>)"
proof -
  have "spans_ok 0 (length t) (rule_spans ru t)" for t
    unfolding rule_spans_def by (intro spans_ok_filter finditer_spans_ok)
  from splice_subst [OF this]
  have "foldr (splice ph) (rule_spans ru t) t = subst_spans ph 0 (rule_spans ru t) t" for ph t
    by simp
  then show ?thesis
    unfolding redact_rule_def Let_def redact_matches_eq [OF assms] rule_spans_def
    by (simp add: rev_filter [symmetric] foldr_conv_fold)
qed

text \<open>The text, the count and the labels after a list of rules, as functions of the text.\<close>

fun rules_text :: "pii_rule list \<Rightarrow> string \<Rightarrow> string" where
  "rules_text [] t = t"
| "rules_text (ru # rus) t =
     rules_text rus (subst_spans (placeholder (type_label ru)) 0 (rule_spans ru t) t)"

fun rules_hits :: "pii_rule list \<Rightarrow> string \<Rightarrow> (string \<times> nat) list" where
  "rules_hits [] t = []"
| "rules_hits (ru # rus) t =
     (type_label ru, length (rule_spans ru t)) #
     rules_hits rus (subst_spans (placeholder (type_label ru)) 0 (rule_spans ru t) t)"

lemma redact_rules_eq:
  assumes "list_all rule_total rus"
  shows "redact_rules rus st =
    Inr \<lparr>redacted_text = rules_text rus (redacted_text st),
         redaction_count = redaction_count st + sum_list (map snd (rules_hits rus (redacted_text st))),
         redacted_types = fold add_new
           (map fst (filter (\<lambda>h. 0 < snd h) (rules_hits rus (redacted_text st)))) (redacted_types st)\<rparr>"
  using assms
proof (induction rus arbitrary: st)
  case (Cons ru rus)
  then have "rule_total ru" and IH: "list_all rule_total rus" by simp_all
  from redact_rule_eq [OF this(1)] Cons.IH [OF IH] show ?case
    by (simp add: Let_def algebra_simps)
qed simp

lemma redact_eq:
  "redact t = Inr
     \<lparr>redacted_text = rules_text output_pii_rules t,
      redaction_count = sum_list (map snd (rules_hits output_pii_rules t)),
      redacted_types = sorted_strs (fold add_new
        (map fst (filter (\<lambda>h. 0 < snd h) (rules_hits output_pii_rules t))) [])\<rparr>"
proof -
  have "list_all rule_total output_pii_rules" by (simp add: list_all_iff output_pii_rules_total)
  from redact_rules_eq [OF this] show ?thesis by (simp add: redact_def)
qed

lemma set_fold_add_new [simp]: "set (fold add_new xs ys) = set xs \<union> set ys"
  by (induction xs arbitrary: ys) auto

lemma distinct_fold_add_new [simp]: "distinct (fold add_new xs ys) = distinct ys"
  by (induction xs arbitrary: ys) auto

lemma hits_labels: "map fst (rules_hits rus t) = map type_label rus"
  by (induction rus arbitrary: t) auto

lemma hits_zero_text:
  "sum_list (map snd (rules_hits rus t)) = 0 \<longleftrightarrow> list_all (\<lambda>ru. rule_spans ru t = []) rus"
  by (induction rus arbitrary: t) auto

lemma clean_text: "list_all (\<lambda>ru. rule_spans ru t = []) rus \<Longrightarrow> rules_text rus t = t"
  by (induction rus) auto

section \<open>Properties of redact\<close>

text \<open>Redaction always returns: no input makes it raise. Its labels are sorted, without
  duplicates, and among the labels of the rules; they are empty exactly when nothing was
  replaced.\<close>

theorem redact_result:
  "\<exists>r. redact t = Inr r \<and> sorted (redacted_types r) \<and> distinct (redacted_types r)
     \<and> set (redacted_types r) \<subseteq> {''SSN'', ''EMAIL'', ''PHONE'', ''ADDRESS'', ''NAME'', ''IBAN'', ''CREDIT_CARD''}
     \<and> (redaction_count r = 0) = (redacted_types r = [])"
proof -
  let ?h = "rules_hits output_pii_rules t"
  have "set (map fst ?h) = {''SSN'', ''EMAIL'', ''PHONE'', ''ADDRESS'', ''NAME'', ''IBAN'', ''CREDIT_CARD''}"
    unfolding hits_labels by (auto simp: output_pii_rules_def)
  moreover have "set (map fst (filter (\<lambda>h. 0 < snd h) ?h)) \<subseteq> set (map fst ?h)" by auto
  moreover have "(sum_list (map snd ?h) = 0) = (fold add_new (map fst (filter (\<lambda>h. 0 < snd h) ?h)) [] = [])"
    by (subst set_empty [symmetric]) (auto simp: filter_empty_conv simp del: set_empty)
  ultimately show ?thesis unfolding redact_eq by simp
qed

text \<open>A text is returned as it came, with nothing counted, exactly when no rule has an
  accepted match in it.\<close>

theorem redact_unchanged_iff:
  "redact t = Inr \<lparr>redacted_text = t, redaction_count = 0, redacted_types = []\<rparr>
     \<longleftrightarrow> list_all (\<lambda>ru. rule_spans ru t = []) output_pii_rules"
proof
  assume "redact t = Inr \<lparr>redacted_text = t, redaction_count = 0, redacted_types = []\<rparr>"
  then show "list_all (\<lambda>ru. rule_spans ru t = []) output_pii_rules"
    unfolding redact_eq by (simp add: hits_zero_text [symmetric])
next
  assume c: "list_all (\<lambda>ru. rule_spans ru t = []) output_pii_rules"
  then have z: "sum_list (map snd (rules_hits output_pii_rules t)) = 0" by (simp only: hits_zero_text)
  then have "filter (\<lambda>h. 0 < snd h) (rules_hits output_pii_rules t) = []"
    by (simp add: filter_empty_conv)
  with c z show "redact t = Inr \<lparr>redacted_text = t, redaction_count = 0, redacted_types = []\<rparr>"
    unfolding redact_eq by (simp add: clean_text sorted_strs_def)
qed

text \<open>The loop that splices the placeholders in from the last match backwards computes
  \<open>re.sub\<close>: for a rule without a validator the text after it is the substitution of
  every match from left to right, and the count grows by the number of matches.\<close>

theorem redact_rule_is_re_sub:
  assumes "validator_fn ru = None"
  shows "redact_rule ru st = Inr
    \<lparr>redacted_text = re_sub (pattern ru) (ignorecase ru) (placeholder (type_label ru)) (redacted_text st),
     redaction_count = redaction_count st
       + length (finditer (pattern ru) (ignorecase ru) (redacted_text st)),
     redacted_types = (if finditer (pattern ru) (ignorecase ru) (redacted_text st) = []
       then redacted_types st else add_new (type_label ru) (redacted_types st))\<rparr>"
proof -
  have "rule_total ru" using assms by (simp add: rule_total_def)
  moreover have "rule_spans ru t = finditer (pattern ru) (ignorecase ru) t" for t
    using assms by (simp add: rule_spans_def accepts_def)
  ultimately show ?thesis by (simp add: redact_rule_eq Let_def subst_finditer)
qed

theorem redact_rule_is_re_sub_witness:
  "redact_rule \<lparr>pattern = ssn_pattern, ignorecase = False, type_label = ''SSN'', validator_fn = None\<rparr>
     \<lparr>redacted_text = ''a 123-45-6789 b'', redaction_count = 0, redacted_types = []\<rparr>
   = Inr \<lparr>redacted_text = ''a [REDACTED:SSN] b'', redaction_count = 1, redacted_types = [''SSN'']\<rparr>"
proof -
  have "re_sub ssn_pattern False (placeholder ''SSN'') ''a 123-45-6789 b'' = ''a [REDACTED:SSN] b''"
    and "finditer ssn_pattern False ''a 123-45-6789 b'' = [(2, 13)]" by code_simp+
  with redact_rule_is_re_sub [of "\<lparr>pattern = ssn_pattern, ignorecase = False, type_label = ''SSN'',
      validator_fn = None\<rparr>" "\<lparr>redacted_text = ''a 123-45-6789 b'', redaction_count = 0,
      redacted_types = []\<rparr>"]
  show ?thesis by (simp add: add_new_def)
qed

section \<open>No social security number is left\<close>

text \<open>The shape of a number, three, two and four digits.\<close>

definition ssn_shape :: "string \<Rightarrow> bool" where
  "ssn_shape w = list_all2 (\<lambda>p c. p c)
     [is_decimal, is_decimal, is_decimal, \<lambda>c. c = CHR ''-'', is_decimal, is_decimal, \<lambda>c. c = CHR ''-'',
      is_decimal, is_decimal, is_decimal, is_decimal] w"

lemma list_all2_preds_append:
  "list_all2 (\<lambda>p c. p c) (xs @ ys) w \<longleftrightarrow>
     (\<exists>u v. w = u @ v \<and> list_all2 (\<lambda>p c. p c) xs u \<and> list_all2 (\<lambda>p c. p c) ys v)"
  by (auto simp: list_all2_append1 intro: list_all2_lengthD [symmetric])

lemma list_all2_replicate_pred:
  "list_all2 (\<lambda>p c. p c) (replicate n q) w \<longleftrightarrow> length w = n \<and> list_all q w"
  by (auto simp: list_all2_conv_all_nth list_all_length)

lemma ssn_shape_iff:
  "ssn_shape w \<longleftrightarrow> (\<exists>x y z. w = x @ CHR ''-'' # y @ CHR ''-'' # z
     \<and> length x = 3 \<and> length y = 2 \<and> length z = 4
     \<and> list_all is_decimal x \<and> list_all is_decimal y \<and> list_all is_decimal z)"
proof -
  have e: "[is_decimal, is_decimal, is_decimal, \<lambda>c. c = CHR ''-'', is_decimal, is_decimal,
      \<lambda>c. c = CHR ''-'', is_decimal, is_decimal, is_decimal, is_decimal]
    = replicate 3 is_decimal @ replicate 1 (\<lambda>c. c = CHR ''-'') @ replicate 2 is_decimal
      @ replicate 1 (\<lambda>c. c = CHR ''-'') @ replicate 4 is_decimal"
    by (simp add: numeral_eq_Suc)
  have one: "length u = 1 \<and> list_all (\<lambda>c. c = CHR ''-'') u \<longleftrightarrow> u = [CHR ''-'']" for u
    by (cases u) auto
  have "ssn_shape w \<longleftrightarrow> (\<exists>x y z. w = x @ [CHR ''-''] @ y @ [CHR ''-''] @ z
     \<and> (length x = 3 \<and> list_all is_decimal x) \<and> (length y = 2 \<and> list_all is_decimal y)
     \<and> (length z = 4 \<and> list_all is_decimal z))"
    unfolding ssn_shape_def e list_all2_preds_append list_all2_replicate_pred one by blast
  then show ?thesis by auto
qed

lemma in_class_digit: "in_class ic False [CDigit] = is_decimal"
  by (intro ext) (simp add: in_class_def)

lemma in_class_char: "in_class False False [CChar d] c \<longleftrightarrow> c = d"
  by (simp add: in_class_def)

lemma ssn_pattern_token: "(\<exists>cu'. (cu, cu') \<in> rsem ssn_pattern False) \<longleftrightarrow> token_at ssn_shape cu"
proof -
  have "(cu, cu') \<in> rsem ssn_pattern False \<longleftrightarrow> \<not> word_before cu \<and>
      (\<exists>w. ssn_shape w \<and> moves cu w cu') \<and> \<not> word_after cu'" for cu'
  proof -
    have "(cu, cu') \<in> rsem ssn_pattern False \<longleftrightarrow> \<not> word_before cu \<and>
      (\<exists>x y z. (length x = 3 \<and> list_all is_decimal x) \<and> (length y = 2 \<and> list_all is_decimal y)
        \<and> (length z = 4 \<and> list_all is_decimal z)
        \<and> moves cu (x @ [CHR ''-''] @ y @ [CHR ''-''] @ z) cu') \<and> \<not> word_after cu'"
      (is "?L \<longleftrightarrow> ?R")
    proof
      assume ?L
      then show ?R
        unfolding ssn_pattern_def rseq.simps rsem.simps(4,7,8) relcomp_unfold mem_Collect_eq
          case_prod_conv rsem_times_iff rsem_class_iff in_class_digit in_class_char moves_append_iff
        by (auto simp: Id_on_iff) blast
    next
      assume ?R
      then obtain x y z c1 c2 c3 c4 where b: "\<not> word_before cu" and a: "\<not> word_after cu'"
        and x: "length x = 3" "list_all is_decimal x" and y: "length y = 2" "list_all is_decimal y"
        and z: "length z = 4" "list_all is_decimal z"
        and m: "moves cu x c1" "moves c1 [CHR ''-''] c2" "moves c2 y c3" "moves c3 [CHR ''-''] c4"
          "moves c4 z cu'"
        unfolding moves_append_iff by blast
      have 0: "(cu, cu) \<in> rsem RNotBehindWord False" and 6: "(cu', cu') \<in> rsem RNotAheadWord False"
        using a b by auto
      have 1: "(cu, c1) \<in> rsem (RTimes RDigit 3) False" and 3: "(c2, c3) \<in> rsem (RTimes RDigit 2) False"
        and 5: "(c4, cu') \<in> rsem (RTimes RDigit 4) False"
        unfolding rsem_times_iff in_class_digit using x y z m by blast+
      have 2: "(c1, c2) \<in> rsem (RC CHR ''-'') False" and 4: "(c3, c4) \<in> rsem (RC CHR ''-'') False"
        unfolding rsem_class_iff in_class_char using m by blast+
      show ?L unfolding ssn_pattern_def rseq.simps
        by (intro rsem_RSeqI [OF 0] rsem_RSeqI [OF 1] rsem_RSeqI [OF 2] rsem_RSeqI [OF 3]
            rsem_RSeqI [OF 4] rsem_RSeqI [OF 5] 6)
    qed
    moreover have "?R \<longleftrightarrow> \<not> word_before cu \<and> (\<exists>w. ssn_shape w \<and> moves cu w cu') \<and> \<not> word_after cu'"
      unfolding ssn_shape_iff by (simp only: append.simps) metis
    ultimately show ?thesis by blast
  qed
  note iff = this
  show ?thesis
  proof
    assume "\<exists>cu'. (cu, cu') \<in> rsem ssn_pattern False"
    then obtain cu' w where "\<not> word_before cu" "ssn_shape w" "moves cu w cu'" "\<not> word_after cu'"
      unfolding iff by blast
    then show "token_at ssn_shape cu"
      unfolding token_at_def by (metis moves_def word_after_snd)
  next
    assume "token_at ssn_shape cu"
    then obtain w v where t: "\<not> word_before cu" "snd cu = w @ v" "ssn_shape w" "\<not> word_after (None, v)"
      unfolding token_at_def by blast
    from moves_exists [OF t(2)] obtain cu' where "moves cu w cu'" "snd cu' = v" by blast
    with t show "\<exists>cu'. (cu, cu') \<in> rsem ssn_pattern False"
      unfolding iff by (metis word_after_snd)
  qed
qed

interpretation ssn: word_token ssn_shape
proof
  fix w
  assume "ssn_shape w"
  then obtain x y z where w: "w = x @ CHR ''-'' # y @ CHR ''-'' # z"
    and x: "length x = 3" "list_all is_decimal x" and y: "list_all is_decimal y"
    and z: "length z = 4" "list_all is_decimal z" by (auto simp: ssn_shape_iff)
  from x z have "x \<noteq> []" and "z \<noteq> []" by auto
  with w x z show "w \<noteq> [] \<and> is_word (hd w) \<and> is_word (last w)"
    by (auto simp: list_all_iff)
  have "\<not> is_decimal c" if "c \<in> brackets" for c
    using that brackets_not_word decimal_is_word by blast
  with w x y z show "set w \<inter> brackets = {}"
    by (auto simp: list_all_iff) (auto simp: brackets_def)
qed

lemma ssn_search_token: "re_search ssn_pattern False t \<longleftrightarrow> has_token ssn_shape None t"
  unfolding re_search_iff has_token_def ssn_pattern_token [symmetric] by blast

lemma token_at_position:
  assumes "j < length t" and "token_at P (cursor_at t j)"
  shows "has_token P None t"
proof -
  have "cursor_at t j = ((if take j t = [] then None else Some (last (take j t))), drop j t)"
    using assms(1) by (auto simp: cursor_at_def last_conv_nth min_def)
  with assms(2) show ?thesis unfolding has_token_def by (metis append_take_drop_id)
qed

lemma ssn_not_in_placeholder:
  assumes "ru \<in> set output_pii_rules" and "ssn_shape w"
  shows "\<not> set w \<subseteq> set (''REDACTED:'' @ type_label ru)"
proof -
  from assms(2) have "CHR ''-'' \<in> set w" by (auto simp: ssn_shape_iff)
  moreover have "CHR ''-'' \<notin> set (''REDACTED:'' @ type_label ru)"
    using assms(1) by (auto simp: output_pii_rules_def)
  ultimately show ?thesis by blast
qed

text \<open>The email rule is the one whose pattern has no lookarounds: its last repetition is greedy,
  and a match that could begin earlier does.\<close>

lemma email_match_end:
  assumes "match_from email_pattern False cu = Some cu'"
  shows "\<not> word_after cu'"
proof -
  have tail: "\<exists>c. rmatch r False Some c = Some cu'" if "rmatch (RSeq l r) False Some cu = Some cu'" for l r cu
    using rmatch_SomeD [of l False "rmatch r False Some" cu cu'] that by auto
  from assms have "rmatch email_pattern False Some cu = Some cu'"
    by (simp add: match_from_def match_at_def)
  then obtain c where "rmatch (RRep RWord 2 None True) False Some c = Some cu'"
    unfolding email_pattern_def rseq.simps by (auto dest!: tail simp del: rmatch.simps)
  then have "rrep (rmatch RWord False) True (2 + length (snd c)) 2 Some c = Some cu'" by simp
  from rrep_class_maximal [OF this] show ?thesis
    by (auto simp: word_after_def in_class_def split: list.split)
qed

lemma email_extends:
  assumes "is_word c" and "((Some c, s), cu') \<in> rsem email_pattern False"
  shows "((p, c # s), cu') \<in> rsem email_pattern False"
proof -
  let ?cls = "RSet False [CWord, CChar (CHR ''.''), CChar (CHR ''-''), CChar (CHR ''+'')]"
  obtain rest where e: "email_pattern = RSeq (RPlus ?cls) rest" by (simp add: email_pattern_def)
  with assms(2) obtain d where d: "((Some c, s), d) \<in> rsem (RPlus ?cls) False" "(d, cu') \<in> rsem rest False"
    unfolding e rsem.simps(4) by blast
  from d(1) obtain w where w: "moves (Some c, s) w d" "list_all (in_class False False
      [CWord, CChar (CHR ''.''), CChar (CHR ''-''), CChar (CHR ''+'')]) w"
    unfolding rsem_class_rep_iff by blast
  from w(1) have "moves (p, c # s) (c # w) d" by (auto simp: moves_def)
  moreover from assms(1) have "in_class False False
      [CWord, CChar (CHR ''.''), CChar (CHR ''-''), CChar (CHR ''+'')] c" by (simp add: in_class_def)
  ultimately have "((p, c # s), d) \<in> rsem (RPlus ?cls) False"
    unfolding rsem_class_rep_iff using w(2) by (intro exI [of _ "c # w"]) simp
  from rsem_RSeqI [OF this d(2)] show ?thesis unfolding e .
qed

lemma email_gaps: "gaps_ok t 0 (finditer email_pattern False t)"
proof -
  have "gaps_ok t i ss" if "spans_ok i (length t) ss"
    and "\<And>a b. (a, b) \<in> set ss \<Longrightarrow> (a, b) \<in> set (finditer email_pattern False t)"
    and "\<And>a b. (a, b) \<in> set (finditer email_pattern False t) \<Longrightarrow> (a, b) \<notin> set ss \<Longrightarrow> b \<le> i" for i ss
    using that
  proof (induction ss arbitrary: i)
    case (Cons ab ss)
    let ?f = "finditer email_pattern False t"
    obtain a b where ab: "ab = (a, b)" by (cases ab)
    with Cons.prems(1) have le: "i \<le> a" "a < b" and ok: "spans_ok b (length t) ss" by auto
    from Cons.prems(2) ab have f: "(a, b) \<in> set ?f" by simp
    have bnd: "b \<le> length t" using ok by (rule spans_ok_le)
    have "\<not> is_word (t ! b)" if "b < length t"
      using email_match_end [OF finditer_match_from [OF f]] word_after_cursor_at [OF that] by simp
    moreover have "a \<le> i \<or> \<not> is_word (t ! (a - 1))"
    proof (rule ccontr)
      assume "\<not> (a \<le> i \<or> \<not> is_word (t ! (a - 1)))"
      then have a: "i < a" and w: "is_word (t ! (a - 1))" by auto
      have "cursor_at t a = (Some (t ! (a - 1)), drop a t)" using a by (simp add: cursor_at_def)
      moreover have "cursor_at t (a - 1) = (fst (cursor_at t (a - 1)), t ! (a - 1) # drop a t)"
        using a le bnd Cons_nth_drop_Suc [of "a - 1" t] by (simp add: cursor_at_def)
      ultimately have "(cursor_at t (a - 1), cursor_at t b) \<in> rsem email_pattern False"
        using email_extends [OF w] finditer_match [OF f] by metis
      moreover have "0 < min_len email_pattern" by (simp add: email_pattern_def)
      ultimately obtain x y where xy: "(x, y) \<in> set ?f" "x \<le> a - 1" "a - 1 < y"
        using finditer_complete [of email_pattern "a - 1" t] le bnd by fastforce
      have "x < a" using xy(2) a by simp
      from spans_ok_disjoint [OF finditer_spans_ok f xy(1) this] xy(3) a have "y = a" by simp
      with xy(1) le(2) a Cons.prems(3) [OF xy(1)] have "(x, y) \<in> set ss" by (auto simp: ab)
      from spans_ok_bounds [OF ok this] \<open>y = a\<close> le xy show False by auto
    qed
    moreover have "gaps_ok t b ss"
    proof (rule Cons.IH [OF ok])
      fix x y
      assume "(x, y) \<in> set ?f" and "(x, y) \<notin> set ss"
      with Cons.prems(3) [of x y] le show "y \<le> b" by (cases "(x, y) = (a, b)") (auto simp: ab)
    qed (use Cons.prems(2) in auto)
    ultimately show ?case by (simp add: ab)
  qed simp
  from this [OF finditer_spans_ok] show ?thesis by blast
qed

lemma rule_gaps:
  assumes "ru \<in> set output_pii_rules"
  shows "gaps_ok t 0 (rule_spans ru t)"
proof (cases "pattern ru = email_pattern")
  case True
  with assms have "validator_fn ru = None" "ignorecase ru = False"
    by (auto simp: output_pii_rules_def email_pattern_def cc_pattern_def iban_pattern_def
        formal_name_pattern_def po_box_pattern_def street_pattern_def)
  with True show ?thesis using email_gaps by (simp add: rule_spans_def accepts_def)
next
  case False
  have g: "starts_guarded (pattern ru) \<and> ends_guarded (pattern ru)"
    using assms False
    by (auto simp: output_pii_rules_def ssn_pattern_def phone_us_pattern_def phone_intl_pattern_def
        cc_pattern_def iban_pattern_def formal_name_pattern_def po_box_pattern_def street_pattern_def)
  show ?thesis
  proof (rule gaps_okI)
    fix a b
    assume "(a, b) \<in> set (rule_spans ru t)"
    then have "(a, b) \<in> set (finditer (pattern ru) (ignorecase ru) t)" by (simp add: rule_spans_def)
    from finditer_match [OF this] g
    show "\<not> word_after (cursor_at t b)" and "\<not> word_before (cursor_at t a)"
      by (blast dest: starts_guardedD ends_guardedD)+
  qed
qed

text \<open>A token after a rule sits at a position of the text before it that no span covers.\<close>

lemma ssn_after_rule:
  assumes "ru \<in> set output_pii_rules"
    and "has_token ssn_shape None (subst_spans (placeholder (type_label ru)) 0 (rule_spans ru t) t)"
  shows "\<exists>j < length t. token_at ssn_shape (cursor_at t j)
     \<and> (\<forall>(a, b) \<in> set (rule_spans ru t). \<not> (a \<le> j \<and> j < b))"
proof -
  have "spans_ok 0 (length t) (rule_spans ru t)"
    unfolding rule_spans_def by (intro spans_ok_filter finditer_spans_ok)
  moreover have "placeholder (type_label ru) = ''['' @ (''REDACTED:'' @ type_label ru) @ '']''"
    by (simp add: placeholder_def)
  ultimately show ?thesis
    using ssn.has_token_subst [of 0 t "rule_spans ru t" None "''REDACTED:'' @ type_label ru"]
      rule_gaps [OF assms(1)] ssn_not_in_placeholder [OF assms(1)] assms(2) by auto
qed

lemma no_ssn_rules:
  assumes "set rus \<subseteq> set output_pii_rules" and "\<not> has_token ssn_shape None t"
  shows "\<not> has_token ssn_shape None (rules_text rus t)"
  using assms
proof (induction rus arbitrary: t)
  case (Cons ru rus)
  have "\<not> has_token ssn_shape None (subst_spans (placeholder (type_label ru)) 0 (rule_spans ru t) t)"
    using ssn_after_rule [of ru t] token_at_position [of _ t ssn_shape] Cons.prems by auto
  with Cons show ?case by simp
qed simp

text \<open>C1. The text that \<open>redact\<close> returns holds no social security number any more: the
  rule replaces every one, its placeholder makes none, and no later rule uncovers one.\<close>

theorem redact_leaves_no_ssn:
  "\<exists>r. redact t = Inr r \<and> \<not> re_search ssn_pattern False (redacted_text r)"
proof -
  obtain ru rus where rules: "output_pii_rules = ru # rus" and ru: "pattern ru = ssn_pattern"
      "ignorecase ru = False" "validator_fn ru = None" by (simp add: output_pii_rules_def)
  let ?t = "subst_spans (placeholder (type_label ru)) 0 (rule_spans ru t) t"
  have "\<not> has_token ssn_shape None ?t"
  proof
    assume "has_token ssn_shape None ?t"
    moreover have "ru \<in> set output_pii_rules" by (simp add: rules)
    ultimately obtain j where j: "j < length t"
      "token_at ssn_shape (cursor_at t j)" "\<forall>(a, b) \<in> set (rule_spans ru t). \<not> (a \<le> j \<and> j < b)"
      using ssn_after_rule by blast
    from j(2) obtain cu' where "(cursor_at t j, cu') \<in> rsem ssn_pattern False"
      unfolding ssn_pattern_token [symmetric] by blast
    moreover have "0 < min_len ssn_pattern" by (simp add: ssn_pattern_def)
    ultimately have "\<exists>(a, b) \<in> set (finditer ssn_pattern False t). a \<le> j \<and> j < b"
      using finditer_complete j(1) by (meson less_imp_le)
    with j(3) ru show False by (auto simp: rule_spans_def accepts_def)
  qed
  then have "\<not> has_token ssn_shape None (rules_text rus ?t)"
    using no_ssn_rules rules by (metis set_subset_Cons)
  then show ?thesis by (simp add: redact_eq rules ssn_search_token)
qed

section \<open>Properties of the Luhn check and of the stream window\<close>

text \<open>The Luhn check notices every single wrong digit: a number it accepts is refused after
  any one of its digits is changed.\<close>

theorem luhn_detects_digit_error:
  assumes "luhn_check (xs @ c # ys) = Inr True" and "is_decimal d" and "d \<noteq> c"
  shows "luhn_check (xs @ d # ys) = Inr False"
proof -
  let ?v = "map digit_val" and ?i = "length ys"
  let ?rest = "luhn_sum 0 (rev (?v ys)) + luhn_sum (Suc ?i) (rev (?v xs))"
  from assms(1) have dec: "list_all is_decimal (xs @ c # ys)" by (auto simp: luhn_check_def split: if_splits)
  have sum: "luhn_sum 0 (rev (?v (xs @ x # ys))) = ?rest + luhn_digit ?i (digit_val x)" for x
    by (simp add: luhn_sum_append luhn_sum_Cons del: luhn_sum.simps(2))
  from assms(1) dec have "(?rest + luhn_digit ?i (digit_val c)) mod 10 = 0"
    by (simp add: luhn_check_def sum [symmetric])
  moreover have "digit_val c < 10" "digit_val d < 10" "digit_val c \<noteq> digit_val d"
    using dec assms(2,3) digit_val_inj [of d c] by (auto simp: digit_val_less)
  ultimately have "(?rest + luhn_digit ?i (digit_val d)) mod 10 \<noteq> 0"
    using luhn_digit_inj by metis
  with dec assms(2) show ?thesis by (simp add: luhn_check_def sum [symmetric])
qed

theorem luhn_detects_digit_error_witness:
  "luhn_check ''4111111111111111'' = Inr True \<and> luhn_check ''4111117111111111'' = Inr False"
proof -
  have a: "luhn_check ''4111111111111111'' = Inr True" by code_simp
  with luhn_detects_digit_error [of "''411111''" "CHR ''1''" "''111111111''" "CHR ''7''"]
  show ?thesis by (simp add: is_decimal_def cp_def)
qed

lemma redact_total: "\<exists>r. redact t = Inr r"
  using redact_eq by blast

lemma stream_chunk_spec:
  "\<exists>r safe carry. redact (carry_buffer @ chunk) = Inr r
     \<and> redact_stream_chunk chunk carry_buffer = Inr (safe, carry)
     \<and> safe @ carry = redacted_text r \<and> length carry = min 30 (length (redacted_text r))"
proof -
  obtain r where "redact (carry_buffer @ chunk) = Inr r" using redact_eq by blast
  then show ?thesis
    by (cases "length (redacted_text r) > carry_size")
      (auto simp: redact_stream_chunk_def carry_size_def Let_def)
qed

text \<open>C27. One call of the stream guard loses nothing and holds little back: what it sends
  followed by the new carry is the redacted window, and the carry is its last thirty characters
  or all of it.\<close>

theorem redact_stream_chunk_window:
  "\<exists>r safe carry. redact (carry_buffer @ chunk) = Inr r
     \<and> redact_stream_chunk chunk carry_buffer = Inr (safe, carry)
     \<and> safe @ carry = redacted_text r \<and> length carry = min 30 (length (redacted_text r))"
  by (rule stream_chunk_spec)

text \<open>The chunks of a stream through the guard, as the event generator threads the carry.\<close>

fun guard_chunks :: "string list \<Rightarrow> string \<Rightarrow> (string list \<times> string) py" where
  "guard_chunks [] carry = Inr ([], carry)"
| "guard_chunks (c # cs) carry =
     (case redact_stream_chunk c carry of
        Inl e \<Rightarrow> Inl e
      | Inr (safe, carry') \<Rightarrow>
          (case guard_chunks cs carry' of
             Inl e \<Rightarrow> Inl e
           | Inr (sent, last_carry) \<Rightarrow> Inr (safe # sent, last_carry)))"

abbreviation pii_chars :: "cset list" where
  "pii_chars \<equiv> [CDigit, CRange (CHR ''1'') (CHR ''9''), CChar (CHR ''@''), CChar (CHR ''.'')]"

lemma rules_need:
  "ru \<in> set output_pii_rules \<Longrightarrow>
    (if ignorecase ru then needs [CDigit] (pattern ru) else needs pii_chars (pattern ru))"
  by (auto simp: output_pii_rules_def ssn_pattern_def phone_us_pattern_def phone_intl_pattern_def
      cc_pattern_def iban_pattern_def formal_name_pattern_def po_box_pattern_def street_pattern_def
      email_pattern_def rlit_def)

lemma redact_lacks:
  assumes "lacks False pii_chars s"
  shows "redact s = Inr \<lparr>redacted_text = s, redaction_count = 0, redacted_types = []\<rparr>"
proof -
  from assms have d: "lacks True [CDigit] s" by (auto simp: lacks_def list_all_iff in_class_def)
  have "finditer (pattern ru) (ignorecase ru) s = []" if "ru \<in> set output_pii_rules" for ru
    using rules_need [OF that] finditer_lacks [OF _ assms] finditer_lacks [OF _ d]
    by (cases "ignorecase ru") simp_all
  then have "list_all (\<lambda>ru. rule_spans ru s = []) output_pii_rules"
    by (simp add: list_all_iff rule_spans_def)
  from clean_text [OF this] this show ?thesis
    unfolding redact_eq by (simp only: hits_zero_text [symmetric])
      (simp add: sorted_strs_def filter_empty_conv)
qed

lemma lacks_append [simp]: "lacks ic A (s @ t) \<longleftrightarrow> lacks ic A s \<and> lacks ic A t"
  by (simp add: lacks_def)

lemma chunks_transparent:
  assumes "lacks False pii_chars (carry @ concat cs)"
  shows "\<exists>sent last_carry. guard_chunks cs carry = Inr (sent, last_carry)
     \<and> concat sent @ last_carry = carry @ concat cs \<and> length sent = length cs"
  using assms
proof (induction cs arbitrary: carry)
  case (Cons c cs)
  then have "lacks False pii_chars (carry @ c)" by simp
  from redact_lacks [OF this] obtain safe carry'
    where rc: "redact_stream_chunk c carry = Inr (safe, carry')" and sc: "safe @ carry' = carry @ c"
    using stream_chunk_spec [of carry c] by auto
  from Cons.prems sc have "lacks False pii_chars (carry' @ concat cs)"
    by (metis append.assoc concat.simps(2) lacks_append)
  from Cons.IH [OF this] obtain sent last_carry where "guard_chunks cs carry' = Inr (sent, last_carry)"
    "concat sent @ last_carry = carry' @ concat cs" "length sent = length cs" by blast
  with rc sc show ?case by (simp add: append_assoc [symmetric] del: append_assoc) (metis append_assoc)
qed simp

text \<open>Text without digits, at signs and full stops, which no rule can match in, comes
  through the stream unchanged however it is cut into chunks: what is sent, and the carry that
  is left, make up the text.\<close>

theorem guard_chunks_transparent:
  assumes "lacks False pii_chars (carry @ concat cs)"
  shows "\<exists>sent last_carry. guard_chunks cs carry = Inr (sent, last_carry)
     \<and> concat sent @ last_carry = carry @ concat cs \<and> length sent = length cs"
  using assms by (rule chunks_transparent)

theorem guard_chunks_transparent_witness:
  "\<exists>sent last_carry. guard_chunks [''Hello the'', ''re''] [] = Inr (sent, last_carry)
     \<and> concat sent @ last_carry = ''Hello there'' \<and> length sent = 2"
  using guard_chunks_transparent [of "[]" "[''Hello the'', ''re'']"]
  by (simp add: lacks_def in_class_def is_decimal_def in_range_def cp_def numeral_2_eq_2
      del: guard_chunks.simps)

end
