(* ===== verification/Content_Inspector.thy ===== *)
theory Content_Inspector
  imports Schemas Output_Guard
begin

text \<open>
  The content inspector (src/fastapi\_backend/app/services/content\_inspector\_service.py):
  the detectors of personal data and secrets, the Luhn and IBAN checks, and \<open>inspect_content\<close>,
  which raises the sensitivity of a request to HIGH. The spaCy pipeline is a parameter, the
  function from a text to the labels of its entities; the environment variable
  \<open>PII_ALLOW_LOW_SIGNAL_INTENTS\<close> is an argument.
\<close>

section \<open>Patterns\<close>

definition inspector_email_pattern :: rx where
  "inspector_email_pattern = rseq
     [RPlus (RSet False [CWord, CChar (CHR ''.''), CChar (CHR ''-'')]), RC (CHR ''@''),
      RPlus (RSet False [CWord, CChar (CHR ''.''), CChar (CHR ''-'')]), RC (CHR ''.''), RPlus RWord]"

abbreviation b64url :: rx where
  "b64url \<equiv> RSet False [CRange (CHR ''A'') (CHR ''Z''), CRange (CHR ''a'') (CHR ''z''),
     CRange (CHR ''0'') (CHR ''9''), CChar (CHR ''_''), CChar (CHR ''-'')]"

definition jwt_pattern :: rx where
  "jwt_pattern = rseq
     [RNotBehindWord, rlit ''eyJ'', RRep b64url 8 None True, RC (CHR ''.''),
      RRep b64url 10 None True, RC (CHR ''.''), RRep b64url 10 None True, RNotAheadWord]"

definition api_key_aws_pattern :: rx where
  "api_key_aws_pattern = rseq
     [RNotBehindWord, rlit ''AKIA'',
      RTimes (RSet False [CRange (CHR ''0'') (CHR ''9''), CRange (CHR ''A'') (CHR ''Z'')]) 16, RNotAheadWord]"

definition api_key_google_pattern :: rx where
  "api_key_google_pattern = rseq [RNotBehindWord, rlit ''AIza'', RTimes b64url 35, RNotAheadWord]"

definition api_key_github_pattern :: rx where
  "api_key_github_pattern = rseq
     [RNotBehindWord, rlit ''ghp_'',
      RTimes (RSet False [CRange (CHR ''A'') (CHR ''Z''), CRange (CHR ''a'') (CHR ''z''),
        CRange (CHR ''0'') (CHR ''9'')]) 36, RNotAheadWord]"

text \<open>Compiled with \<open>re.I\<close>.\<close>

definition api_key_generic_pattern :: rx where
  "api_key_generic_pattern = rseq
     [RNotBehindWord,
      ralt [rseq [rlit ''api'', ROpt (RSet False [CChar (CHR ''_''), CChar (CHR ''-'')]), rlit ''key''],
        rlit ''apikey'', rlit ''secret'', rlit ''token''],
      RStar RSpace, RSet False [CChar (CHR '':''), CChar (CHR ''='')], RStar RSpace,
      RRep b64url 16 None True, RNotAheadWord]"

section \<open>IBAN\<close>

text \<open>The digits of one character: a digit stays, a capital becomes 10 to 35, anything else
  makes the check false.\<close>

definition iban_char :: "char \<Rightarrow> string option" where
  "iban_char c =
     (if is_digit c then Some [c]
      else if in_range (CHR ''A'') (CHR ''Z'') c then Some (str_nat (cp c - cp (CHR ''A'') + 10))
      else None)"

fun iban_convert :: "string \<Rightarrow> string option" where
  "iban_convert [] = Some []"
| "iban_convert (c # s) =
     (case iban_char c of None \<Rightarrow> None
      | Some p \<Rightarrow> (case iban_convert s of None \<Rightarrow> None | Some q \<Rightarrow> Some (p @ q)))"

function mod97_chunks :: "nat \<Rightarrow> string \<Rightarrow> nat py" where
  "mod97_chunks r s =
     (if s = [] then Inr r
      else (case int_of_digits (str_nat r @ take 9 s) of
              Inl e \<Rightarrow> Inl e
            | Inr n \<Rightarrow> mod97_chunks (n mod 97) (drop 9 s)))"
  by pat_completeness auto
termination
  by (relation "measure (\<lambda>(r, s). length s)") auto

declare mod97_chunks.simps [simp del]

definition iban_mod97_check :: "string \<Rightarrow> bool py" where
  "iban_mod97_check iban_alnum =
     (let iban = upper (replace_char (CHR '' '') [] iban_alnum)
      in if length iban < 15 \<or> 34 < length iban then Inr False
         else (case iban_convert (drop 4 iban @ take 4 iban) of
                 None \<Rightarrow> Inr False
               | Some digits \<Rightarrow>
                   (case mod97_chunks 0 digits of Inl e \<Rightarrow> Inl e | Inr r \<Rightarrow> Inr (r = 1))))"

section \<open>Labels\<close>

definition spacy_high_signal_types :: "string list" where
  "spacy_high_signal_types = [''PERSON'', ''PHONE'']"

definition spacy_low_signal_types :: "string list" where
  "spacy_low_signal_types = [''ORG'', ''GPE'', ''LOC'']"

definition parse_allowed_low_signal_intents :: "string \<Rightarrow> string list" where
  "parse_allowed_low_signal_intents env =
     (let raw = strip env
      in if raw = [] then []
         else filter (\<lambda>p. p \<noteq> []) (map strip (split_char (CHR '','') raw)))"

definition resolve_spacy_labels_for_upgrade :: "string \<Rightarrow> string \<Rightarrow> string \<Rightarrow> string list" where
  "resolve_spacy_labels_for_upgrade env int_name environ =
     (if environ = ''prod'' \<and> int_name \<in> set (parse_allowed_low_signal_intents env)
      then spacy_high_signal_types @ spacy_low_signal_types else spacy_high_signal_types)"

section \<open>inspect\_content\<close>

definition count_regex_matches :: "rx \<Rightarrow> bool \<Rightarrow> string \<Rightarrow> nat" where
  "count_regex_matches r ic t = length (finditer r ic t)"

definition add_detected :: "string \<Rightarrow> nat \<Rightarrow> (string \<times> nat) list \<Rightarrow> (string \<times> nat) list" where
  "add_detected name n d = (if n = 0 then d else dict_set d name (dict_get_default d name 0 + n))"

text \<open>The count of the candidates a check accepts; the check may raise.\<close>

fun count_valid :: "(string \<Rightarrow> bool py) \<Rightarrow> string list \<Rightarrow> nat py" where
  "count_valid chk [] = Inr 0"
| "count_valid chk (c # cs) =
     (case chk c of
        Inl e \<Rightarrow> Inl e
      | Inr ok \<Rightarrow> (case count_valid chk cs of
          Inl e \<Rightarrow> Inl e | Inr n \<Rightarrow> Inr (if ok then Suc n else n)))"

definition candidates :: "rx \<Rightarrow> bool \<Rightarrow> string \<Rightarrow> string list" where
  "candidates r ic t = map (\<lambda>(a, b). slice a b t) (finditer r ic t)"

definition cc_check :: "string \<Rightarrow> bool py" where
  "cc_check cand =
     (let digits_only = re_sub (RSet True [CDigit]) False [] cand
      in if 13 \<le> length digits_only \<and> length digits_only \<le> 19 then luhn_check digits_only
         else Inr False)"

definition detect_regex :: "string \<Rightarrow> (string \<times> nat) list py" where
  "detect_regex t =
     (let d = add_detected ''EMAIL'' (count_regex_matches inspector_email_pattern False t) [];
          d = add_detected ''PHONE'' (count_regex_matches phone_us_pattern False t) d;
          d = add_detected ''PHONE'' (count_regex_matches phone_intl_pattern False t) d;
          d = add_detected ''SSN'' (count_regex_matches ssn_pattern False t) d
      in case count_valid cc_check (candidates cc_pattern False t) of
           Inl e \<Rightarrow> Inl e
         | Inr cc_valid \<Rightarrow>
             (let d = add_detected ''CREDIT_CARD'' cc_valid d
              in case count_valid iban_mod97_check
                   (map (replace_char (CHR '' '') []) (candidates iban_pattern True t)) of
                   Inl e \<Rightarrow> Inl e
                 | Inr iban_valid \<Rightarrow>
                     (let d = add_detected ''IBAN'' iban_valid d;
                          d = add_detected ''ADDRESS'' (count_regex_matches po_box_pattern True t) d;
                          d = add_detected ''ADDRESS'' (count_regex_matches street_pattern True t) d;
                          d = add_detected ''JWT'' (count_regex_matches jwt_pattern False t) d;
                          d = add_detected ''API_KEY'' (count_regex_matches api_key_aws_pattern False t) d;
                          d = add_detected ''API_KEY'' (count_regex_matches api_key_google_pattern False t) d;
                          d = add_detected ''API_KEY'' (count_regex_matches api_key_github_pattern False t) d;
                          d = add_detected ''API_KEY'' (count_regex_matches api_key_generic_pattern True t) d
                      in Inr d)))"

text \<open>The entities of the language model, those with an allowed label.\<close>

definition detect_entities :: "string list \<Rightarrow> string list \<Rightarrow> (string \<times> nat) list \<Rightarrow> (string \<times> nat) list" where
  "detect_entities allowed labels d =
     fold (\<lambda>l d. if l \<in> set allowed then add_detected l 1 d else d) labels d"

definition inspect_content :: "(string \<Rightarrow> string list) \<Rightarrow> string \<Rightarrow> ai_request_schema
    \<Rightarrow> (sensitivity_level \<times> string list \<times> nat) py" where
  "inspect_content nlp env body =
     (let declared = sensitivity (metadata body)
      in if declared = HIGH then Inr (HIGH, [], 0)
         else if messages body = [] then Inr (declared, [], 0)
         else
           (let combined_text = content (last (messages body))
            in if strip combined_text = [] then Inr (declared, [], 0)
               else
                 (case detect_regex combined_text of
                    Inl e \<Rightarrow> Inl e
                  | Inr d \<Rightarrow>
                      (let d = detect_entities
                             (resolve_spacy_labels_for_upgrade env (intent body) (environment (metadata body)))
                             (nlp combined_text) d
                       in if d \<noteq> [] then Inr (HIGH, sorted_strs (map fst d), sum_list (map snd d))
                          else Inr (declared, [], 0)))))"

definition resolve_sensitivity :: "(string \<Rightarrow> string list) \<Rightarrow> string \<Rightarrow> ai_request_schema
    \<Rightarrow> sensitivity_level py" where
  "resolve_sensitivity nlp env body =
     (case inspect_content nlp env body of Inl e \<Rightarrow> Inl e | Inr (resolved, _, _) \<Rightarrow> Inr resolved)"

section \<open>The IBAN check\<close>

lemma digits_val_append0: "digits_val 0 (xs @ ys) = digits_val 0 xs * 10 ^ length ys + digits_val 0 ys"
  by (simp add: digits_val_append digits_val_acc [of "digits_val 0 xs"])

lemma mod97_chunks_eq:
  "list_all is_decimal s \<Longrightarrow> r < 97 \<Longrightarrow>
    mod97_chunks r s = Inr ((r * 10 ^ length s + digits_val 0 s) mod 97)"
proof (induction r s rule: mod97_chunks.induct)
  case (1 r s)
  show ?case
  proof (cases "s = []")
    case True
    with 1 show ?thesis by (subst mod97_chunks.simps) simp
  next
    case False
    let ?a = "take 9 s" and ?b = "drop 9 s"
    have dec: "list_all is_decimal ?a" "list_all is_decimal ?b"
      using 1(2) by (metis append_take_drop_id list_all_append)+
    then have n: "int_of_digits (str_nat r @ ?a) = Inr (r * 10 ^ length ?a + digits_val 0 ?a)"
      by (simp add: int_of_digits_def digits_val_append0)
    let ?n = "r * 10 ^ length ?a + digits_val 0 ?a"
    from 1(1) [OF False n dec(2)]
    have "mod97_chunks (?n mod 97) ?b = Inr ((?n mod 97 * 10 ^ length ?b + digits_val 0 ?b) mod 97)" by simp
    also have "(?n mod 97 * 10 ^ length ?b + digits_val 0 ?b) mod 97
        = (?n * 10 ^ length ?b + digits_val 0 ?b) mod 97"
      by (metis mod_add_left_eq mod_mult_left_eq)
    also have "?n * 10 ^ length ?b + digits_val 0 ?b
        = r * 10 ^ length (?a @ ?b) + digits_val 0 (?a @ ?b)"
      by (simp only: digits_val_append0 length_append power_add) (simp add: algebra_simps)
    finally show ?thesis using False n
      by (subst mod97_chunks.simps) (simp only: append_take_drop_id if_False sum.case)
  qed
qed

lemma iban_convert_append:
  "iban_convert (xs @ ys) = (case iban_convert xs of None \<Rightarrow> None
     | Some p \<Rightarrow> (case iban_convert ys of None \<Rightarrow> None | Some q \<Rightarrow> Some (p @ q)))"
  by (induction xs) (auto split: option.split)

text \<open>A character an IBAN may have once it is in capitals.\<close>

definition iban_alnum :: "char \<Rightarrow> bool" where
  "iban_alnum c = (is_decimal c \<or> in_range (CHR ''A'') (CHR ''Z'') c)"

lemma iban_convert_alnum:
  "list_all iban_alnum s \<Longrightarrow> \<exists>d. iban_convert s = Some d \<and> list_all is_decimal d"
proof (induction s)
  case (Cons c s)
  then obtain d where d: "iban_convert s = Some d" "list_all is_decimal d" by auto
  from Cons.prems have "\<exists>p. iban_char c = Some p \<and> list_all is_decimal p"
    unfolding iban_char_def by (cases "is_decimal c") (auto simp: iban_alnum_def is_digit_def is_decimal_def Let_def in_range_def cp_def)
  with d show ?case by auto
qed simp

lemma iban_check_alnum:
  assumes "list_all iban_alnum (upper (replace_char (CHR '' '') [] s))"
  shows "\<exists>ok. iban_mod97_check s = Inr ok"
proof -
  let ?u = "upper (replace_char (CHR '' '') [] s)"
  from assms have "list_all iban_alnum (drop 4 ?u @ take 4 ?u)"
    by (auto simp: list_all_iff dest: in_set_takeD in_set_dropD)
  from iban_convert_alnum [OF this] obtain d where "iban_convert (drop 4 ?u @ take 4 ?u) = Some d"
    "list_all is_decimal d" by blast
  with mod97_chunks_eq [of d 0] show ?thesis
    by (cases "length ?u < 15 \<or> 34 < length ?u") (auto simp: iban_mod97_check_def Let_def)
qed

text \<open>The chunked loop of the IBAN check, which reads nine digits at a time and carries the
  remainder as text, computes the remainder of the whole number modulo 97.\<close>

theorem mod97_chunks_correct:
  assumes "list_all is_decimal s"
  shows "mod97_chunks 0 s = Inr (digits_val 0 s mod 97)"
  using mod97_chunks_eq [OF assms, of 0] by simp

theorem mod97_chunks_correct_witness:
  "mod97_chunks 0 ''3214282912345698765432161182'' = Inr 1"
  using mod97_chunks_correct [of "''3214282912345698765432161182''"]
  by (simp add: is_decimal_def digit_val_def cp_def)

lemma cp_lower_char:
  "cp (lower_char c) = (if 65 \<le> cp c \<and> cp c \<le> 90 \<or> 192 \<le> cp c \<and> cp c \<le> 214 \<or> 216 \<le> cp c \<and> cp c \<le> 222
     then cp c + 32 else cp c)"
  by (auto simp: lower_char_def Let_def)

lemma cp_upper_char: "map cp (upper_char c) = (if cp c = 223 then [83, 83]
    else if 97 \<le> cp c \<and> cp c \<le> 122 \<or> 224 \<le> cp c \<and> cp c \<le> 246 \<or> 248 \<le> cp c \<and> cp c \<le> 254
    then [cp c - 32] else [cp c])"
proof -
  have "cp c - 32 < 256" using cp_less [of c] by linarith
  then show ?thesis by (simp add: upper_char_def Let_def) (simp add: cp_def)
qed

lemma cp_ends: "cp (CHR ''A'') = 65" "cp (CHR ''Z'') = 90" "cp (CHR ''0'') = 48" "cp (CHR ''9'') = 57"
  by (simp_all add: cp_def)

lemma list_ex_cp: "list_ex (\<lambda>c. P (cp c)) s = list_ex P (map cp s)"
  by (induction s) auto

lemma list_all_cp: "list_all (\<lambda>c. P (cp c)) s = list_all P (map cp s)"
  by (induction s) auto

lemma iban_alnum_upper:
  assumes "in_class True False [CRange (CHR ''A'') (CHR ''Z''), CRange (CHR ''0'') (CHR ''9'')] c \<or> is_decimal c"
  shows "list_all iban_alnum (upper_char c)"
proof -
  let ?P = "\<lambda>n. 48 \<le> n \<and> n \<le> 57 \<or> 65 \<le> n \<and> n \<le> (90::nat)"
  have P: "iban_alnum = (\<lambda>c. ?P (cp c))"
    by (auto simp: fun_eq_iff iban_alnum_def is_decimal_def in_range_def cp_ends Let_def)
  have "?P (cp c) \<or> ?P (cp (lower_char c)) \<or> list_ex (\<lambda>c. ?P (cp c)) (upper_char c)"
    using assms by (auto simp: in_class_def in_range_def cp_ends is_decimal_def list_ex_iff Let_def)
  then have *: "?P (cp c) \<or> ?P (cp (lower_char c)) \<or> list_ex ?P (map cp (upper_char c))"
    unfolding list_ex_cp [symmetric, of ?P] .
  have "list_all ?P (map cp (upper_char c))"
  proof (cases "cp c = 223")
    case True
    then show ?thesis by (simp add: cp_upper_char)
  next
    case False
    show ?thesis
    proof (cases "97 \<le> cp c \<and> cp c \<le> 122 \<or> 224 \<le> cp c \<and> cp c \<le> 246 \<or> 248 \<le> cp c \<and> cp c \<le> 254")
      case True
      then have "map cp (upper_char c) = [cp c - 32]" and "\<not> ?P (cp c)" and "cp (lower_char c) = cp c"
        using False by (auto simp: cp_upper_char cp_lower_char)
      with * show ?thesis by simp
    next
      case not_lower: False
      then have "map cp (upper_char c) = [cp c]"
        unfolding cp_upper_char using False by (simp only: if_False)
      moreover from * this have "?P (cp c)" by (auto simp: cp_lower_char split: if_splits)
      ultimately show ?thesis by simp
    qed
  qed
  then show ?thesis unfolding P list_all_cp [symmetric, of ?P] .
qed

lemma mod97_chunks_decimal: "mod97_chunks r s = Inr n \<Longrightarrow> list_all is_decimal s"
proof (induction r s rule: mod97_chunks.induct)
  case (1 r s)
  show ?case
  proof (cases "s = []")
    case False
    with 1(2) obtain m where m: "int_of_digits (str_nat r @ take 9 s) = Inr m"
      and "mod97_chunks (m mod 97) (drop 9 s) = Inr n"
      by (subst (asm) mod97_chunks.simps) (auto split: sum.splits)
    from 1(1) [OF False this] have "list_all is_decimal (drop 9 s)" .
    moreover from m have "list_all is_decimal (take 9 s)" by (auto simp: int_of_digits_def split: if_splits)
    ultimately show ?thesis by (metis append_take_drop_id list_all_append)
  qed simp
qed

lemma mod97_shift:
  assumes "(a::nat) < 10" and "b < 10" and "(k + a * 10 ^ m) mod 97 = (k + b * 10 ^ m) mod 97"
  shows "a = b"
proof -
  have le: "a = b" if "b \<le> a" "a < 10" "(k + a * 10 ^ m) mod 97 = (k + b * 10 ^ m) mod 97" for a b :: nat
  proof -
    from that have "97 dvd (k + a * 10 ^ m) - (k + b * 10 ^ m)"
      by (metis add_left_mono mod_eq_dvd_iff_nat mult_le_mono1)
    then have "97 dvd (a - b) * 10 ^ m" by (simp add: diff_mult_distrib)
    moreover have "coprime (97::nat) 10" by (simp add: coprime_iff_gcd_eq_1 gcd_non_0_nat)
    then have "coprime (97::nat) (10 ^ m)" by simp
    ultimately have "97 dvd a - b" by (simp add: coprime_dvd_mult_left_iff)
    with that show ?thesis by (auto dest: dvd_imp_le)
  qed
  show ?thesis
  proof (cases "b \<le> a")
    case True
    from le [OF this assms(1,3)] show ?thesis .
  next
    case False
    then have "a \<le> b" by simp
    from le [OF this assms(2) assms(3) [symmetric]] show ?thesis ..
  qed
qed

lemma rearrange_one: "\<exists>x y. \<forall>c. drop 4 (a @ c # b) @ take 4 (a @ c # b) = x @ c # y"
proof (cases "length a < 4")
  case True
  then have "\<forall>c. drop 4 (a @ c # b) @ take 4 (a @ c # b)
      = (drop (4 - Suc (length a)) b @ a) @ c # take (4 - Suc (length a)) b"
    by (simp add: drop_Cons' take_Cons')
  then show ?thesis by blast
next
  case False
  then have "\<forall>c. drop 4 (a @ c # b) @ take 4 (a @ c # b) = drop 4 a @ c # (b @ take 4 a)" by simp
  then show ?thesis by blast
qed

text \<open>C39. The IBAN check notices every single wrong digit.\<close>

theorem iban_detects_digit_error:
  assumes "iban_mod97_check (xs @ c # ys) = Inr True" and "is_decimal c" and "is_decimal d" and "d \<noteq> c"
  shows "iban_mod97_check (xs @ d # ys) = Inr False"
proof -
  let ?u = "\<lambda>s. upper (replace_char (CHR '' '') [] s)"
  have dec: "?u (xs @ e # ys) = ?u xs @ e # ?u ys" if "is_decimal e" for e
  proof -
    have "e \<noteq> CHR '' ''" and "upper_char e = [e]"
      using that by (auto simp: is_decimal_def upper_char_def Let_def cp_def)
    then show ?thesis by (simp add: upper_def replace_char_def)
  qed
  have dec_char: "iban_char e = Some [e]" if "is_decimal e" for e
    using that by (simp add: iban_char_def)
  obtain x y where xy: "\<And>e. drop 4 (?u xs @ e # ?u ys) @ take 4 (?u xs @ e # ?u ys) = x @ e # y"
    using rearrange_one by metis
  have len: "\<not> (length (?u xs @ e # ?u ys) < 15 \<or> 34 < length (?u xs @ e # ?u ys))" for e
    using assms(1) by (auto simp: iban_mod97_check_def dec [OF assms(2)] Let_def split: if_splits)
  from assms(1) len [of c] obtain p q where p: "iban_convert x = Some p" and q: "iban_convert y = Some q"
    and m: "mod97_chunks 0 (p @ c # q) = Inr 1"
    unfolding iban_mod97_check_def dec [OF assms(2)] Let_def xy
    by (auto simp: iban_convert_append dec_char assms(2) split: option.splits sum.splits)
  from mod97_chunks_decimal [OF m] have l: "list_all is_decimal (p @ e # q)" if "is_decimal e" for e
    using that by simp
  have v: "digits_val 0 (p @ e # q)
      = (digits_val 0 p * 10 ^ Suc (length q) + digits_val 0 q) + digit_val e * 10 ^ length q" for e
    using digits_val_acc [of "digit_val e" q] by (simp add: digits_val_append0)
  from m mod97_chunks_eq [OF l [OF assms(2)], of 0] have "digits_val 0 (p @ c # q) mod 97 = 1" by simp
  moreover have "digit_val d \<noteq> digit_val c" using assms digit_val_inj by blast
  ultimately have "digits_val 0 (p @ d # q) mod 97 \<noteq> 1"
    unfolding v using mod97_shift digit_val_less assms(2,3) by metis
  with len [of d] mod97_chunks_eq [OF l [OF assms(3)], of 0] show ?thesis
    unfolding iban_mod97_check_def dec [OF assms(3)] Let_def xy
    by (simp add: iban_convert_append dec_char assms(3) p q)
qed

theorem iban_detects_digit_error_witness:
  "iban_mod97_check ''GB82WEST12345698765432'' = Inr True
    \<and> iban_mod97_check ''GB82WEST12345698765431'' = Inr False"
proof -
  have "upper (replace_char (CHR '' '') [] ''GB82WEST12345698765432'') = ''GB82WEST12345698765432''"
    by (simp add: upper_def replace_char_def upper_char_def cp_def)
  moreover have "iban_convert ''WEST12345698765432GB82'' = Some ''3214282912345698765432161182''"
    by (simp add: iban_char_def is_digit_def in_range_def cp_def str_nat.simps char_of_def bit_0)
  moreover have "mod97_chunks 0 ''3214282912345698765432161182'' = Inr 1"
    using mod97_chunks_eq [of "''3214282912345698765432161182''" 0]
    by (simp add: is_decimal_def digit_val_def cp_def)
  ultimately have "iban_mod97_check ''GB82WEST12345698765432'' = Inr True"
    by (simp add: iban_mod97_check_def)
  with iban_detects_digit_error [of "''GB82WEST1234569876543''" "CHR ''2''" "[]" "CHR ''1''"]
  show ?thesis by (simp add: is_decimal_def cp_def)
qed

section \<open>The detectors never raise\<close>

lemma count_valid_total:
  "(\<And>c. c \<in> set cs \<Longrightarrow> \<exists>ok. chk c = Inr ok) \<Longrightarrow> \<exists>n. count_valid chk cs = Inr n"
proof (induction cs)
  case (Cons c cs)
  then obtain n where "count_valid chk cs = Inr n" by auto
  moreover obtain ok where "chk c = Inr ok" using Cons.prems by auto
  ultimately show ?case by simp
qed simp

lemma cc_check_total: "\<exists>ok. cc_check cand = Inr ok"
proof -
  have "list_all is_decimal (re_sub (RSet True [CDigit]) False [] cand)"
    unfolding re_sub_delete_class by (auto simp: list_all_iff in_class_def)
  from luhn_check_decimal [OF this] show ?thesis by (auto simp: cc_check_def Let_def)
qed

definition det_ok :: "(string \<times> nat) list \<Rightarrow> bool" where
  "det_ok d \<longleftrightarrow> distinct (map fst d) \<and> list_all (\<lambda>p. 0 < snd p) d"

lemma positive_dict_set:
  "list_all (\<lambda>p. 0 < snd p) d \<Longrightarrow> 0 < v \<Longrightarrow> list_all (\<lambda>p. 0 < snd p) (dict_set d k (v::nat))"
  by (induction d k v rule: dict_set.induct) auto

lemma det_ok_add [simp]: "det_ok d \<Longrightarrow> det_ok (add_detected l n d)"
  by (auto simp: det_ok_def add_detected_def distinct_dict_set positive_dict_set)

lemma det_ok_Nil [simp]: "det_ok []"
  by (simp add: det_ok_def)

lemma keys_add_detected [simp]:
  "fst ` set (add_detected l n d) = (if n = 0 then fst ` set d else insert l (fst ` set d))"
  by (simp add: add_detected_def set_keys_dict_set)

lemma det_ok_entities: "det_ok d \<Longrightarrow> det_ok (detect_entities allowed labels d)"
  unfolding detect_entities_def by (induction labels arbitrary: d) auto

lemma keys_entities: "fst ` set d \<subseteq> fst ` set (detect_entities allowed labels d)"
proof (induction labels arbitrary: d)
  case Nil
  then show ?case by (simp add: detect_entities_def)
next
  case (Cons l labels)
  let ?d = "if l \<in> set allowed then add_detected l 1 d else d"
  have "fst ` set d \<subseteq> fst ` set ?d" by auto
  also have "\<dots> \<subseteq> fst ` set (detect_entities allowed labels ?d)" by (rule Cons.IH)
  finally show ?case by (simp add: detect_entities_def)
qed

lemma candidates_iban:
  assumes "c \<in> set (map (replace_char (CHR '' '') []) (candidates iban_pattern True t))"
  shows "\<exists>ok. iban_mod97_check c = Inr ok"
proof -
  let ?P = "\<lambda>c. in_class True False [CRange (CHR ''A'') (CHR ''Z''), CRange (CHR ''0'') (CHR ''9'')] c \<or> is_decimal c"
  have "chars_in ?P True iban_pattern"
    by (auto simp: iban_pattern_def in_class_def)
  with assms obtain w where c: "c = replace_char (CHR '' '') [] w" and w: "list_all ?P w"
    using finditer_slice_chars by (force simp: candidates_def)
  have "list_all ?P c"
    unfolding c replace_char_def using w by (auto simp: list_all_iff split: if_splits)
  then have "list_all ?P (replace_char (CHR '' '') [] c)"
    unfolding replace_char_def by (auto simp: list_all_iff split: if_splits)
  then have "list_all iban_alnum (upper (replace_char (CHR '' '') [] c))"
    unfolding upper_def by (auto simp: list_all_iff dest!: iban_alnum_upper)
  then show ?thesis by (rule iban_check_alnum)
qed

section \<open>Properties of the inspection\<close>

text \<open>The detectors that are a pattern each, with the label they report.\<close>

definition plain_detectors :: "(string \<times> rx \<times> bool) list" where
  "plain_detectors =
     [(''EMAIL'', inspector_email_pattern, False), (''PHONE'', phone_us_pattern, False),
      (''PHONE'', phone_intl_pattern, False), (''SSN'', ssn_pattern, False),
      (''ADDRESS'', po_box_pattern, True), (''ADDRESS'', street_pattern, True),
      (''JWT'', jwt_pattern, False), (''API_KEY'', api_key_aws_pattern, False),
      (''API_KEY'', api_key_google_pattern, False), (''API_KEY'', api_key_github_pattern, False),
      (''API_KEY'', api_key_generic_pattern, True)]"

lemma detect_regex_result:
  "\<exists>d. detect_regex t = Inr d \<and> det_ok d \<and>
     (\<forall>(l, r, ic) \<in> set plain_detectors. finditer r ic t \<noteq> [] \<longrightarrow> l \<in> fst ` set d)"
proof -
  obtain n where n: "count_valid cc_check (candidates cc_pattern False t) = Inr n"
    using count_valid_total cc_check_total by metis
  obtain m where m: "count_valid iban_mod97_check
      (map (replace_char (CHR '' '') []) (candidates iban_pattern True t)) = Inr m"
    using count_valid_total candidates_iban by metis
  show ?thesis
    unfolding detect_regex_def Let_def n m sum.case
    by (rule exI, intro conjI, rule refl, simp)
      (auto simp: plain_detectors_def count_regex_matches_def)
qed

abbreviation anchor_chars :: "cset list" where
  "anchor_chars \<equiv> [CDigit, CChar (CHR ''@''), CChar (CHR ''e''), CChar (CHR ''A''), CChar (CHR ''g''),
     CChar (CHR '':''), CChar (CHR ''='')]"

lemma plain_detectors_need:
  "(l, r, ic) \<in> set plain_detectors \<Longrightarrow> needs anchor_chars r \<and> 0 < min_len r"
proof -
  have "list_all (\<lambda>(l, r, ic). needs anchor_chars r \<and> 0 < min_len r) plain_detectors"
    by code_simp
  then show "(l, r, ic) \<in> set plain_detectors \<Longrightarrow> needs anchor_chars r \<and> 0 < min_len r"
    by (auto simp: list_all_iff)
qed

lemma dropWhile_all_iff: "list_all P (dropWhile P xs) \<longleftrightarrow> list_all P xs"
  by (induction xs) auto

lemma strip_Nil_iff: "strip t = [] \<longleftrightarrow> list_all is_space t"
  by (simp add: strip_def rstrip_def lstrip_def dropWhile_all_iff list_all_iff [symmetric])

lemma blank_lacks: "list_all is_space t \<Longrightarrow> lacks ic anchor_chars t"
proof -
  have n: "\<not> is_space (CHR ''@'')" "\<not> is_space (CHR ''e'')" "\<not> is_space (CHR ''A'')" "\<not> is_space (CHR ''g'')"
    "\<not> is_space (CHR '':'')" "\<not> is_space (CHR ''='')" by (simp_all add: is_space_def cp_def)
  have "\<not> in_class ic False anchor_chars c" if "is_space c" for c
    using n decimal_not_space [of c] is_space_lower [of c] is_space_lower that
    by (auto simp: in_class_def) (metis is_space_lower)+
  then show "list_all is_space t \<Longrightarrow> lacks ic anchor_chars t" by (auto simp: lacks_def list_all_iff)
qed

lemma length_le_sum: "list_all (\<lambda>p. 0 < snd p) d \<Longrightarrow> length d \<le> sum_list (map (snd :: _ \<Rightarrow> nat) d)"
  by (induction d) auto

lemma inspect_content_shape:
  "\<exists>s tys n. inspect_content nlp env body = Inr (s, tys, n) \<and> sensitivity (metadata body) \<le> s
     \<and> sorted tys \<and> distinct tys \<and> length tys \<le> n
     \<and> (n = 0 \<and> tys = [] \<and> s = sensitivity (metadata body) \<or> 0 < n \<and> 0 < length tys \<and> s = HIGH)"
proof (cases "sensitivity (metadata body) = HIGH \<or> messages body = []
    \<or> strip (content (last (messages body))) = []")
  case True
  then show ?thesis by (auto simp: inspect_content_def Let_def)
next
  case False
  let ?t = "content (last (messages body))"
  obtain d where d: "detect_regex ?t = Inr d" "det_ok d" using detect_regex_result by blast
  let ?d = "detect_entities (resolve_spacy_labels_for_upgrade env (intent body)
    (environment (metadata body))) (nlp ?t) d"
  have ok: "det_ok ?d" using d(2) by (rule det_ok_entities)
  then have len: "length ?d \<le> sum_list (map snd ?d)"
    and res: "sorted (sorted_strs (map fst ?d))" "distinct (sorted_strs (map fst ?d))"
      "length (sorted_strs (map fst ?d)) = length ?d"
    by (simp_all add: det_ok_def length_le_sum)
  show ?thesis
  proof (cases "?d = []")
    case True
    with False d(1) show ?thesis by (simp add: inspect_content_def Let_def)
  next
    case nonempty: False
    then have "0 < length ?d" by simp
    define n tys where n: "n = sum_list (map snd ?d)" and tys: "tys = sorted_strs (map fst ?d)"
    have "inspect_content nlp env body = Inr (HIGH, tys, n)"
      unfolding n tys using False d(1) nonempty by (simp add: inspect_content_def Let_def)
    moreover have "0 < n" unfolding n by (rule order.strict_trans2 [OF \<open>0 < length ?d\<close> len])
    moreover have "length tys \<le> n" "0 < length tys" unfolding n tys res(3) by (fact len, fact)
    moreover have "sorted tys" "distinct tys" unfolding tys by (fact res)+
    ultimately show ?thesis using le_HIGH by blast
  qed
qed




end
