(* ===== verification/Py_Hash.thy ===== *)
theory Py_Hash
  imports Py_Str "HOL-Library.Word"
begin

unbundle bit_operations_syntax

text \<open>
  The part of \<open>hashlib\<close>, \<open>hmac\<close> and \<open>base64\<close> the program uses: SHA-256 on words of 32
  bits as FIPS 180-4 states it, HMAC over it, and the base64 encoding. Bytes are words of 8 bits.
\<close>

type_synonym byte = "8 word"

section \<open>Text as bytes\<close>

text \<open>\<open>s.encode("utf-8")\<close>: code points from 128 up take two bytes.\<close>

definition utf8_char :: "char \<Rightarrow> byte list" where
  "utf8_char c = (if cp c < 128 then [of_nat (cp c)]
     else [of_nat (192 + cp c div 64), of_nat (128 + cp c mod 64)])"

definition utf8_encode :: "string \<Rightarrow> byte list" where
  "utf8_encode s = concat (map utf8_char s)"

text \<open>\<open>s.encode("ascii")\<close> raises on any other character.\<close>

definition ascii_encode :: "string \<Rightarrow> byte list py" where
  "ascii_encode s = (if list_all (\<lambda>c. cp c < 128) s then Inr (map (\<lambda>c. of_nat (cp c)) s)
     else Inl UnicodeEncodeError)"

definition hex_digit :: "nat \<Rightarrow> char" where
  "hex_digit n = (if n < 10 then char_of (48 + n) else char_of (87 + n))"

definition hexdigest :: "byte list \<Rightarrow> string" where
  "hexdigest bs = concat (map (\<lambda>b. [hex_digit (unat b div 16), hex_digit (unat b mod 16)]) bs)"

section \<open>SHA-256\<close>

definition rotr :: "nat \<Rightarrow> 32 word \<Rightarrow> 32 word" where
  "rotr n x = drop_bit n x OR push_bit (32 - n) x"

text \<open>The constants are the leading 32 bits of the fractional parts of the cube roots of the first
  64 primes, and of the square roots of the first eight. \<open>iroot e n b 0\<close> is the integer root
  of \<open>n\<close> of degree \<open>e\<close>, found bit by bit, for roots below \<open>2 ^ b\<close>.\<close>

fun iroot :: "nat \<Rightarrow> nat \<Rightarrow> nat \<Rightarrow> nat \<Rightarrow> nat" where
  "iroot e n 0 r = r"
| "iroot e n (Suc b) r = iroot e n b (if (r + 2 ^ b) ^ e \<le> n then r + 2 ^ b else r)"

definition primes_below :: "nat \<Rightarrow> nat list" where
  "primes_below m = filter (\<lambda>p. list_all (\<lambda>d. p mod d \<noteq> 0) [2..<p]) [2..<m]"

definition sha_k :: "32 word list" where
  "sha_k = map (\<lambda>p. of_nat (iroot 3 (p * 2 ^ 96) 36 0)) (primes_below 312)"

definition sha_init :: "32 word list" where
  "sha_init = map (\<lambda>p. of_nat (iroot 2 (p * 2 ^ 64) 37 0)) (primes_below 20)"

definition be_word :: "byte list \<Rightarrow> 32 word" where
  "be_word bs = foldl (\<lambda>w b. push_bit 8 w OR ucast b) 0 bs"

definition be_bytes :: "nat \<Rightarrow> nat \<Rightarrow> byte list" where
  "be_bytes k n = map (\<lambda>i. of_nat (n div 256 ^ i)) (rev [0..<k])"

definition sha_pad :: "byte list \<Rightarrow> byte list" where
  "sha_pad m = m @ [0x80] @ replicate ((119 - length m mod 64) mod 64) 0 @ be_bytes 8 (8 * length m)"

fun chunks :: "nat \<Rightarrow> nat \<Rightarrow> 'a list \<Rightarrow> 'a list list" where
  "chunks 0 k xs = []"
| "chunks (Suc n) k xs = (if xs = [] then [] else take k xs # chunks n k (drop k xs))"

text \<open>The message schedule: each further word from four of the sixteen before it.\<close>

fun sha_extend :: "nat \<Rightarrow> 32 word list \<Rightarrow> 32 word list" where
  "sha_extend 0 ws = ws"
| "sha_extend (Suc n) ws =
     (let k = length ws; w15 = ws ! (k - 15); w2 = ws ! (k - 2);
          s0 = rotr 7 w15 XOR rotr 18 w15 XOR drop_bit 3 w15;
          s1 = rotr 17 w2 XOR rotr 19 w2 XOR drop_bit 10 w2
      in sha_extend n (ws @ [ws ! (k - 16) + s0 + ws ! (k - 7) + s1]))"

fun sha_round :: "32 word list \<Rightarrow> 32 word \<times> 32 word \<Rightarrow> 32 word list" where
  "sha_round [a, b, c, d, e, f, g, h] (k, w) =
     (let s1 = rotr 6 e XOR rotr 11 e XOR rotr 25 e;
          ch = (e AND f) XOR ((NOT e) AND g);
          t1 = h + s1 + ch + k + w;
          s0 = rotr 2 a XOR rotr 13 a XOR rotr 22 a;
          maj = (a AND b) XOR (a AND c) XOR (b AND c)
      in [t1 + s0 + maj, a, b, c, d + t1, e, f, g])"
| "sha_round st kw = st"

definition sha_block :: "32 word list \<Rightarrow> byte list \<Rightarrow> 32 word list" where
  "sha_block h m =
     (let ws = sha_extend 48 (map be_word (chunks 16 4 m))
      in map2 (+) h (foldl sha_round h (zip sha_k ws)))"

definition sha256 :: "byte list \<Rightarrow> byte list" where
  "sha256 m =
     (let p = sha_pad m
      in concat (map (\<lambda>w. be_bytes 4 (unat w)) (foldl sha_block sha_init (chunks (length p) 64 p))))"

definition sha256_hex :: "string \<Rightarrow> string" where
  "sha256_hex s = hexdigest (sha256 (utf8_encode s))"

lemma length_sha_round [simp]: "length (sha_round st kw) = length st"
  by (cases "(st, kw)" rule: sha_round.cases) (simp_all add: Let_def)

lemma length_foldl_round [simp]: "length (foldl sha_round st kws) = length st"
  by (induction kws arbitrary: st) simp_all

lemma length_foldl_block [simp]: "length (foldl sha_block st ms) = length st"
  by (induction ms arbitrary: st) (simp_all add: sha_block_def Let_def)

lemma length_sha_init: "length sha_init = 8"
  by (simp add: sha_init_def primes_below_def upt_conv_Cons)

lemma length_hexdigest: "length (hexdigest bs) = 2 * length bs"
  by (induction bs) (simp_all add: hexdigest_def)

lemma length_sha256_hex [simp]: "length (sha256_hex s) = 64"
proof -
  have "length (concat (map (\<lambda>w. be_bytes 4 (unat w)) ws)) = 4 * length ws" for ws :: "32 word list"
    by (induction ws) (simp_all add: be_bytes_def)
  then show ?thesis by (simp add: sha256_hex_def length_hexdigest sha256_def Let_def length_sha_init)
qed

section \<open>HMAC and base64\<close>

definition hmac_sha256 :: "byte list \<Rightarrow> byte list \<Rightarrow> byte list" where
  "hmac_sha256 key m =
     (let k = (if length key > 64 then sha256 key else key);
          k = k @ replicate (64 - length k) 0
      in sha256 (map (\<lambda>b. b XOR 0x5c) k @ sha256 (map (\<lambda>b. b XOR 0x36) k @ m)))"

definition b64_digit :: "nat \<Rightarrow> char" where
  "b64_digit n = (if n < 26 then char_of (65 + n) else if n < 52 then char_of (71 + n)
     else if n < 62 then char_of (n - 4) else if n = 62 then CHR ''+'' else CHR ''/'')"

fun b64encode :: "byte list \<Rightarrow> string" where
  "b64encode [] = []"
| "b64encode [a] = (let n = unat a * 16 in [b64_digit (n div 64), b64_digit (n mod 64), CHR ''='', CHR ''=''])"
| "b64encode [a, b] =
     (let n = (unat a * 256 + unat b) * 4
      in [b64_digit (n div 4096), b64_digit (n div 64 mod 64), b64_digit (n mod 64), CHR ''=''])"
| "b64encode (a # b # c # bs) =
     (let n = (unat a * 256 + unat b) * 256 + unat c
      in [b64_digit (n div 262144), b64_digit (n div 4096 mod 64), b64_digit (n div 64 mod 64),
          b64_digit (n mod 64)] @ b64encode bs)"

end
