(* ===== verification/Gateway_Signature.thy ===== *)
theory Gateway_Signature
  imports Py_Hash
begin

text \<open>
  The signing contract between the gateway and the backend
  (src/fastapi\_backend/app/core/gateway\_signature.py): the canonical string, its HMAC-SHA-256 in
  base64, and the verification of a signature that came with a request.
\<close>

definition gateway_canonical_string :: "string \<Rightarrow> string \<Rightarrow> string \<Rightarrow> string \<Rightarrow> string" where
  "gateway_canonical_string method path timestamp nonce =
     method @ ''|'' @ path @ ''|'' @ timestamp @ ''|'' @ nonce"

definition gateway_compute_signature :: "string \<Rightarrow> string \<Rightarrow> string \<Rightarrow> string \<Rightarrow> string \<Rightarrow> string" where
  "gateway_compute_signature secret method path timestamp nonce =
     (let msg = gateway_canonical_string method path timestamp nonce;
          digest = hmac_sha256 (utf8_encode secret) (utf8_encode msg)
      in b64encode digest)"

text \<open>The argument may be any object; \<open>None\<close> is one that is no text.\<close>

definition gateway_verify_signature :: "string \<Rightarrow> string \<Rightarrow> string \<Rightarrow> string \<Rightarrow> string
    \<Rightarrow> string option \<Rightarrow> bool py" where
  "gateway_verify_signature secret method path timestamp nonce provided =
     (case provided of
        None \<Rightarrow> Inr False
      | Some sig \<Rightarrow>
          (let expected = gateway_compute_signature secret method path timestamp nonce
           in case ascii_encode expected of
                Inl e \<Rightarrow> Inl e
              | Inr e_bytes \<Rightarrow> (case ascii_encode sig of
                    Inl e \<Rightarrow> Inl e
                  | Inr p_bytes \<Rightarrow> Inr (e_bytes = p_bytes))))"

section \<open>Base64 text is ASCII\<close>

lemma b64_digit_ascii: "n < 64 \<Longrightarrow> cp (b64_digit n) < 128"
  by (auto simp: b64_digit_def, simp_all add: cp_def)

lemma unat_byte: "unat (b :: byte) < 256"
  using unsigned_less [of b] by simp

lemma b64encode_ascii: "list_all (\<lambda>c. cp c < 128) (b64encode bs)"
proof (induction bs rule: b64encode.induct)
  case (2 a)
  have "unat a * 16 div 64 < 64" and "unat a * 16 mod 64 < 64" using unat_byte [of a] by auto
  then show ?case by (simp add: Let_def b64_digit_ascii) (simp add: cp_def)
next
  case (3 a b)
  have "(unat a * 256 + unat b) * 4 div 4096 < 64" using unat_byte [of a] unat_byte [of b] by auto
  then show ?case by (simp add: Let_def b64_digit_ascii) (simp add: cp_def)
next
  case (4 a b c bs)
  have "((unat a * 256 + unat b) * 256 + unat c) div 262144 < 64"
    using unat_byte [of a] unat_byte [of b] unat_byte [of c] by auto
  with 4 show ?case by (simp add: Let_def b64_digit_ascii)
qed simp

lemma ascii_encode_inj:
  assumes "list_all (\<lambda>c. cp c < 128) s" and "list_all (\<lambda>c. cp c < 128) t"
    and "map (\<lambda>c. of_nat (cp c) :: byte) s = map (\<lambda>c. of_nat (cp c)) t"
  shows "s = t"
proof -
  have inj: "c = d" if "(of_nat (cp c) :: byte) = of_nat (cp d)" for c d
  proof -
    have "unat (of_nat (cp x) :: byte) = cp x" for x
      using cp_less [of x] by (simp add: unat_of_nat take_bit_eq_mod)
    with that have "cp c = cp d" by metis
    then show ?thesis by (simp add: cp_inj)
  qed
  show ?thesis using assms(3) by (rule map_injective) (auto intro: injI inj)
qed

section \<open>Properties\<close>

text \<open>What verification answers, on every kind of argument: an object that is no text is
  refused, a text is accepted exactly when it is the signature of the four fields, and a text with
  a character outside ASCII is not refused but raises.\<close>

theorem gateway_verify_signature_result:
  "gateway_verify_signature secret method path timestamp nonce provided =
     (case provided of
        None \<Rightarrow> Inr False
      | Some sig \<Rightarrow> (if list_all (\<lambda>c. cp c < 128) sig
          then Inr (sig = gateway_compute_signature secret method path timestamp nonce)
          else Inl UnicodeEncodeError))"
proof (cases provided)
  case (Some sig)
  have "list_all (\<lambda>c. cp c < 128) (gateway_compute_signature secret method path timestamp nonce)"
    by (simp add: gateway_compute_signature_def Let_def b64encode_ascii)
  with Some show ?thesis
    by (auto simp: gateway_verify_signature_def ascii_encode_def Let_def dest: ascii_encode_inj)
qed (simp add: gateway_verify_signature_def)

lemma cut_at:
  "a @ c # x = b @ c # y \<Longrightarrow> c \<notin> set a \<Longrightarrow> c \<notin> set b \<Longrightarrow> a = b \<and> x = y"
proof (induction a arbitrary: b)
  case Nil
  then show ?case by (cases b) auto
next
  case (Cons d a)
  then show ?case by (cases b) auto
qed

lemma canonical_eq:
  assumes "gateway_canonical_string m p t n = gateway_canonical_string m' p' t' n'"
    and "CHR ''|'' \<notin> set (m @ p @ t)" and "CHR ''|'' \<notin> set (m' @ p' @ t')"
  shows "m = m' \<and> p = p' \<and> t = t' \<and> n = n'"
proof -
  have e: "m @ CHR ''|'' # p @ CHR ''|'' # t @ CHR ''|'' # n = m' @ CHR ''|'' # p' @ CHR ''|'' # t' @ CHR ''|'' # n'"
    using assms(1) by (simp add: gateway_canonical_string_def)
  from assms(2,3) have bars: "CHR ''|'' \<notin> set m" "CHR ''|'' \<notin> set p" "CHR ''|'' \<notin> set t"
    "CHR ''|'' \<notin> set m'" "CHR ''|'' \<notin> set p'" "CHR ''|'' \<notin> set t'" by auto
  note 1 = cut_at [OF e bars(1,4)]
  note 2 = cut_at [OF conjunct2 [OF 1] bars(2,5)]
  note 3 = cut_at [OF conjunct2 [OF 2] bars(3,6)]
  from 1 2 3 show ?thesis by blast
qed

text \<open>Two requests that differ in a field have different canonical strings, provided that
  method, path and time stamp have no vertical bar in them.\<close>

theorem gateway_canonical_string_distinct:
  assumes "(m, p, t, n) \<noteq> (m', p', t', n')"
    and "CHR ''|'' \<notin> set (m @ p @ t)" and "CHR ''|'' \<notin> set (m' @ p' @ t')"
  shows "gateway_canonical_string m p t n \<noteq> gateway_canonical_string m' p' t' n'"
  using canonical_eq [OF _ assms(2,3)] assms(1) by blast

theorem gateway_canonical_string_distinct_witness:
  "gateway_canonical_string ''GET'' ''/x'' ''1'' ''n'' \<noteq> gateway_canonical_string ''GET'' ''/x/1'' ''2'' ''n''"
  by (rule gateway_canonical_string_distinct) simp_all

text \<open>Without that condition two requests share a signature: the path and the time stamp of the
  one are cut differently in the other.\<close>

lemma gateway_canonical_string_collision:
  "gateway_compute_signature k ''GET'' ''/a'' ''1|2'' ''n'' = gateway_compute_signature k ''GET'' ''/a|1'' ''2'' ''n''"
  by (simp add: gateway_compute_signature_def gateway_canonical_string_def)

end
