(* ===== verification/Py_Float.thy ===== *)
theory Py_Float
  imports Prelude "HOL-Library.Log_Nat"
begin

text \<open>
  Python floats as the rational numbers they denote. An operation computes the exact result and
  rounds it to a significand of 53 bits, ties to even (\<open>fl\<close>), as IEEE 754 doubles do; the
  infinities, not-a-number, and the limits of the exponent are outside the model. The lemmas are
  those the program's comparisons rest on: rounding is monotone and leaves a double as it is.
\<close>

section \<open>Rounding\<close>

text \<open>The exponent of the leading bit of a positive rational.\<close>

definition top_bit :: "rat \<Rightarrow> int" where
  "top_bit x = (let (n, d) = quotient_of x; e = bitlen n - bitlen d
     in if 2 powi e \<le> x then e else e - 1)"

definition round_half_even :: "rat \<Rightarrow> int" where
  "round_half_even x = (let f = floor x; r = x - of_int f
     in if r < 1/2 then f else if r > 1/2 then f + 1 else if even f then f else f + 1)"

definition fl_pos :: "rat \<Rightarrow> rat" where
  "fl_pos x = (let u = 2 powi (top_bit x - 52) in of_int (round_half_even (x / u)) * u)"

definition fl :: "rat \<Rightarrow> rat" where
  "fl x = (if x = 0 then 0 else if 0 < x then fl_pos x else - fl_pos (- x))"

definition is_double :: "rat \<Rightarrow> bool" where
  "is_double x = (fl x = x)"

definition fadd :: "rat \<Rightarrow> rat \<Rightarrow> rat" where
  "fadd x y = fl (x + y)"

definition fmul :: "rat \<Rightarrow> rat \<Rightarrow> rat" where
  "fmul x y = fl (x * y)"

definition fdiv :: "rat \<Rightarrow> rat \<Rightarrow> rat" where
  "fdiv x y = fl (x / y)"

text \<open>The literal \<open>0.6\<close> is \<open>fl (6/10)\<close>.\<close>

section \<open>Facts\<close>

lemma powi_add: "(2::rat) powi (a + b) = 2 powi a * 2 powi b"
  by (simp add: power_int_add)

lemma bitlen_powi:
  assumes "0 < n"
  shows "2 powi (bitlen n - 1) \<le> (of_int n :: rat)" and "(of_int n :: rat) < 2 powi (bitlen n)"
proof -
  have ge: "1 \<le> bitlen n" using assms by (auto simp: bitlen_alt_def)
  have p: "(2::rat) powi k = of_int (2 ^ nat k)" if "0 \<le> k" for k
    using that by (simp add: power_int_def)
  from bitlen_bounds [OF assms]
  have "(of_int (2 ^ nat (bitlen n - 1)) :: rat) \<le> of_int n" and "(of_int n :: rat) < of_int (2 ^ nat (bitlen n))"
    by (metis of_int_le_iff, metis of_int_less_iff)
  with ge p [of "bitlen n - 1"] p [of "bitlen n"]
  show "2 powi (bitlen n - 1) \<le> (of_int n :: rat)" and "(of_int n :: rat) < 2 powi (bitlen n)"
    by simp_all
qed

lemma top_bit_bounds:
  assumes "0 < x"
  shows "2 powi (top_bit x) \<le> x" and "x < 2 powi (top_bit x + 1)"
proof -
  obtain n d where nd: "quotient_of x = (n, d)" by (cases "quotient_of x")
  then have d: "0 < d" and x: "x = of_int n / of_int d"
    by (auto dest: quotient_of_denom_pos quotient_of_div)
  with assms have n: "0 < n" by (simp add: zero_less_divide_iff)
  let ?e = "bitlen n - bitlen d"
  note bn = bitlen_powi [OF n] and bd = bitlen_powi [OF d]
  have pos: "(0::rat) < 2 powi k" for k by simp
  have "x * 2 powi (bitlen d - 1) \<le> x * of_int d" using bd(1) assms by (simp add: mult_left_mono)
  also have "\<dots> = of_int n" using d by (simp add: x)
  finally have "x * 2 powi (bitlen d - 1) < 2 powi (bitlen n)" using bn(2) by simp
  also have "\<dots> = 2 powi (?e + 1) * 2 powi (bitlen d - 1)" by (simp add: powi_add [symmetric])
  finally have hi: "x < 2 powi (?e + 1)" using pos by (simp add: mult_less_cancel_right)
  have "2 powi (?e - 1) * 2 powi (bitlen d) = (2::rat) powi (bitlen n - 1)"
    by (simp add: powi_add [symmetric] algebra_simps)
  also have "\<dots> \<le> of_int n" by (rule bn(1))
  also have "\<dots> = x * of_int d" using d by (simp add: x)
  also have "\<dots> \<le> x * 2 powi (bitlen d)" using bd(2) assms by (simp add: mult_left_mono)
  finally have lo: "2 powi (?e - 1) \<le> x" using pos [of "bitlen d"] by (simp add: mult_le_cancel_right)
  show "2 powi (top_bit x) \<le> x" and "x < 2 powi (top_bit x + 1)"
    using hi lo by (auto simp: top_bit_def nd Let_def)
qed

lemma top_bit_unique:
  assumes "2 powi e \<le> x" and "x < 2 powi (e + 1)"
  shows "top_bit x = e"
proof -
  have "0 < (2::rat) powi e" by simp
  with assms(1) have "0 < x" by linarith
  note t = top_bit_bounds [OF this]
  have lt: "a < b" if "(2::rat) powi a < 2 powi b" for a b
    using that power_int_increasing [of b a "2::rat"] by (meson leD linorder_not_less one_le_numeral)
  from lt [OF order.strict_trans1 [OF t(1) assms(2)]] lt [OF order.strict_trans1 [OF assms(1) t(2)]]
  show ?thesis by linarith
qed

lemma round_mono:
  assumes "x \<le> y"
  shows "round_half_even x \<le> round_half_even y"
proof -
  have f: "floor x \<le> floor y" using assms by (rule floor_mono)
  show ?thesis
  proof (cases "floor x = floor y")
    case True
    with assms show ?thesis by (auto simp: round_half_even_def Let_def)
  next
    case False
    with f have "floor x + 1 \<le> floor y" by linarith
    moreover have "round_half_even x \<le> floor x + 1" and "floor y \<le> round_half_even y"
      by (auto simp: round_half_even_def Let_def)
    ultimately show ?thesis by linarith
  qed
qed

lemma round_of_int [simp]: "round_half_even (of_int i) = i"
  by (simp add: round_half_even_def Let_def)

lemma fl_pos_bounds:
  assumes "0 < x"
  shows "2 powi (top_bit x) \<le> fl_pos x" and "fl_pos x \<le> 2 powi (top_bit x + 1)"
proof -
  let ?u = "2 powi (top_bit x - 52) :: rat"
  note t = top_bit_bounds [OF assms]
  have u: "0 < ?u" by simp
  have e: "2 powi (top_bit x) = of_int (2 ^ 52) * ?u" "2 powi (top_bit x + 1) = of_int (2 ^ 53) * ?u"
    using powi_add [of 52 "top_bit x - 52"] powi_add [of 53 "top_bit x - 52"]
    by (simp_all add: power_int_def algebra_simps)
  from t(1) e(1) u have "of_int (2 ^ 52) \<le> x / ?u" by (simp add: pos_le_divide_eq)
  from round_mono [OF this] have "2 ^ 52 \<le> round_half_even (x / ?u)" by (simp only: round_of_int)
  then have "(of_int (2 ^ 52) :: rat) \<le> of_int (round_half_even (x / ?u))" by (simp only: of_int_le_iff)
  with u e(1) show "2 powi (top_bit x) \<le> fl_pos x"
    by (simp add: fl_pos_def Let_def mult_right_mono)
  from t(2) e(2) u have "x / ?u \<le> of_int (2 ^ 53)" by (simp add: pos_divide_le_eq)
  from round_mono [OF this] have "round_half_even (x / ?u) \<le> 2 ^ 53" by (simp only: round_of_int)
  then have "(of_int (round_half_even (x / ?u)) :: rat) \<le> of_int (2 ^ 53)" by (simp only: of_int_le_iff)
  with u e(2) show "fl_pos x \<le> 2 powi (top_bit x + 1)"
    by (simp add: fl_pos_def Let_def mult_right_mono)
qed

lemma fl_pos_mono:
  assumes "0 < x" and "x \<le> y"
  shows "fl_pos x \<le> fl_pos y"
proof -
  from assms have "0 < y" by linarith
  have "(2::rat) powi (top_bit x) < 2 powi (top_bit y + 1)"
    using top_bit_bounds [OF assms(1)] top_bit_bounds [OF \<open>0 < y\<close>] assms(2) by linarith
  then have "top_bit x \<le> top_bit y"
    using power_int_increasing [of "top_bit y + 1" "top_bit x" "2::rat"] by force
  then consider "top_bit x = top_bit y" | "top_bit x + 1 \<le> top_bit y" by linarith
  then show ?thesis
  proof cases
    case 1
    have "x / 2 powi (top_bit y - 52) \<le> y / 2 powi (top_bit y - 52)"
      using assms(2) by (simp add: divide_right_mono)
    from round_mono [OF this] 1 show ?thesis
      by (simp add: fl_pos_def Let_def mult_right_mono)
  next
    case 2
    then have "(2::rat) powi (top_bit x + 1) \<le> 2 powi (top_bit y)" by (intro power_int_increasing) auto
    with fl_pos_bounds [OF assms(1)] fl_pos_bounds [OF \<open>0 < y\<close>] show ?thesis by linarith
  qed
qed

lemma fl_0 [simp]: "fl 0 = 0"
  by (simp add: fl_def)

lemma fl_pos_pos: "0 < x \<Longrightarrow> 0 < fl_pos x"
  using fl_pos_bounds(1) [of x] zero_less_power_int [of "2::rat" "top_bit x"] by linarith

lemma fl_mono: "x \<le> y \<Longrightarrow> fl x \<le> fl y"
  using fl_pos_mono [of x y] fl_pos_mono [of "- y" "- x"] fl_pos_pos [of y] fl_pos_pos [of "- x"]
  by (auto simp: fl_def)

lemma fl_nonneg [simp]: "0 \<le> x \<Longrightarrow> 0 \<le> fl x"
  using fl_mono [of 0 x] by simp

text \<open>Exact values: an integer multiple \<open>m\<close> of a power of two with \<open>m\<close> of at most 53 bits.\<close>

lemma fl_pos_exact:
  assumes "0 < m" and "m \<le> 2 ^ 53"
  shows "fl_pos (of_int m * 2 powi e) = of_int m * 2 powi e"
proof -
  let ?x = "of_int m * 2 powi e :: rat"
  have x: "0 < ?x" using assms(1) by simp
  have "?x \<le> 2 powi (53 + e)"
  proof -
    have "(of_int m :: rat) \<le> of_int (2 ^ 53)" using assms(2) by (simp only: of_int_le_iff)
    moreover have "(2::rat) powi (53 + e) = of_int (2 ^ 53) * 2 powi e"
      by (simp add: powi_add)
    ultimately show ?thesis by (simp add: mult_right_mono)
  qed
  show ?thesis
  proof (cases "m = 2 ^ 53")
    case True
    then have e: "?x = 2 powi (53 + e)" by (simp add: powi_add)
    have t: "top_bit (2 powi (53 + e)) = 53 + e"
      by (rule top_bit_unique) (simp_all add: powi_add add.assoc [symmetric])
    have m: "2 powi (53 + e) = of_int (2 ^ 52) * (2::rat) powi (53 + e - 52)"
      using powi_add [of 52 "53 + e - 52"] by simp
    then have "2 powi (53 + e) / (2::rat) powi (53 + e - 52) = of_int (2 ^ 52)" by simp
    then show ?thesis unfolding e fl_pos_def t Let_def by (simp only: round_of_int m)
  next
    case False
    with assms(2) have "m < 2 ^ 53" by simp
    have "top_bit ?x \<le> 52 + e"
    proof -
      have "(of_int m :: rat) < of_int (2 ^ 53)" using \<open>m < 2 ^ 53\<close> by (simp only: of_int_less_iff)
      then have "?x < of_int (2 ^ 53) * 2 powi e" by simp
      also have "\<dots> = 2 powi (53 + e)" by (simp add: powi_add)
      finally have "(2::rat) powi (top_bit ?x) < 2 powi (53 + e)" using top_bit_bounds(1) [OF x] by linarith
      then show ?thesis using power_int_increasing [of "53 + e" "top_bit ?x" "2::rat"] by force
    qed
    then obtain k where k: "e = top_bit ?x - 52 + int k" by (metis add.commute add_diff_cancel_left'
        diff_le_eq zle_iff_zadd)
    define u where u: "u = (2::rat) powi (top_bit ?x - 52)"
    then have "2 powi e = u * 2 ^ k" using k by (metis powi_add power_int_of_nat)
    moreover have "u \<noteq> 0" by (simp add: u)
    ultimately have *: "?x = of_int (m * 2 ^ k) * u" and "?x / u = of_int (m * 2 ^ k)" by simp_all
    then have "fl_pos ?x = of_int (m * 2 ^ k) * u"
      unfolding fl_pos_def Let_def u [symmetric] by (simp only: round_of_int)
    from trans [OF this * [symmetric]] show ?thesis .
  qed
qed

lemma is_double_of_nat: "n \<le> 2 ^ 53 \<Longrightarrow> fl (of_nat n) = of_nat n"
  using fl_pos_exact [of "int n" 0] by (cases "n = 0") (auto simp: fl_def nat_le_iff)

text \<open>A rounded value is a double.\<close>

lemma fl_pos_idem:
  assumes "0 < x"
  shows "fl_pos (fl_pos x) = fl_pos x"
proof -
  define u where u: "u = (2::rat) powi (top_bit x - 52)"
  define m where m: "m = round_half_even (x / u)"
  have e: "fl_pos x = of_int m * 2 powi (top_bit x - 52)" by (simp add: fl_pos_def Let_def m u)
  have "0 < u" by (simp add: u)
  have "0 < m"
    using fl_pos_pos [OF assms] \<open>0 < u\<close> unfolding e u [symmetric] by (simp add: zero_less_mult_iff)
  moreover have "m \<le> 2 ^ 53"
  proof -
    have "(2::rat) powi (top_bit x + 1) = of_int (2 ^ 53) * u"
      using powi_add [of 53 "top_bit x - 52"] by (simp add: u algebra_simps)
    with fl_pos_bounds(2) [OF assms] have "of_int m * u \<le> of_int (2 ^ 53) * u" by (simp add: e u)
    with \<open>0 < u\<close> have "(of_int m :: rat) \<le> of_int (2 ^ 53)" by simp
    then show ?thesis by (simp only: of_int_le_iff)
  qed
  ultimately show ?thesis unfolding e by (rule fl_pos_exact)
qed

lemma fl_idem [simp]: "fl (fl x) = fl x"
  using fl_pos_pos [of x] fl_pos_pos [of "- x"] fl_pos_idem [of x] fl_pos_idem [of "- x"]
  by (auto simp: fl_def)

lemma fadd_ge_right: "0 \<le> x \<Longrightarrow> is_double y \<Longrightarrow> y \<le> fadd x y"
  using fl_mono [of y "x + y"] by (simp add: fadd_def is_double_def)

lemma fadd_ge_left: "0 \<le> y \<Longrightarrow> is_double x \<Longrightarrow> x \<le> fadd x y"
  using fl_mono [of x "x + y"] by (simp add: fadd_def is_double_def)

lemma is_double_fadd [simp]: "is_double (fadd x y)"
  by (simp add: is_double_def fadd_def)

lemma is_double_fl [simp]: "is_double (fl x)"
  by (simp add: is_double_def)

lemma is_double_0 [simp]: "is_double 0"
  by (simp add: is_double_def)

lemma fadd_mono: "x \<le> x' \<Longrightarrow> y \<le> y' \<Longrightarrow> fadd x y \<le> fadd x' y'"
  by (simp add: fadd_def fl_mono add_mono)

lemma fadd_nonneg: "0 \<le> x \<Longrightarrow> 0 \<le> y \<Longrightarrow> 0 \<le> fadd x y"
  by (simp add: fadd_def)

end
