(* ===== verification/Py_Json.thy ===== *)
theory Py_Json
  imports Py_Str Py_Float
begin

text \<open>
  JSON values as the program handles them after decoding, truth and text of a value, and
  \<open>json.dumps\<close> with its separators and \<open>sort_keys\<close>. The text of a float (\<open>repr\<close>, the
  shortest digits that read back) is a parameter; no float reaches a text that is compared.
\<close>

datatype json =
    JNull
  | JBool bool
  | JInt int
  | JFloat rat
  | JStr string
  | JArr "json list"
  | JObj "(string \<times> json) list"

text \<open>\<open>bool(v)\<close>.\<close>

fun truthy :: "json \<Rightarrow> bool" where
  "truthy JNull = False"
| "truthy (JBool b) = b"
| "truthy (JInt i) = (i \<noteq> 0)"
| "truthy (JFloat x) = (x \<noteq> 0)"
| "truthy (JStr s) = (s \<noteq> [])"
| "truthy (JArr xs) = (xs \<noteq> [])"
| "truthy (JObj d) = (d \<noteq> [])"

definition jobj_get :: "json \<Rightarrow> string \<Rightarrow> json option" where
  "jobj_get v k = (case v of JObj d \<Rightarrow> dict_get d k | _ \<Rightarrow> None)"

text \<open>\<open>iter(v)\<close> of a decoded value: a dictionary gives its keys, a text its characters.\<close>

definition json_iter :: "json \<Rightarrow> json list option" where
  "json_iter v = (case v of JArr xs \<Rightarrow> Some xs | JObj d \<Rightarrow> Some (map (JStr \<circ> fst) d)
     | JStr s \<Rightarrow> Some (map (\<lambda>c. JStr [c]) s) | _ \<Rightarrow> None)"

section \<open>json.dumps\<close>

definition hex4 :: "nat \<Rightarrow> string" where
  "hex4 n = map (\<lambda>d. if d < 10 then char_of (48 + d) else char_of (87 + d))
     [n div 4096 mod 16, n div 256 mod 16, n div 16 mod 16, n mod 16]"

text \<open>\<open>ensure_ascii\<close>: everything outside the range from space to tilde is escaped.\<close>

definition escape_char :: "char \<Rightarrow> string" where
  "escape_char c =
     (if c = CHR 0x22 then [CHR 0x5C, CHR 0x22]
      else if c = CHR 0x5C then [CHR 0x5C, CHR 0x5C]
      else if c = CHR 0x0A then [CHR 0x5C, CHR ''n'']
      else if c = CHR 0x0D then [CHR 0x5C, CHR ''r'']
      else if c = CHR 0x09 then [CHR 0x5C, CHR ''t'']
      else if c = CHR 0x08 then [CHR 0x5C, CHR ''b'']
      else if c = CHR 0x0C then [CHR 0x5C, CHR ''f'']
      else if 32 \<le> cp c \<and> cp c < 127 then [c]
      else [CHR 0x5C, CHR ''u''] @ hex4 (cp c))"

definition quote_str :: "string \<Rightarrow> string" where
  "quote_str s = [CHR 0x22] @ concat (map escape_char s) @ [CHR 0x22]"

record dump_style =
  item_sep :: string
  key_sep :: string
  sort_keys :: bool
  float_repr :: "rat \<Rightarrow> string"

definition sorted_items :: "(string \<times> 'a) list \<Rightarrow> (string \<times> 'a) list" where
  "sorted_items d = sort_key fst d"

lemma set_sorted_items [simp]: "set (sorted_items d) = set d"
  by (simp add: sorted_items_def)


fun dumps :: "dump_style \<Rightarrow> json \<Rightarrow> string" where
  "dumps st JNull = ''null''"
| "dumps st (JBool b) = (if b then ''true'' else ''false'')"
| "dumps st (JInt i) = str_int i"
| "dumps st (JFloat x) = float_repr st x"
| "dumps st (JStr s) = quote_str s"
| "dumps st (JArr xs) = ''['' @ join_str (item_sep st) (map (dumps st) xs) @ '']''"
| "dumps st (JObj d) =
     ''{'' @ join_str (item_sep st)
        (map (\<lambda>(k, s). quote_str k @ key_sep st @ s)
          ((if sort_keys st then sorted_items else (\<lambda>d. d)) (map (\<lambda>(k, v). (k, dumps st v)) d)))
     @ ''}''"

text \<open>\<open>json.dumps(v)\<close>, and \<open>json.dumps(v, sort_keys=True, separators=(",", ":"))\<close>.\<close>

definition default_style :: "(rat \<Rightarrow> string) \<Rightarrow> dump_style" where
  "default_style fr = \<lparr>item_sep = '', '', key_sep = '': '', sort_keys = False, float_repr = fr\<rparr>"

definition canonical_style :: "(rat \<Rightarrow> string) \<Rightarrow> dump_style" where
  "canonical_style fr = \<lparr>item_sep = '','', key_sep = '':'', sort_keys = True, float_repr = fr\<rparr>"

section \<open>repr and str\<close>

definition printable :: "char \<Rightarrow> bool" where
  "printable c = (let n = cp c in 32 \<le> n \<and> n \<le> 126 \<or> 161 \<le> n \<and> n \<noteq> 173)"

definition repr_char :: "char \<Rightarrow> char \<Rightarrow> string" where
  "repr_char q c =
     (if c = q \<or> c = CHR 0x5C then [CHR 0x5C, c]
      else if c = CHR 0x0A then [CHR 0x5C, CHR ''n'']
      else if c = CHR 0x0D then [CHR 0x5C, CHR ''r'']
      else if c = CHR 0x09 then [CHR 0x5C, CHR ''t'']
      else if printable c then [c]
      else [CHR 0x5C, CHR ''x''] @ drop 2 (hex4 (cp c)))"

definition repr_str :: "string \<Rightarrow> string" where
  "repr_str s =
     (let q = (if CHR 0x27 \<in> set s \<and> CHR 0x22 \<notin> set s then CHR 0x22 else CHR 0x27)
      in [q] @ concat (map (repr_char q) s) @ [q])"

definition repr_list :: "string list \<Rightarrow> string" where
  "repr_list xs = ''['' @ join_str '', '' (map repr_str xs) @ '']''"

text \<open>\<open>repr(v)\<close> and \<open>str(v)\<close> of a decoded value.\<close>

fun json_repr :: "(rat \<Rightarrow> string) \<Rightarrow> json \<Rightarrow> string" where
  "json_repr fr JNull = ''None''"
| "json_repr fr (JBool b) = (if b then ''True'' else ''False'')"
| "json_repr fr (JInt i) = str_int i"
| "json_repr fr (JFloat x) = fr x"
| "json_repr fr (JStr s) = repr_str s"
| "json_repr fr (JArr xs) = ''['' @ join_str '', '' (map (json_repr fr) xs) @ '']''"
| "json_repr fr (JObj d) =
     ''{'' @ join_str '', '' (map (\<lambda>(k, v). repr_str k @ '': '' @ json_repr fr v) d) @ ''}''"

definition json_str :: "(rat \<Rightarrow> string) \<Rightarrow> json \<Rightarrow> string" where
  "json_str fr v = (case v of JStr s \<Rightarrow> s | _ \<Rightarrow> json_repr fr v)"

end
