(* ===== verification/Exceptions.thy ===== *)
theory Exceptions
  imports Schemas Py_Json
begin

text \<open>
  The domain exceptions (src/fastapi\_backend/app/core/exceptions.py) as a datatype with a
  constructor per class, the text of each, and the handlers that turn them into the JSON error
  envelope (src/fastapi\_backend/app/core/error\_handlers.py).
\<close>

record policy_evaluation_result =
  per_policy_id :: string
  per_effect :: policy_effect
  per_decision :: string
  per_description :: "string option"

datatype domain_error =
    IntentNotFoundError string string
  | ServiceNotFoundError string
  | TenantNotAuthorizedError string string
  | ProviderError string
  | TenantIdMissingError
  | IntentMappingAlreadyExistsError string
  | IntentMappingNotFoundError string
  | PolicyViolationError string string "policy_evaluation_result list" "nat option" "string list option"
  | PolicySyncError string "string option"
  | PolicyEvaluationError string "string option"
  | QuotaExceededError string
  | SecurityViolationError string "string list" rat "nat option" "string list option"

text \<open>What a handler may raise: a domain error, FastAPI's \<open>HTTPException\<close> with its status
  and detail, or an exception of the runtime.\<close>

datatype exn = Domain domain_error | HTTPException nat json | Runtime py_exc

section \<open>The text of an exception\<close>

fun exc_str :: "(rat \<Rightarrow> string) \<Rightarrow> domain_error \<Rightarrow> string" where
  "exc_str fr (IntentNotFoundError nm ver) =
     ''Intent '' @ [CHR 0x27] @ nm @ [CHR 0x27] @ '' not found in taxonomy v'' @ ver"
| "exc_str fr (ServiceNotFoundError s) = ''Service '' @ [CHR 0x27] @ s @ [CHR 0x27] @ '' not found''"
| "exc_str fr (TenantNotAuthorizedError t s) =
     ''Tenant '' @ [CHR 0x27] @ t @ [CHR 0x27] @ '' not authorized for service '' @ [CHR 0x27] @ s @ [CHR 0x27]"
| "exc_str fr (ProviderError m) = m"
| "exc_str fr TenantIdMissingError = ''Missing X-Tenant-ID in token claims''"
| "exc_str fr (IntentMappingAlreadyExistsError nm) =
     ''Intent '' @ [CHR 0x27] @ nm @ [CHR 0x27] @ '' already exists''"
| "exc_str fr (IntentMappingNotFoundError i) = ''Mapping not found''"
| "exc_str fr (PolicyViolationError p d rs n tys) =
     ''Policy violation: '' @ p @ '' - '' @ (if d = [] then ''No description provided'' else d)"
| "exc_str fr (PolicySyncError r d) = ''Policy sync to OPA failed: '' @ r"
| "exc_str fr (PolicyEvaluationError r d) = ''Policy evaluation failed: '' @ r"
| "exc_str fr (QuotaExceededError t) = ''Token quota exceeded for tenant '' @ [CHR 0x27] @ t @ [CHR 0x27]"
| "exc_str fr (SecurityViolationError h ps sc n tys) =
     ''Security violation: prompt blocked (score='' @ fr sc @ '', patterns='' @ repr_list ps @ '')''"

section \<open>The error handlers\<close>

fun exception_map :: "domain_error \<Rightarrow> nat \<times> string" where
  "exception_map TenantIdMissingError = (401, ''TENANT_ID_MISSING'')"
| "exception_map (TenantNotAuthorizedError _ _) = (403, ''TENANT_NOT_AUTHORIZED'')"
| "exception_map (PolicyViolationError _ _ _ _ _) = (403, ''POLICY_VIOLATION'')"
| "exception_map (SecurityViolationError _ _ _ _ _) = (400, ''SECURITY_VIOLATION'')"
| "exception_map (QuotaExceededError _) = (429, ''QUOTA_EXCEEDED'')"
| "exception_map (IntentNotFoundError _ _) = (404, ''INTENT_NOT_FOUND'')"
| "exception_map (ServiceNotFoundError _) = (404, ''SERVICE_NOT_FOUND'')"
| "exception_map (IntentMappingNotFoundError _) = (404, ''MAPPING_NOT_FOUND'')"
| "exception_map (IntentMappingAlreadyExistsError _) = (409, ''INTENT_ALREADY_EXISTS'')"
| "exception_map (ProviderError _) = (502, ''PROVIDER_ERROR'')"
| "exception_map (PolicySyncError _ _) = (503, ''POLICY_SYNC_ERROR'')"
| "exception_map (PolicyEvaluationError _ _) = (503, ''POLICY_EVALUATION_ERROR'')"

record http_response =
  http_status :: nat
  http_body :: json

definition dict_update :: "(string \<times> json) list \<Rightarrow> (string \<times> json) list \<Rightarrow> (string \<times> json) list" where
  "dict_update d e = foldl (\<lambda>d (k, v). dict_set d k v) d e"

definition build_error_response :: "nat \<Rightarrow> string \<Rightarrow> string \<Rightarrow> string option \<Rightarrow> string
    \<Rightarrow> (string \<times> json) list \<Rightarrow> http_response" where
  "build_error_response status code message correlation_id now extra =
     \<lparr>http_status = status,
      http_body = JObj [(''error'', JObj (dict_update
        [(''code'', JStr code), (''message'', JStr message),
         (''request_id'', (case correlation_id of None \<Rightarrow> JNull | Some i \<Rightarrow> JStr i)),
         (''timestamp'', JStr now)] extra))]\<rparr>"

definition opt_nat :: "nat option \<Rightarrow> json" where
  "opt_nat n = (case n of None \<Rightarrow> JNull | Some k \<Rightarrow> JInt (int k))"

fun error_extra :: "domain_error \<Rightarrow> (string \<times> json) list" where
  "error_extra (PolicyViolationError p d rs n tys) =
     (''description'', JStr d) #
     (case tys of Some (t # ts) \<Rightarrow> [(''detected_pii_types'', JArr (map JStr (t # ts))), (''pii_count'', opt_nat n)]
      | _ \<Rightarrow> [])"
| "error_extra (SecurityViolationError h ps sc n tys) =
     [(''matched_patterns'', JArr (map JStr ps)), (''score'', JFloat sc)]"
| "error_extra _ = []"

definition domain_exception_handler :: "(rat \<Rightarrow> string) \<Rightarrow> string option \<Rightarrow> string \<Rightarrow> domain_error
    \<Rightarrow> http_response" where
  "domain_exception_handler fr correlation_id now e =
     (let (status, code) = exception_map e
      in build_error_response status code (exc_str fr e) correlation_id now (error_extra e))"

definition generic_exception_handler :: "string option \<Rightarrow> string \<Rightarrow> py_exc \<Rightarrow> http_response" where
  "generic_exception_handler correlation_id now e =
     build_error_response 500 ''INTERNAL_SERVER_ERROR''
       ''An unexpected error occurred. Please contact support.'' correlation_id now []"

text \<open>The member \<open>k\<close> of the envelope of a response.\<close>

definition envelope :: "http_response \<Rightarrow> string \<Rightarrow> json option" where
  "envelope r k = (case jobj_get (http_body r) ''error'' of Some e \<Rightarrow> jobj_get e k | None \<Rightarrow> None)"

text \<open>Every domain error gets the envelope the module documents: its code, its own text, the
  correlation id and the time stamp, under a client or gateway status that is never the fallback
  500, and the extra members never overwrite the standard ones.\<close>

theorem domain_exception_handler_envelope:
  "envelope (domain_exception_handler fr cid now e) ''code'' = Some (JStr (snd (exception_map e)))
   \<and> envelope (domain_exception_handler fr cid now e) ''message'' = Some (JStr (exc_str fr e))
   \<and> envelope (domain_exception_handler fr cid now e) ''request_id''
       = Some (case cid of None \<Rightarrow> JNull | Some i \<Rightarrow> JStr i)
   \<and> envelope (domain_exception_handler fr cid now e) ''timestamp'' = Some (JStr now)
   \<and> http_status (domain_exception_handler fr cid now e) \<in> {400, 401, 403, 404, 409, 429, 502, 503}"
proof -
  have extra: "set (map fst (error_extra e)) \<subseteq> {''description'', ''detected_pii_types'', ''pii_count'',
      ''matched_patterns'', ''score''}"
    by (cases e rule: error_extra.cases) (auto split: option.splits list.splits)
  have upd: "dict_get (dict_update d xs) k = dict_get d k" if "k \<notin> set (map fst xs)" for d xs k
    using that unfolding dict_update_def
    by (induction xs arbitrary: d) (auto simp: dict_get_set)
  have k: "dict_get (dict_update d (error_extra e)) k = dict_get d k"
    if "k \<in> {''code'', ''message'', ''request_id'', ''timestamp''}" for d k
    using that extra by (intro upd) auto
  have "fst (exception_map e) \<in> {400, 401, 403, 404, 409, 429, 502, 503}"
    by (cases e) simp_all
  then show ?thesis
    by (simp add: envelope_def jobj_get_def domain_exception_handler_def build_error_response_def k
        case_prod_beta)
qed

end
