(* ===== verification/Policy.thy ===== *)
theory Policy
  imports Exceptions Py_Hash
begin

text \<open>
  The policy service (src/fastapi\_backend/app/services/policy\_service.py): canonical contexts, the
  cache of policies and its synchronisation with Open Policy Agent, the evaluation over OPA and
  the embedded evaluator. OPA is a parameter, what its PUT and POST answer; its policy
  (src/opa/policies/orchestrator.rego) is modelled next to the evaluator, so that the two can be compared.
\<close>

section \<open>Contexts\<close>

definition cloud_aliases :: "string list" where
  "cloud_aliases = [''cloud'', ''saas'', ''managed'', ''hosted'']"

definition onprem_aliases :: "string list" where
  "onprem_aliases = [''on-prem'', ''onprem'', ''on_prem'', ''on premises'', ''self-hosted'']"

definition canonical_service_type :: "string option \<Rightarrow> string" where
  "canonical_service_type v =
     (case v of
        None \<Rightarrow> ''on-prem''
      | Some s \<Rightarrow>
          (let raw = replace_char (CHR ''_'') ''-'' (replace_char (CHR '' '') ''-'' (lower (strip s)))
           in if raw \<in> set cloud_aliases \<or> raw = ''cloud'' then ''cloud''
              else if raw \<in> set onprem_aliases \<or> raw = ''on-prem'' then ''on-prem''
              else if raw \<noteq> [] then raw else ''on-prem''))"

text \<open>A context; \<open>None\<close> stands for a missing member and for Python's \<open>None\<close>, which the code
  treats alike.\<close>

record policy_context =
  ctx_sensitivity :: "string option"
  ctx_tenant :: "string option"
  ctx_service_type :: "string option"

definition canonicalize_context :: "policy_context \<Rightarrow> policy_context" where
  "canonicalize_context ctx =
     ctx\<lparr>ctx_service_type := Some (canonical_service_type (ctx_service_type ctx))\<rparr>"

section \<open>The embedded evaluator\<close>

definition service_type_of :: "policy_context \<Rightarrow> string" where
  "service_type_of ctx = (case ctx_service_type ctx of None \<Rightarrow> ''on-prem'' | Some s \<Rightarrow> s)"

definition should_block :: "policy_schema \<Rightarrow> policy_context \<Rightarrow> bool" where
  "should_block pol ctx =
     (let service_type = service_type_of ctx
      in if effect pol = DENY_ALL then True
         else if effect pol = DENY_CLOUD \<and> service_type = ''cloud'' then True
         else if effect pol = ALLOW_ONPREM_ONLY \<and> service_type \<noteq> ''on-prem'' then True
         else False)"

definition policy_matches :: "policy_schema \<Rightarrow> policy_context \<Rightarrow> bool" where
  "policy_matches pol ctx =
     (let c = condition pol
      in if (case cond_sensitivity c of None \<Rightarrow> False
             | Some s \<Rightarrow> ctx_sensitivity ctx \<noteq> Some (sensitivity_value s)) then False
         else if (case cond_tenant c of None \<Rightarrow> False | Some t \<Rightarrow> ctx_tenant ctx \<noteq> Some t) then False
         else True)"

definition evaluation :: "policy_schema \<Rightarrow> string \<Rightarrow> policy_evaluation_result" where
  "evaluation pol decision = \<lparr>per_policy_id = policy_id pol, per_effect = effect pol,
     per_decision = decision, per_description = description pol\<rparr>"

definition description_or_default :: "string option \<Rightarrow> string" where
  "description_or_default d = (case d of None \<Rightarrow> ''No description provided''
     | Some s \<Rightarrow> (if s = [] then ''No description provided'' else s))"

definition violation :: "policy_schema \<Rightarrow> policy_evaluation_result list \<Rightarrow> exn" where
  "violation pol results =
     Domain (PolicyViolationError (policy_id pol) (description_or_default (description pol)) results None None)"

fun evaluate_local :: "policy_schema list \<Rightarrow> policy_context \<Rightarrow> policy_evaluation_result list
    \<Rightarrow> exn + policy_evaluation_result list" where
  "evaluate_local [] ctx results = Inr results"
| "evaluate_local (pol # pols) ctx results =
     (if \<not> policy_matches pol ctx then evaluate_local pols ctx results
      else if should_block pol ctx then Inl (violation pol (results @ [evaluation pol ''DENY'']))
      else evaluate_local pols ctx (results @ [evaluation pol ''ALLOW'']))"

section \<open>Serialisation and hash\<close>

definition opt_str :: "string option \<Rightarrow> json" where
  "opt_str s = (case s of None \<Rightarrow> JNull | Some t \<Rightarrow> JStr t)"

definition condition_json :: "policy_condition \<Rightarrow> json" where
  "condition_json c = JObj
     [(''sensitivity'', opt_str (map_option sensitivity_value (cond_sensitivity c))),
      (''tenant'', opt_str (cond_tenant c))]"

definition serialize_policy :: "policy_schema \<Rightarrow> json" where
  "serialize_policy pol = JObj
     [(''id'', JStr (policy_id pol)), (''description'', opt_str (description pol)),
      (''effect'', JStr (effect_value (effect pol))), (''condition'', condition_json (condition pol))]"

definition canonical_policies :: "policy_schema list \<Rightarrow> string \<Rightarrow> string" where
  "canonical_policies pols version =
     dumps (canonical_style (\<lambda>_. []))
       (JObj [(''version'', JStr version),
              (''items'', JArr (map serialize_policy (sort_key policy_id pols)))])"

definition compute_policy_hash :: "policy_schema list \<Rightarrow> string \<Rightarrow> string" where
  "compute_policy_hash pols version = sha256_hex (canonical_policies pols version)"

section \<open>The service\<close>

record opa_settings =
  opa_enabled :: bool
  opa_strict_sync :: bool
  opa_allow_local_fallback :: bool
  opa_fail_closed :: bool

record policy_service =
  policies :: "policy_schema list"
  policy_version :: string
  local_hash :: "string option"
  last_pushed_hash :: "string option"
  last_pushed_version :: "string option"
  last_sync_ok :: "bool option"
  last_sync_at :: "string option"
  last_sync_error :: "string option"

definition init_policy_service :: policy_service where
  "init_policy_service = \<lparr>policies = [], policy_version = ''1.0.0'', local_hash = None,
     last_pushed_hash = None, last_pushed_version = None, last_sync_ok = None, last_sync_at = None,
     last_sync_error = None\<rparr>"

definition is_in_sync :: "policy_service \<Rightarrow> bool" where
  "is_in_sync st = (last_sync_ok st = Some True \<and> local_hash st \<noteq> None \<and> local_hash st = last_pushed_hash st)"

definition opt_bool :: "bool option \<Rightarrow> json" where
  "opt_bool b = (case b of None \<Rightarrow> JNull | Some c \<Rightarrow> JBool c)"

definition get_status :: "opa_settings \<Rightarrow> policy_service \<Rightarrow> json" where
  "get_status cfg st = JObj
     [(''opa_enabled'', JBool (opa_enabled cfg)), (''opa_strict_sync'', JBool (opa_strict_sync cfg)),
      (''opa_allow_local_fallback'', JBool (opa_allow_local_fallback cfg)),
      (''opa_fail_closed'', JBool (opa_fail_closed cfg)),
      (''policy_count'', JInt (int (length (policies st)))), (''version'', JStr (policy_version st)),
      (''local_hash'', opt_str (local_hash st)), (''last_pushed_hash'', opt_str (last_pushed_hash st)),
      (''last_pushed_version'', opt_str (last_pushed_version st)),
      (''last_sync_ok'', opt_bool (last_sync_ok st)), (''last_sync_at'', opt_str (last_sync_at st)),
      (''last_sync_error'', opt_str (last_sync_error st)),
      (''in_sync'', JBool (last_sync_ok st = Some True \<and> local_hash st \<noteq> None
         \<and> local_hash st = last_pushed_hash st))]"

definition serialize_policy_bundle :: "policy_service \<Rightarrow> json" where
  "serialize_policy_bundle st = JObj
     [(''items'', JArr (map serialize_policy (policies st))),
      (''version'', JStr (policy_version st)),
      (''hash'', JStr (case local_hash st of
          None \<Rightarrow> compute_policy_hash (policies st) (policy_version st)
        | Some h \<Rightarrow> (if h = [] then compute_policy_hash (policies st) (policy_version st) else h)))]"

text \<open>A row of the policy table, and the row as a \<open>PolicySchema\<close>: its condition must be an
  object with no members but the two of the schema, its effect one of the four.\<close>

record governance_policy =
  gp_id :: string
  gp_description :: "string option"
  gp_condition :: json
  gp_effect :: string
  gp_is_active :: bool
  gp_version :: string
  gp_created_at :: nat

definition parse_effect :: "string \<Rightarrow> policy_effect option" where
  "parse_effect s =
     (if s = ''allow_onprem_only'' then Some ALLOW_ONPREM_ONLY
      else if s = ''deny_cloud'' then Some DENY_CLOUD
      else if s = ''allow_all'' then Some ALLOW_ALL
      else if s = ''deny_all'' then Some DENY_ALL else None)"

definition parse_sensitivity :: "json option \<Rightarrow> sensitivity_level option option" where
  "parse_sensitivity v =
     (case v of
        None \<Rightarrow> Some None
      | Some JNull \<Rightarrow> Some None
      | Some (JStr s) \<Rightarrow> (case sensitivity_of s of Inl _ \<Rightarrow> None | Inr l \<Rightarrow> Some (Some l))
      | _ \<Rightarrow> None)"

definition parse_opt_str :: "json option \<Rightarrow> string option option" where
  "parse_opt_str v =
     (case v of None \<Rightarrow> Some None | Some JNull \<Rightarrow> Some None | Some (JStr s) \<Rightarrow> Some (Some s) | _ \<Rightarrow> None)"

definition parse_condition :: "json \<Rightarrow> policy_condition option" where
  "parse_condition v =
     (case v of
        JObj d \<Rightarrow>
          (if \<not> list_all (\<lambda>(k, _). k = ''sensitivity'' \<or> k = ''tenant'') d then None
           else (case parse_sensitivity (dict_get d ''sensitivity'') of
               None \<Rightarrow> None
             | Some sl \<Rightarrow> (case parse_opt_str (dict_get d ''tenant'') of
                   None \<Rightarrow> None
                 | Some t \<Rightarrow> Some \<lparr>cond_sensitivity = sl, cond_tenant = t\<rparr>)))
      | _ \<Rightarrow> None)"

definition parse_policy :: "governance_policy \<Rightarrow> policy_schema option" where
  "parse_policy p =
     (case parse_condition (gp_condition p) of
        None \<Rightarrow> None
      | Some c \<Rightarrow> (case parse_effect (gp_effect p) of
            None \<Rightarrow> None
          | Some e \<Rightarrow> Some \<lparr>policy_id = gp_id p, description = gp_description p, condition = c, effect = e\<rparr>))"

fun load_policies :: "governance_policy list \<Rightarrow> policy_schema list" where
  "load_policies [] = []"
| "load_policies (p # ps) =
     (if \<not> gp_is_active p then load_policies ps
      else (case parse_policy p of None \<Rightarrow> load_policies ps | Some q \<Rightarrow> q # load_policies ps))"

text \<open>What the PUT of the bundle meets: a transport error, or a status and a body.\<close>

datatype http_reply = Transport_Error string | Http_Reply nat string

definition push_policies_to_opa :: "(json \<Rightarrow> http_reply) \<Rightarrow> policy_service \<Rightarrow> string + unit" where
  "push_policies_to_opa put st =
     (case put (serialize_policy_bundle st) of
        Transport_Error m \<Rightarrow> Inl (''OPA data push transport error: '' @ m)
      | Http_Reply code body \<Rightarrow>
          (if 400 \<le> code
           then Inl (''OPA data push returned HTTP '' @ str_nat code @ '': '' @ take 300 body)
           else Inr ()))"

record sync_stats =
  total_in_db :: nat
  active_synced :: nat
  stats_version :: string
  stats_hash :: "string option"
  stats_opa :: string
  stats_in_sync :: bool
  stats_error :: "string option"

text \<open>The first half of the sync: the cache, the version and the hash from the rows.\<close>

definition refresh_cache :: "governance_policy list \<Rightarrow> policy_service \<Rightarrow> policy_service" where
  "refresh_cache db_policies st =
     (let st1 = st\<lparr>policies := load_policies db_policies,
                   policy_version := (case db_policies of [] \<Rightarrow> policy_version st | p # _ \<Rightarrow> gp_version p)\<rparr>
      in st1\<lparr>local_hash := Some (compute_policy_hash (policies st1) (policy_version st1))\<rparr>)"

definition sync_from_db :: "opa_settings \<Rightarrow> (json \<Rightarrow> http_reply) \<Rightarrow> string \<Rightarrow> governance_policy list
    \<Rightarrow> policy_service \<Rightarrow> policy_service \<times> (exn + sync_stats)" where
  "sync_from_db cfg put now db_policies st =
     (let st2 = refresh_cache db_policies st;
          (st3, opa_status, push_error) =
            (if opa_enabled cfg then
               (case push_policies_to_opa put st2 of
                  Inr _ \<Rightarrow> (st2\<lparr>last_pushed_hash := local_hash st2,
                               last_pushed_version := Some (policy_version st2),
                               last_sync_ok := Some True, last_sync_error := None\<rparr>, ''synced'', None)
                | Inl m \<Rightarrow> (st2\<lparr>last_sync_ok := Some False, last_sync_error := Some m\<rparr>, ''failed'', Some m))
             else (st2, ''disabled'', None));
          st4 = st3\<lparr>last_sync_at := Some now\<rparr>
      in if push_error \<noteq> None \<and> push_error \<noteq> Some [] \<and> opa_strict_sync cfg
         then (st4, Inl (Domain (PolicySyncError ''opa_push_failed'' push_error)))
         else (st4, Inr
           \<lparr>total_in_db = length db_policies, active_synced = length (policies st4),
            stats_version = policy_version st4, stats_hash = local_hash st4, stats_opa = opa_status,
            stats_in_sync = (last_sync_ok st4 = Some True \<and> local_hash st4 = last_pushed_hash st4),
            stats_error = push_error\<rparr>))"

section \<open>Evaluation over OPA\<close>

text \<open>What the POST of a context meets: an exception of the client, or a status, the text of the
  body and the body decoded (the text of the decoder's error when it is no JSON).\<close>

datatype opa_reply = Opa_Error string | Opa_Reply nat string "string + json"

definition evaluation_error :: "string \<Rightarrow> string \<Rightarrow> exn" where
  "evaluation_error reason detail = Domain (PolicyEvaluationError reason (Some detail))"

definition type_name :: "json \<Rightarrow> string" where
  "type_name v = (case v of JNull \<Rightarrow> ''NoneType'' | JBool _ \<Rightarrow> ''bool'' | JInt _ \<Rightarrow> ''int''
     | JFloat _ \<Rightarrow> ''float'' | JStr _ \<Rightarrow> ''str'' | JArr _ \<Rightarrow> ''list'' | JObj _ \<Rightarrow> ''dict'')"

definition coerce_block_ids :: "(rat \<Rightarrow> string) \<Rightarrow> json option \<Rightarrow> exn + string list" where
  "coerce_block_ids fr raw =
     (case raw of
        None \<Rightarrow> Inr []
      | Some JNull \<Rightarrow> Inr []
      | Some (JObj d) \<Rightarrow> Inr (map fst (filter (\<lambda>(k, v). truthy v) d))
      | Some (JArr xs) \<Rightarrow> Inr (map (json_str fr) xs)
      | Some v \<Rightarrow> Inl (evaluation_error ''opa_result_block_invalid_type'' (''got '' @ type_name v)))"

definition parse_opa_result :: "(rat \<Rightarrow> string) \<Rightarrow> json \<Rightarrow> exn + bool \<times> string list" where
  "parse_opa_result fr payload =
     (case payload of
        JObj d \<Rightarrow>
          (case dict_get d ''result'' of
             None \<Rightarrow> Inl (evaluation_error ''opa_response_missing_result'' (''keys='' @ repr_list (map fst d)))
           | Some (JObj r) \<Rightarrow>
               (case dict_get r ''allow'' of
                  None \<Rightarrow> Inl (evaluation_error ''opa_result_missing_field'' ''missing=allow'')
                | Some (JBool allow) \<Rightarrow>
                    (case coerce_block_ids fr (dict_get r ''block'') of
                       Inl e \<Rightarrow> Inl e | Inr ids \<Rightarrow> Inr (allow, ids))
                | Some v \<Rightarrow> Inl (evaluation_error ''opa_result_allow_not_bool'' (''got '' @ type_name v)))
           | Some v \<Rightarrow> Inl (evaluation_error ''opa_result_not_object'' (''got '' @ type_name v)))
      | v \<Rightarrow> Inl (evaluation_error ''opa_response_not_object'' (''got '' @ type_name v)))"

text \<open>The loop over the cached policies, and the policies it denies.\<close>

fun opa_evaluation :: "policy_schema list \<Rightarrow> string list \<Rightarrow> policy_context \<Rightarrow> policy_evaluation_result list" where
  "opa_evaluation [] ids ctx = []"
| "opa_evaluation (pol # pols) ids ctx =
     (if policy_id pol \<in> set ids then evaluation pol ''DENY'' # opa_evaluation pols ids ctx
      else if policy_matches pol ctx then evaluation pol ''ALLOW'' # opa_evaluation pols ids ctx
      else opa_evaluation pols ids ctx)"

definition opa_denied :: "policy_schema list \<Rightarrow> string list \<Rightarrow> policy_schema list" where
  "opa_denied pols ids = filter (\<lambda>pol. policy_id pol \<in> set ids) pols"

definition evaluate_with_opa :: "(rat \<Rightarrow> string) \<Rightarrow> (policy_context \<Rightarrow> opa_reply) \<Rightarrow> policy_schema list
    \<Rightarrow> policy_context \<Rightarrow> exn + policy_evaluation_result list" where
  "evaluate_with_opa fr post pols ctx =
     (case post ctx of
        Opa_Error m \<Rightarrow> Inl (Runtime (RuntimeError m))
      | Opa_Reply code text_body decoded \<Rightarrow>
          (if 400 \<le> code
           then Inl (Runtime (RuntimeError (''OPA returned HTTP '' @ str_nat code @ '': '' @ take 300 text_body)))
           else (case decoded of
               Inl m \<Rightarrow> Inl (evaluation_error ''opa_invalid_json'' m)
             | Inr data \<Rightarrow>
                 (case parse_opa_result fr data of
                    Inl e \<Rightarrow> Inl e
                  | Inr (allow, ids) \<Rightarrow>
                      (case opa_denied pols ids of
                         first # _ \<Rightarrow>
                           (if \<not> allow then Inl (violation first (opa_evaluation pols ids ctx))
                            else Inr (opa_evaluation pols ids ctx))
                       | [] \<Rightarrow> Inr (opa_evaluation pols ids ctx))))))"

definition runtime_text :: "py_exc \<Rightarrow> string" where
  "runtime_text e = (case e of RuntimeError m \<Rightarrow> m | _ \<Rightarrow> [])"

definition show_hash :: "string option \<Rightarrow> string" where
  "show_hash h = (case h of None \<Rightarrow> ''None'' | Some s \<Rightarrow> s)"

definition show_bool :: "bool option \<Rightarrow> string" where
  "show_bool b = (case b of None \<Rightarrow> ''None'' | Some True \<Rightarrow> ''True'' | Some False \<Rightarrow> ''False'')"

definition evaluate_async :: "(rat \<Rightarrow> string) \<Rightarrow> opa_settings \<Rightarrow> (policy_context \<Rightarrow> opa_reply)
    \<Rightarrow> policy_service \<Rightarrow> policy_context \<Rightarrow> exn + policy_evaluation_result list" where
  "evaluate_async fr cfg post st context_dict =
     (let ctx = canonicalize_context context_dict
      in if \<not> opa_enabled cfg then evaluate_local (policies st) ctx []
         else if opa_fail_closed cfg \<and> \<not> is_in_sync st
         then Inl (evaluation_error ''opa_cache_out_of_sync''
                (''local_hash='' @ show_hash (local_hash st) @ '' last_pushed_hash='' @
                 show_hash (last_pushed_hash st) @ '' last_sync_ok='' @ show_bool (last_sync_ok st)))
         else (case evaluate_with_opa fr post (policies st) ctx of
             Inl (Runtime e) \<Rightarrow>
               (if opa_allow_local_fallback cfg then evaluate_local (policies st) ctx []
                else Inl (evaluation_error ''opa_unreachable_or_invalid'' (runtime_text e)))
           | r \<Rightarrow> r))"

definition evaluate :: "policy_service \<Rightarrow> policy_context \<Rightarrow> exn + policy_evaluation_result list" where
  "evaluate st context_dict = evaluate_local (policies st) (canonicalize_context context_dict) []"

section \<open>The Rego policy\<close>

text \<open>The rules of src/opa/policies/orchestrator.rego over the serialised items: \<open>object.get\<close> with the default
  null, which is defined on objects only, two clauses per helper, and the set of the blocked ids, which a
  policy without an id does not enter.\<close>

definition object_get_null :: "json \<Rightarrow> string \<Rightarrow> json" where
  "object_get_null v k = (case jobj_get v k of None \<Rightarrow> JNull | Some w \<Rightarrow> w)"

definition rego_member_ok :: "json \<Rightarrow> string option \<Rightarrow> bool" where
  "rego_member_ok v c = (v = JNull \<or> (case c of None \<Rightarrow> False | Some s \<Rightarrow> v = JStr s))"

definition rego_policy_matches :: "json \<Rightarrow> policy_context \<Rightarrow> bool" where
  "rego_policy_matches pol ctx =
     (case jobj_get pol ''condition'' of
        Some (JObj c) \<Rightarrow> rego_member_ok (object_get_null (JObj c) ''sensitivity'') (ctx_sensitivity ctx)
          \<and> rego_member_ok (object_get_null (JObj c) ''tenant'') (ctx_tenant ctx)
      | _ \<Rightarrow> False)"

definition rego_should_block :: "json \<Rightarrow> policy_context \<Rightarrow> bool" where
  "rego_should_block pol ctx =
     (jobj_get pol ''effect'' = Some (JStr ''deny_all'')
      \<or> jobj_get pol ''effect'' = Some (JStr ''deny_cloud'') \<and> ctx_service_type ctx = Some ''cloud''
      \<or> jobj_get pol ''effect'' = Some (JStr ''allow_onprem_only'')
          \<and> (case ctx_service_type ctx of None \<Rightarrow> False | Some s \<Rightarrow> s \<noteq> ''on-prem''))"

definition rego_block :: "json list \<Rightarrow> policy_context \<Rightarrow> json list" where
  "rego_block items ctx = List.map_filter (\<lambda>pol.
     if rego_policy_matches pol ctx \<and> rego_should_block pol ctx then jobj_get pol ''id'' else None) items"

definition rego_allow :: "json list \<Rightarrow> policy_context \<Rightarrow> bool" where
  "rego_allow items ctx = (rego_block items ctx = [])"

text \<open>A server that runs this policy over a bundle: it answers 200 with the decision document,
  the set of blocked ids as an array in some order.\<close>

definition opa_runs :: "policy_schema list \<Rightarrow> (policy_context \<Rightarrow> opa_reply) \<Rightarrow> bool" where
  "opa_runs pols post \<longleftrightarrow> (\<forall>ctx. \<exists>code body d r ids.
     post ctx = Opa_Reply code body (Inr (JObj d)) \<and> code < 400
     \<and> dict_get d ''result'' = Some (JObj r)
     \<and> dict_get r ''allow'' = Some (JBool (rego_allow (map serialize_policy pols) ctx))
     \<and> dict_get r ''block'' = Some (JArr ids)
     \<and> set ids = set (rego_block (map serialize_policy pols) ctx))"

section \<open>What an evaluator promises\<close>

definition blocks :: "policy_context \<Rightarrow> policy_schema \<Rightarrow> bool" where
  "blocks ctx pol = (policy_matches pol ctx \<and> should_block pol ctx)"

definition allowed_results :: "policy_schema list \<Rightarrow> policy_context \<Rightarrow> policy_evaluation_result list" where
  "allowed_results pols ctx = map (\<lambda>pol. evaluation pol ''ALLOW'') (filter (\<lambda>pol. policy_matches pol ctx) pols)"

text \<open>An evaluator decides by the first policy in order that matches and blocks.\<close>

locale policy_evaluator =
  fixes ok :: "policy_schema list \<Rightarrow> policy_context \<Rightarrow> bool"
    and decide :: "policy_schema list \<Rightarrow> policy_context \<Rightarrow> exn + policy_evaluation_result list"
  assumes allows: "ok pols ctx \<Longrightarrow> \<not> list_ex (blocks ctx) pols \<Longrightarrow> decide pols ctx = Inr (allowed_results pols ctx)"
    and denies: "ok pols ctx \<Longrightarrow> find (blocks ctx) pols = Some pol
      \<Longrightarrow> \<exists>results. decide pols ctx = Inl (violation pol results)"
begin

lemma allow_iff:
  assumes "ok pols ctx"
  shows "(\<exists>results. decide pols ctx = Inr results) \<longleftrightarrow> \<not> list_ex (blocks ctx) pols"
proof (cases "list_ex (blocks ctx) pols")
  case True
  then obtain pol where "find (blocks ctx) pols = Some pol"
    by (metis find_None_iff list_ex_iff not_None_eq)
  from denies [OF assms this] True show ?thesis by auto
next
  case False
  from allows [OF assms this] False show ?thesis by auto
qed

lemma denied_by_any:
  assumes "ok pols ctx" and "pol \<in> set pols" and "blocks ctx pol"
  shows "\<exists>e. decide pols ctx = Inl e"
proof -
  from assms have "list_ex (blocks ctx) pols" by (auto simp: list_ex_iff)
  with allow_iff [OF assms(1)] show ?thesis by (metis sum.exhaust)
qed

lemma decision_of_first:
  assumes "ok pols ctx"
  shows "case find (blocks ctx) pols of
      None \<Rightarrow> decide pols ctx = Inr (allowed_results pols ctx)
    | Some pol \<Rightarrow> \<exists>results. decide pols ctx = Inl (violation pol results)"
proof (cases "find (blocks ctx) pols")
  case None
  then have "\<not> list_ex (blocks ctx) pols" by (simp add: find_None_iff list_ex_iff)
  with allows [OF assms] None show ?thesis by simp
next
  case (Some pol)
  with denies [OF assms] show ?thesis by simp
qed

end

section \<open>The embedded evaluator keeps the promise\<close>

lemma evaluate_local_eq:
  "evaluate_local pols ctx results =
     (case dropWhile (\<lambda>pol. \<not> blocks ctx pol) pols of
        [] \<Rightarrow> Inr (results @ allowed_results pols ctx)
      | pol # _ \<Rightarrow> Inl (violation pol (results
          @ allowed_results (takeWhile (\<lambda>pol. \<not> blocks ctx pol) pols) ctx @ [evaluation pol ''DENY''])))"
proof (induction pols arbitrary: results)
  case Nil
  then show ?case by (simp add: allowed_results_def)
next
  case (Cons a pols)
  have r: "allowed_results (a # xs) ctx
      = (if policy_matches a ctx then [evaluation a ''ALLOW''] else []) @ allowed_results xs ctx" for xs
    by (simp add: allowed_results_def)
  show ?case
  proof (cases "blocks ctx a")
    case True
    then show ?thesis by (simp add: blocks_def allowed_results_def)
  next
    case False
    then have "evaluate_local (a # pols) ctx results = evaluate_local pols ctx
        (results @ (if policy_matches a ctx then [evaluation a ''ALLOW''] else []))"
      by (simp add: blocks_def)
    then have "evaluate_local (a # pols) ctx results = (case dropWhile (\<lambda>pol. \<not> blocks ctx pol) pols of
        [] \<Rightarrow> Inr (results @ allowed_results (a # pols) ctx)
      | pol # _ \<Rightarrow> Inl (violation pol (results @ allowed_results
          (a # takeWhile (\<lambda>pol. \<not> blocks ctx pol) pols) ctx @ [evaluation pol ''DENY''])))"
      by (simp only: Cons.IH r append_assoc)
    moreover have "takeWhile (\<lambda>pol. \<not> blocks ctx pol) (a # pols) = a # takeWhile (\<lambda>pol. \<not> blocks ctx pol) pols"
      and "dropWhile (\<lambda>pol. \<not> blocks ctx pol) (a # pols) = dropWhile (\<lambda>pol. \<not> blocks ctx pol) pols"
      using False by simp_all
    ultimately show ?thesis by (simp only:)
  qed
qed

lemma find_None_dropWhile: "find P xs = None \<Longrightarrow> dropWhile (\<lambda>x. \<not> P x) xs = []"
  by (induction xs) (auto split: if_splits)

lemma find_Some_dropWhile: "find P xs = Some x \<Longrightarrow> \<exists>rest. dropWhile (\<lambda>x. \<not> P x) xs = x # rest"
  by (induction xs) (auto split: if_splits)

interpretation embedded: policy_evaluator "\<lambda>_ _. True" "\<lambda>pols ctx. evaluate_local pols ctx []"
proof
  fix pols ctx
  assume "\<not> list_ex (blocks ctx) pols"
  then have "find (blocks ctx) pols = None" by (simp add: find_None_iff list_ex_iff)
  from find_None_dropWhile [OF this] show "evaluate_local pols ctx [] = Inr (allowed_results pols ctx)"
    by (simp only: evaluate_local_eq) simp
next
  fix pols ctx pol
  assume "find (blocks ctx) pols = Some pol"
  from find_Some_dropWhile [OF this]
  show "\<exists>results. evaluate_local pols ctx [] = Inl (violation pol results)"
    by (auto simp: evaluate_local_eq)
qed

section \<open>OPA with the repository's policy keeps it too\<close>

lemma rego_member_ok_opt [simp]:
  "rego_member_ok (opt_str v) c \<longleftrightarrow> (case v of None \<Rightarrow> True | Some s \<Rightarrow> c = Some s)"
  by (auto simp: rego_member_ok_def opt_str_def split: option.split)

lemma rego_matches_serialized:
  "rego_policy_matches (serialize_policy pol) ctx = policy_matches pol ctx"
  by (auto simp: rego_policy_matches_def serialize_policy_def condition_json_def jobj_get_def
      object_get_null_def policy_matches_def Let_def split: option.split)

lemma rego_blocks_serialized:
  assumes "ctx_service_type ctx \<noteq> None"
  shows "rego_should_block (serialize_policy pol) ctx = should_block pol ctx"
  using assms by (cases "effect pol")
    (auto simp: rego_should_block_def serialize_policy_def jobj_get_def should_block_def
      service_type_of_def Let_def)

lemma serialized_id: "jobj_get (serialize_policy pol) ''id'' = Some (JStr (policy_id pol))"
  by (simp add: serialize_policy_def jobj_get_def)

lemma rego_block_serialized:
  assumes "ctx_service_type ctx \<noteq> None"
  shows "rego_block (map serialize_policy pols) ctx
    = map (\<lambda>pol. JStr (policy_id pol)) (filter (blocks ctx) pols)"
  unfolding rego_block_def
  by (induction pols)
    (simp_all add: List.map_filter_simps rego_matches_serialized rego_blocks_serialized [OF assms] blocks_def
      serialized_id)

lemma parse_opa_runs:
  assumes "opa_runs pols post" and "ctx_service_type ctx \<noteq> None"
  shows "\<exists>code body data ids. post ctx = Opa_Reply code body (Inr data) \<and> code < 400
    \<and> parse_opa_result fr data = Inr (\<not> list_ex (blocks ctx) pols, ids)
    \<and> set ids = policy_id ` set (filter (blocks ctx) pols)"
proof -
  from assms(1) obtain code body d r js where r: "post ctx = Opa_Reply code body (Inr (JObj d))"
    "code < 400" "dict_get d ''result'' = Some (JObj r)"
    "dict_get r ''allow'' = Some (JBool (rego_allow (map serialize_policy pols) ctx))"
    "dict_get r ''block'' = Some (JArr js)"
    and js: "set js = set (rego_block (map serialize_policy pols) ctx)"
    unfolding opa_runs_def by meson
  have "json_str fr ` set js = policy_id ` set (filter (blocks ctx) pols)"
    unfolding js rego_block_serialized [OF assms(2)] by (auto simp: json_str_def image_iff)
  moreover have "rego_allow (map serialize_policy pols) ctx \<longleftrightarrow> \<not> list_ex (blocks ctx) pols"
    unfolding rego_allow_def rego_block_serialized [OF assms(2)]
    by (simp add: filter_empty_conv list_ex_iff)
  ultimately show ?thesis using r by (simp add: parse_opa_result_def coerce_block_ids_def)
qed

lemma denied_are_blocking:
  assumes "distinct (map policy_id pols)" and "set ids = policy_id ` set (filter P pols)"
  shows "opa_denied pols ids = filter P pols"
  unfolding opa_denied_def
proof (rule filter_cong [OF refl])
  fix x
  assume x: "x \<in> set pols"
  with assms(1) have "policy_id y = policy_id x \<longleftrightarrow> y = x" if "y \<in> set pols" for y
    using that by (auto simp: distinct_map inj_on_def)
  with x assms(2) show "policy_id x \<in> set ids \<longleftrightarrow> P x" by force
qed

lemma find_head_filter: "find P xs = (case filter P xs of [] \<Rightarrow> None | x # _ \<Rightarrow> Some x)"
  by (induction xs) auto

lemma opa_evaluation_none:
  "\<forall>pol \<in> set pols. policy_id pol \<notin> set ids \<Longrightarrow> opa_evaluation pols ids ctx = allowed_results pols ctx"
  by (induction pols) (auto simp: allowed_results_def)

definition opa_ready :: "(policy_context \<Rightarrow> opa_reply) \<Rightarrow> policy_schema list \<Rightarrow> policy_context \<Rightarrow> bool" where
  "opa_ready post pols ctx \<longleftrightarrow>
     opa_runs pols post \<and> ctx_service_type ctx \<noteq> None \<and> distinct (map policy_id pols)"

interpretation opa: policy_evaluator "opa_ready post" "evaluate_with_opa fr post" for fr post
proof
  fix pols ctx
  assume "opa_ready post pols ctx" and none: "\<not> list_ex (blocks ctx) pols"
  then obtain code body data ids where r: "post ctx = Opa_Reply code body (Inr data)" "code < 400"
    "parse_opa_result fr data = Inr (True, ids)" and ids: "set ids = policy_id ` set (filter (blocks ctx) pols)"
    unfolding opa_ready_def using parse_opa_runs [of pols post ctx fr] by auto
  from ids none have "set ids = {}" by (auto simp: list_ex_iff)
  with r show "evaluate_with_opa fr post pols ctx = Inr (allowed_results pols ctx)"
    by (simp add: evaluate_with_opa_def opa_evaluation_none split: list.split)
next
  fix pols ctx pol
  assume ready: "opa_ready post pols ctx" and f: "find (blocks ctx) pols = Some pol"
  then obtain code body data ids where r: "post ctx = Opa_Reply code body (Inr data)" "code < 400"
    "parse_opa_result fr data = Inr (\<not> list_ex (blocks ctx) pols, ids)"
    and ids: "set ids = policy_id ` set (filter (blocks ctx) pols)"
    unfolding opa_ready_def using parse_opa_runs [of pols post ctx fr] by auto
  from f have ex: "list_ex (blocks ctx) pols" by (auto simp: find_Some_iff list_ex_iff)
  from denied_are_blocking [OF _ ids] ready have "opa_denied pols ids = filter (blocks ctx) pols"
    by (simp add: opa_ready_def)
  with f obtain rest where "opa_denied pols ids = pol # rest"
    by (auto simp: find_head_filter split: list.splits)
  with r ex show "\<exists>results. evaluate_with_opa fr post pols ctx = Inl (violation pol results)"
    by (auto simp: evaluate_with_opa_def)
qed

section \<open>Properties\<close>

lemma canonicalize_service [simp]: "ctx_service_type (canonicalize_context ctx) \<noteq> None"
  by (simp add: canonicalize_context_def)

text \<open>The id and description a denial names; \<open>None\<close> for anything else.\<close>

definition denial_of :: "exn + policy_evaluation_result list \<Rightarrow> (string \<times> string) option" where
  "denial_of r = (case r of Inl (Domain (PolicyViolationError p d _ _ _)) \<Rightarrow> Some (p, d) | _ \<Rightarrow> None)"

lemma opa_decides_as_local:
  assumes "opa_runs (policies st) post" and "distinct (map policy_id (policies st))"
    and "opa_enabled cfg" and "opa_fail_closed cfg \<longrightarrow> is_in_sync st"
  shows "denial_of (evaluate_async fr cfg post st ctx) = denial_of (evaluate st ctx)
    \<and> (\<forall>results. evaluate_async fr cfg post st ctx = Inr results \<longleftrightarrow> evaluate st ctx = Inr results)"
proof -
  let ?c = "canonicalize_context ctx" and ?p = "policies st"
  have ready: "opa_ready post ?p ?c" using assms(1,2) by (simp add: opa_ready_def)
  note o = opa.decision_of_first [OF ready, of fr]
  note l = embedded.decision_of_first [of ?p ?c]
  have "evaluate_with_opa fr post ?p ?c = Inr x \<or> (\<exists>pol rs. evaluate_with_opa fr post ?p ?c = Inl (violation pol rs))"
    if "find (blocks ?c) ?p = None \<longrightarrow> x = allowed_results ?p ?c" for x
    using o that by (cases "find (blocks ?c) ?p") auto
  then have a: "evaluate_async fr cfg post st ctx = evaluate_with_opa fr post ?p ?c"
    using assms(3,4) by (force simp: evaluate_async_def Let_def violation_def)
  show ?thesis
    unfolding a evaluate_def using o l
    by (cases "find (blocks ?c) ?p") (auto simp: denial_of_def violation_def)
qed

text \<open>C17. OPA running the repository's Rego policy over the cached bundle and the embedded Python
  evaluator agree: they allow the same contexts with the same results, and when they deny they
  name the same policy.\<close>

theorem opa_agrees_with_local:
  assumes "opa_runs (policies st) post" and "distinct (map policy_id (policies st))"
    and "opa_enabled cfg" and "opa_fail_closed cfg \<longrightarrow> is_in_sync st"
  shows "denial_of (evaluate_async fr cfg post st ctx) = denial_of (evaluate st ctx)
    \<and> (\<forall>results. evaluate_async fr cfg post st ctx = Inr results \<longleftrightarrow> evaluate st ctx = Inr results)"
  by (rule opa_decides_as_local [OF assms])

definition ideal_opa :: "policy_schema list \<Rightarrow> policy_context \<Rightarrow> opa_reply" where
  "ideal_opa pols ctx = Opa_Reply 200 [] (Inr (JObj [(''result'', JObj
     [(''allow'', JBool (rego_allow (map serialize_policy pols) ctx)),
      (''block'', JArr (rego_block (map serialize_policy pols) ctx))])]))"

lemma opa_runs_ideal: "opa_runs pols (ideal_opa pols)"
  by (simp add: opa_runs_def ideal_opa_def)

theorem opa_agrees_with_local_witness:
  "let p = \<lparr>policy_id = ''p1'', description = None,
        condition = \<lparr>cond_sensitivity = Some HIGH, cond_tenant = None\<rparr>, effect = DENY_CLOUD\<rparr>;
       st = init_policy_service\<lparr>policies := [p]\<rparr>;
       cfg = \<lparr>opa_enabled = True, opa_strict_sync = True, opa_allow_local_fallback = True, opa_fail_closed = False\<rparr>
   in denial_of (evaluate_async (\<lambda>_. []) cfg (ideal_opa [p]) st
        \<lparr>ctx_sensitivity = Some ''HIGH'', ctx_tenant = Some ''t'', ctx_service_type = Some ''SaaS''\<rparr>)
      = Some (''p1'', ''No description provided'')"
proof -
  let ?p = "\<lparr>policy_id = ''p1'', description = None,
        condition = \<lparr>cond_sensitivity = Some HIGH, cond_tenant = None\<rparr>, effect = DENY_CLOUD\<rparr>"
  let ?st = "init_policy_service\<lparr>policies := [?p]\<rparr>"
  let ?cfg = "\<lparr>opa_enabled = True, opa_strict_sync = True, opa_allow_local_fallback = True, opa_fail_closed = False\<rparr>"
  let ?ctx = "\<lparr>ctx_sensitivity = Some ''HIGH'', ctx_tenant = Some ''t'', ctx_service_type = Some ''SaaS''\<rparr>"
  have "canonical_service_type (Some ''SaaS'') = ''cloud''" by code_simp
  then have "denial_of (evaluate ?st ?ctx) = Some (''p1'', ''No description provided'')"
    by (simp add: evaluate_def canonicalize_context_def policy_matches_def should_block_def
        service_type_of_def violation_def denial_of_def description_or_default_def)
  with opa_agrees_with_local [of ?st "ideal_opa [?p]" ?cfg "\<lambda>_. []" ?ctx] show ?thesis
    by (simp add: opa_runs_ideal)
qed

text \<open>What the embedded evaluator decides: it stops at the first policy, in cache order, that
  matches the context and blocks it, and raises with the results up to that one; without such a
  policy it returns an ALLOW result for every policy that matches.\<close>

theorem evaluate_first_block:
  "evaluate st ctx = (let c = canonicalize_context ctx; pols = policies st
     in case dropWhile (\<lambda>pol. \<not> blocks c pol) pols of
          [] \<Rightarrow> Inr (allowed_results pols c)
        | pol # _ \<Rightarrow> Inl (violation pol
            (allowed_results (takeWhile (\<lambda>pol. \<not> blocks c pol) pols) c @ [evaluation pol ''DENY''])))"
  by (simp only: evaluate_def evaluate_local_eq Let_def append_Nil)

lemma evaluate_with_opa_allows:
  assumes "evaluate_with_opa fr post pols c = Inr rs"
  shows "\<exists>code body data allow ids. post c = Opa_Reply code body (Inr data) \<and> code < 400
    \<and> parse_opa_result fr data = Inr (allow, ids) \<and> (allow \<or> opa_denied pols ids = [])"
proof (cases "post c")
  case (Opa_Reply code body decoded)
  note r = this
  with assms have code: "code < 400" by (cases "400 \<le> code") (simp_all add: evaluate_with_opa_def)
  show ?thesis
  proof (cases decoded)
    case (Inr data)
    with assms r code obtain allow ids where "parse_opa_result fr data = Inr (allow, ids)"
      by (cases "parse_opa_result fr data") (auto simp: evaluate_with_opa_def)
    moreover from this assms r code Inr have "allow \<or> opa_denied pols ids = []"
      by (cases "opa_denied pols ids") (auto simp: evaluate_with_opa_def split: if_splits)
    ultimately show ?thesis using r code Inr by blast
  qed (use assms r code in \<open>simp add: evaluate_with_opa_def\<close>)
qed (use assms in \<open>simp add: evaluate_with_opa_def\<close>)

text \<open>The exceptions of an evaluation: a violation or an evaluation error, nothing else.\<close>

lemma violation_is_PolicyViolation:
  "\<exists>pid d rs n tys. violation pol results = Domain (PolicyViolationError pid d rs n tys)"
  by (simp add: violation_def)

lemma evaluate_local_error:
  "evaluate_local pols ctx rs = Inl e \<Longrightarrow> \<exists>pid d rs n tys. e = Domain (PolicyViolationError pid d rs n tys)"
  by (auto simp: evaluate_local_eq violation_def split: list.splits)

lemma coerce_block_ids_error: "coerce_block_ids fr raw = Inl e \<Longrightarrow> \<exists>r d. e = evaluation_error r d"
  by (auto simp: coerce_block_ids_def split: option.splits json.splits)

lemma parse_opa_result_error: "parse_opa_result fr payload = Inl e \<Longrightarrow> \<exists>r d. e = evaluation_error r d"
  by (auto simp: parse_opa_result_def dest: coerce_block_ids_error
      split: json.splits option.splits sum.splits)

lemma evaluate_with_opa_error:
  assumes "evaluate_with_opa fr post pols ctx = Inl e"
  shows "(\<exists>x. e = Runtime x) \<or> (\<exists>r d. e = evaluation_error r d) \<or> (\<exists>pol rs. e = violation pol rs)"
  using assms by (auto simp: evaluate_with_opa_def dest: parse_opa_result_error
      split: opa_reply.splits sum.splits if_splits list.splits prod.splits)

lemma evaluate_async_errors:
  assumes "evaluate_async fr cfg post st ctx = Inl e"
  shows "(\<exists>pid d rs n tys. e = Domain (PolicyViolationError pid d rs n tys))
    \<or> (\<exists>r d. e = Domain (PolicyEvaluationError r (Some d)))"
proof -
  let ?w = "evaluate_with_opa fr post (policies st) (canonicalize_context ctx)"
  consider "evaluate_local (policies st) (canonicalize_context ctx) [] = Inl e"
    | "\<exists>r d. e = evaluation_error r d" | "?w = Inl e" "\<And>x. e \<noteq> Runtime x"
    using assms by (auto simp: evaluate_async_def Let_def split: if_splits sum.splits exn.splits)
  then show ?thesis
  proof cases
    case 1
    from evaluate_local_error [OF this] show ?thesis by blast
  next
    case 2
    then show ?thesis by (auto simp: evaluation_error_def)
  next
    case 3
    with evaluate_with_opa_error [OF 3(1)] violation_is_PolicyViolation show ?thesis
      by (auto simp: evaluation_error_def)
  qed
qed

text \<open>Where an allowing decision can come from: either no cached policy blocks the context,
  or OPA itself answered without an HTTP error, with a well-formed decision document, in sync if
  the fail-closed switch is on, and this document allows or names no cached policy. A malformed
  answer, an HTTP error or an unreachable server never allows what the cached policies block.\<close>

theorem evaluate_async_allow_source:
  assumes "evaluate_async fr cfg post st ctx = Inr results"
  shows "\<not> list_ex (blocks (canonicalize_context ctx)) (policies st)
    \<or> (opa_enabled cfg \<and> (opa_fail_closed cfg \<longrightarrow> is_in_sync st)
       \<and> (\<exists>code body data allow ids. post (canonicalize_context ctx) = Opa_Reply code body (Inr data)
          \<and> code < 400 \<and> parse_opa_result fr data = Inr (allow, ids)
          \<and> (allow \<or> opa_denied (policies st) ids = [])))"
proof -
  let ?c = "canonicalize_context ctx" and ?p = "policies st"
  have loc: "\<not> list_ex (blocks ?c) ?p" if "evaluate_local ?p ?c [] = Inr rs" for rs
    using embedded.allow_iff [of ?p ?c] that by blast
  show ?thesis
  proof (cases "opa_enabled cfg \<and> (opa_fail_closed cfg \<longrightarrow> is_in_sync st)")
    case False
    with assms loc show ?thesis by (auto simp: evaluate_async_def Let_def evaluation_error_def split: if_splits)
  next
    case True
    then have e: "evaluate_async fr cfg post st ctx = (case evaluate_with_opa fr post ?p ?c of
        Inl (Runtime e) \<Rightarrow> (if opa_allow_local_fallback cfg then evaluate_local ?p ?c []
          else Inl (evaluation_error ''opa_unreachable_or_invalid'' (runtime_text e))) | r \<Rightarrow> r)"
      by (auto simp: evaluate_async_def Let_def)
    show ?thesis
    proof (cases "evaluate_with_opa fr post ?p ?c")
      case (Inl x)
      with assms e loc show ?thesis by (cases x) (auto split: if_splits)
    next
      case (Inr rs)
      from evaluate_with_opa_allows [OF this] True show ?thesis by blast
    qed
  qed
qed

theorem evaluate_async_allow_source_witness:
  "let st = init_policy_service; ctx = \<lparr>ctx_sensitivity = None, ctx_tenant = None, ctx_service_type = None\<rparr>
   in \<not> list_ex (blocks (canonicalize_context ctx)) (policies st)
      \<or> (\<exists>code body data. ideal_opa [] (canonicalize_context ctx) = Opa_Reply code body (Inr data))"
proof -
  let ?cfg = "\<lparr>opa_enabled = True, opa_strict_sync = True, opa_allow_local_fallback = False, opa_fail_closed = False\<rparr>"
  let ?ctx = "\<lparr>ctx_sensitivity = None, ctx_tenant = None, ctx_service_type = None\<rparr>"
  have "evaluate_async (\<lambda>_. []) ?cfg (ideal_opa []) init_policy_service ?ctx = Inr []"
    by (simp add: evaluate_async_def init_policy_service_def evaluate_with_opa_def ideal_opa_def
        parse_opa_result_def coerce_block_ids_def rego_allow_def rego_block_def opa_denied_def)
  from evaluate_async_allow_source [OF this] show ?thesis unfolding Let_def by blast
qed

text \<open>With the fail-closed switch on and the cache not in sync, OPA is not asked at all:
  whatever it would answer, evaluation refuses, and no context is allowed.\<close>

theorem evaluate_async_fail_closed:
  assumes "opa_enabled cfg" and "opa_fail_closed cfg" and "\<not> is_in_sync st"
  shows "\<exists>detail. evaluate_async fr cfg post st ctx = Inl (evaluation_error ''opa_cache_out_of_sync'' detail)
    \<and> evaluate_async fr cfg post st ctx = evaluate_async fr cfg post' st ctx"
  using assms by (auto simp: evaluate_async_def Let_def)

theorem evaluate_async_fail_closed_witness:
  "\<exists>detail. evaluate_async (\<lambda>_. []) \<lparr>opa_enabled = True, opa_strict_sync = True,
      opa_allow_local_fallback = True, opa_fail_closed = True\<rparr> (ideal_opa []) init_policy_service
      \<lparr>ctx_sensitivity = None, ctx_tenant = None, ctx_service_type = None\<rparr>
    = Inl (evaluation_error ''opa_cache_out_of_sync'' detail)"
  using evaluate_async_fail_closed [of "\<lparr>opa_enabled = True, opa_strict_sync = True,
      opa_allow_local_fallback = True, opa_fail_closed = True\<rparr>" init_policy_service]
  by (fastforce simp: is_in_sync_def init_policy_service_def)

text \<open>An answer that denies but names only policies the cache does not have is taken as an
  allowance.\<close>

lemma opa_denial_of_unknown_policy_allows:
  "evaluate_async fr \<lparr>opa_enabled = True, opa_strict_sync = True, opa_allow_local_fallback = False,
      opa_fail_closed = False\<rparr>
    (\<lambda>_. Opa_Reply 200 [] (Inr (JObj [(''result'', JObj [(''allow'', JBool False),
       (''block'', JArr [JStr ''p9''])])]))) init_policy_service ctx = Inr []"
  by (simp add: evaluate_async_def init_policy_service_def evaluate_with_opa_def parse_opa_result_def
      coerce_block_ids_def opa_denied_def Let_def)

section \<open>Synchronisation\<close>

text \<open>The service together with the document OPA holds. A push that is answered with a status
  below 400 stores the bundle, one answered with an error does not, and one that ends in a
  transport error may have stored it or not.\<close>

inductive stores :: "(json \<Rightarrow> http_reply) \<Rightarrow> json \<Rightarrow> json option \<Rightarrow> json option \<Rightarrow> bool" where
  stored: "put bundle = Http_Reply code body \<Longrightarrow> code < 400 \<Longrightarrow> stores put bundle doc (Some bundle)"
| refused: "put bundle = Http_Reply code body \<Longrightarrow> 400 \<le> code \<Longrightarrow> stores put bundle doc doc"
| lost: "put bundle = Transport_Error m \<Longrightarrow> stores put bundle doc doc"
| unanswered: "put bundle = Transport_Error m \<Longrightarrow> stores put bundle doc (Some bundle)"

inductive_simps stores_simps: "stores put bundle doc doc'"

inductive sync_reach :: "policy_service \<Rightarrow> json option \<Rightarrow> bool" where
  start: "sync_reach init_policy_service doc"
| sync: "sync_reach st doc \<Longrightarrow> opa_enabled cfg
    \<Longrightarrow> stores put (serialize_policy_bundle (refresh_cache rows st)) doc doc'
    \<Longrightarrow> sync_reach (fst (sync_from_db cfg put now rows st)) doc'"
| sync_disabled: "sync_reach st doc \<Longrightarrow> \<not> opa_enabled cfg
    \<Longrightarrow> sync_reach (fst (sync_from_db cfg put now rows st)) doc"

definition bundle_hash :: "json option \<Rightarrow> json option" where
  "bundle_hash doc = (case doc of None \<Rightarrow> None | Some b \<Rightarrow> jobj_get b ''hash'')"

lemma refresh_fields [simp]:
  "policies (refresh_cache rows st) = load_policies rows"
  "local_hash (refresh_cache rows st)
     = Some (compute_policy_hash (load_policies rows) (policy_version (refresh_cache rows st)))"
  "last_sync_ok (refresh_cache rows st) = last_sync_ok st"
  "last_pushed_hash (refresh_cache rows st) = last_pushed_hash st"
  by (simp_all add: refresh_cache_def Let_def)

lemma sync_state:
  "fst (sync_from_db cfg put now rows st) = (let st2 = refresh_cache rows st in
     (if opa_enabled cfg then
        (case push_policies_to_opa put st2 of
           Inr _ \<Rightarrow> st2\<lparr>last_pushed_hash := local_hash st2, last_pushed_version := Some (policy_version st2),
               last_sync_ok := Some True, last_sync_error := None\<rparr>
         | Inl m \<Rightarrow> st2\<lparr>last_sync_ok := Some False, last_sync_error := Some m\<rparr>)
      else st2)\<lparr>last_sync_at := Some now\<rparr>)"
  by (auto simp: sync_from_db_def Let_def split: sum.split)

lemma bundle_of_refreshed:
  "jobj_get (serialize_policy_bundle (refresh_cache rows st)) ''hash''
     = Some (JStr (compute_policy_hash (load_policies rows) (policy_version (refresh_cache rows st))))"
  by (simp add: serialize_policy_bundle_def jobj_get_def)

lemma sync_reach_invariant:
  "sync_reach st doc \<Longrightarrow>
    (last_sync_ok st = Some True \<longrightarrow> bundle_hash doc = map_option JStr (last_pushed_hash st)) \<and>
    (local_hash st \<noteq> None \<longrightarrow> local_hash st = Some (compute_policy_hash (policies st) (policy_version st)))"
proof (induction rule: sync_reach.induct)
  case (start doc)
  show ?case by (simp add: init_policy_service_def)
next
  case (sync st doc cfg put rows doc' now)
  then show ?case
    by (auto simp: sync_state Let_def push_policies_to_opa_def stores_simps bundle_hash_def
        bundle_of_refreshed split: sum.split http_reply.split)
next
  case (sync_disabled st doc cfg put now rows)
  then show ?case by (simp add: sync_state Let_def)
qed



lemma push_error_not_Nil: "push_policies_to_opa put st = Inl m \<Longrightarrow> m \<noteq> []"
  by (auto simp: push_policies_to_opa_def split: http_reply.splits if_splits)

text \<open>What a sync does with OPA enabled: the cache always holds the usable active rows
  afterwards; it is in sync exactly when the push succeeded; and it raises exactly when the push
  failed and the strict switch is on.\<close>

theorem sync_from_db_result:
  assumes "opa_enabled cfg" and "sync_from_db cfg put now rows st = (st', r)"
  shows "policies st' = load_policies rows
    \<and> is_in_sync st' = (push_policies_to_opa put (refresh_cache rows st) = Inr ())
    \<and> (\<exists>e. r = Inl e) = (opa_strict_sync cfg \<and> push_policies_to_opa put (refresh_cache rows st) \<noteq> Inr ())"
proof (cases "push_policies_to_opa put (refresh_cache rows st)")
  case (Inl m)
  with assms push_error_not_Nil [OF Inl] show ?thesis
    by (auto simp: sync_from_db_def Let_def is_in_sync_def split: if_splits)
next
  case (Inr u)
  with assms show ?thesis by (auto simp: sync_from_db_def Let_def is_in_sync_def)
qed

theorem sync_from_db_result_witness:
  "let cfg = \<lparr>opa_enabled = True, opa_strict_sync = True, opa_allow_local_fallback = False, opa_fail_closed = True\<rparr>;
       (st', r) = sync_from_db cfg (\<lambda>_. Transport_Error ''refused'') ''now'' [] init_policy_service
   in policies st' = [] \<and> \<not> is_in_sync st' \<and> (\<exists>e. r = Inl e)"
proof -
  let ?cfg = "\<lparr>opa_enabled = True, opa_strict_sync = True, opa_allow_local_fallback = False, opa_fail_closed = True\<rparr>"
  obtain st' r where s: "sync_from_db ?cfg (\<lambda>_. Transport_Error ''refused'') ''now'' [] init_policy_service = (st', r)"
    by (cases "sync_from_db ?cfg (\<lambda>_. Transport_Error ''refused'') ''now'' [] init_policy_service")
  from sync_from_db_result [OF _ s] show ?thesis unfolding Let_def s
    by (simp add: push_policies_to_opa_def)
qed

section \<open>Service types\<close>

lemma canonical_cases:
  "canonical_service_type (Some s) = (let raw = replace_char (CHR ''_'') ''-'' (replace_char (CHR '' '') ''-'' (lower (strip s)))
     in if raw \<in> set cloud_aliases then ''cloud'' else if raw \<in> set onprem_aliases \<or> raw = [] then ''on-prem'' else raw)"
  by (auto simp: canonical_service_type_def Let_def cloud_aliases_def onprem_aliases_def)

text \<open>The alias with a space can never be met, because spaces become hyphens before the look-up:
  a service of that type is neither on-prem nor cloud, and a policy that allows only on-prem
  services blocks it.\<close>

lemma on_premises_alias_dead:
  "canonical_service_type (Some ''on premises'') = ''on-premises''"
  "should_block \<lparr>policy_id = p, description = None, condition = c, effect = ALLOW_ONPREM_ONLY\<rparr>
     (canonicalize_context \<lparr>ctx_sensitivity = s, ctx_tenant = t, ctx_service_type = Some ''on premises''\<rparr>)"
proof -
  show c: "canonical_service_type (Some ''on premises'') = ''on-premises''" by code_simp
  show "should_block \<lparr>policy_id = p, description = None, condition = c, effect = ALLOW_ONPREM_ONLY\<rparr>
     (canonicalize_context \<lparr>ctx_sensitivity = s, ctx_tenant = t, ctx_service_type = Some ''on premises''\<rparr>)"
    by (simp add: should_block_def canonicalize_context_def service_type_of_def c)
qed

end
