(* ===== verification/Prompt_Security.thy ===== *)
theory Prompt_Security
  imports Py_Regex Py_Float Py_Hash
begin

text \<open>
  Prompt injection detection (src/fastapi\_backend/app/services/prompt\_security\_service.py): the
  static pattern library, the reload of the patterns from the database, \<open>scan\<close> with its
  floating-point score, and \<open>scan_messages\<close>. Compiling a pattern text from the database is a
  parameter, a function from the text to its search predicate, \<open>None\<close> when \<open>re.compile\<close>
  raises.
\<close>

section \<open>State\<close>

record injection_pattern =
  ip_name :: string
  ip_search :: "string \<Rightarrow> bool"
  ip_weight :: rat
  ip_description :: string

record scan_result =
  is_blocked :: bool
  total_score :: rat
  matched_patterns :: "string list"
  prompt_hash :: string

record security_pattern =
  sp_name :: string
  sp_pattern :: string
  sp_weight :: rat
  sp_description :: "string option"
  sp_is_active :: bool

record prompt_security_service =
  ps_threshold :: rat
  ps_patterns :: "injection_pattern list"

definition default_block_threshold :: rat where
  "default_block_threshold = 1"

section \<open>The static library\<close>

abbreviation RSpaces :: rx where "RSpaces \<equiv> RPlus RSpace"

text \<open>Words with white space between them.\<close>

fun words :: "string list \<Rightarrow> rx" where
  "words [] = REmpty"
| "words [w] = rlit w"
| "words (w # v # ws) = RSeq (rlit w) (RSeq RSpaces (words (v # ws)))"

definition alts :: "string list \<Rightarrow> rx" where
  "alts ws = ralt (map rlit ws)"

definition opt_words :: "string list \<Rightarrow> rx" where
  "opt_words ws = ROpt (RSeq (words ws) RSpaces)"

definition ignore_previous_rx :: rx where
  "ignore_previous_rx = rseq [rlit ''ignore'', RSpaces, opt_words [''all''], rlit ''previous'', RSpaces,
     alts [''instructions'', ''prompts'', ''rules'', ''context'']]"

definition disregard_rx :: rx where
  "disregard_rx = rseq [rlit ''disregard'', RSpaces, opt_words [''all''],
     alts [''previous'', ''prior'', ''above'', ''earlier''], RSpaces,
     alts [''instructions'', ''prompts'', ''rules'']]"

definition forget_rx :: rx where
  "forget_rx = rseq [rlit ''forget'', RSpaces, alts [''everything'', ''all'', ''your''], RSpaces,
     opt_words [''you''], opt_words [''were''], alts [''told'', ''instructed'', ''trained'']]"

definition dan_rx :: rx where
  "dan_rx = rseq [RWordB, ralt [rlit ''DAN'', words [''Do'', ''Anything'', ''Now'']], RWordB]"

definition developer_mode_rx :: rx where
  "developer_mode_rx = rseq [alts [''developer'', ''dev''], RSpaces, rlit ''mode'', RSpaces,
     alts [''enabled'', ''activated'', ''on'', ''override'']]"

definition jailbreak_rx :: rx where
  "jailbreak_rx = rseq [RWordB,
     ralt [rlit ''jailbreak'', rseq [rlit ''jail'', RStar RSpace, rlit ''break''],
       words [''bypass'', ''safety''], words [''bypass'', ''filter'']], RWordB]"

definition roleplay_rx :: rx where
  "roleplay_rx = rseq
     [ralt [words [''you'', ''are'', ''now''], words [''act'', ''as''],
        rseq [rlit ''pretend'', RSpaces, ralt [words [''to'', ''be''], words [''you'', ''are'']]],
        words [''from'', ''now'', ''on'', ''you'', ''are'']],
      RSpaces, opt_words [''a''], ROpt (rseq [RC (CHR ''a''), ROpt (RC (CHR ''n'')), RSpaces]),
      alts [''evil'', ''unrestricted'', ''unfiltered'', ''uncensored'']]"

definition hypothetical_rx :: rx where
  "hypothetical_rx = rseq
     [ralt [rlit ''hypothetically'', words [''in'', ''a'', ''fictional''],
        words [''for'', ''educational'', ''purposes''], rlit ''theoretically''],
      RBetween RAny 0 50,
      ralt [words [''how'', ''to''], words [''steps'', ''to''], words [''instructions'', ''for'']],
      RBetween RAny 0 50,
      ralt [rlit ''hack'', rlit ''exploit'', rlit ''attack'', words [''break'', ''into''], rlit ''steal'']]"

definition system_prompt_rx :: rx where
  "system_prompt_rx = rseq
     [alts [''repeat'', ''show'', ''reveal'', ''display'', ''print'', ''output''], RSpaces,
      opt_words [''your''],
      ralt [words [''system'', ''prompt''], words [''initial'', ''instructions''],
        words [''hidden'', ''instructions''], words [''original'', ''prompt'']]]"

definition what_instructions_rx :: rx where
  "what_instructions_rx = rseq
     [rlit ''what'', RSpaces, alts [''are'', ''were''], RSpaces, rlit ''your'', RSpaces,
      ROpt (ralt [RSeq (rlit ''original'') RSpaces, RSeq (rlit ''initial'') RSpaces,
        RSeq (rlit ''system'') RSpaces]),
      alts [''instructions'', ''rules'', ''guidelines'', ''prompt'']]"

definition base64_rx :: rx where
  "base64_rx = rseq [alts [''decode'', ''interpret'', ''execute'', ''run''], RSpaces, opt_words [''this''],
     alts [''base64'', ''encoded'', ''b64'']]"

definition markdown_rx :: rx where
  "markdown_rx = rseq [rlit ''!['', RRep RAny 0 None False, rlit ''](http'', ROpt (RC (CHR ''s'')),
     rlit ''://'', RPlus (RSet True [CSpace, CChar (CHR '')'')]), RC (CHR '')'')]"

definition delimiter_rx :: rx where
  "delimiter_rx = alts [''<|im_start|>'', ''<|im_end|>'', ''<|system|>'', ''[INST]'', ''[/INST]'',
     ''<<SYS>>'', ''<</SYS>>'']"

text \<open>An entry of the library, compiled with \<open>re.IGNORECASE\<close>; the literal \<open>n/10\<close> is
  rounded to a double.\<close>

definition entry :: "string \<Rightarrow> rx \<Rightarrow> nat \<Rightarrow> string \<Rightarrow> injection_pattern" where
  "entry nm r tenths desc = \<lparr>ip_name = nm, ip_search = re_search r True,
     ip_weight = fl (of_nat tenths / 10), ip_description = desc\<rparr>"

definition injection_patterns :: "injection_pattern list" where
  "injection_patterns =
     [entry ''ignore_previous_instructions'' ignore_previous_rx 10 ''Attempts to override system instructions'',
      entry ''disregard_instructions'' disregard_rx 10 ''Variation of instruction override'',
      entry ''forget_instructions'' forget_rx 10 ''Attempts to reset model context'',
      entry ''dan_jailbreak'' dan_rx 15 ''DAN (Do Anything Now) jailbreak attempt'',
      entry ''developer_mode'' developer_mode_rx 12 ''Fake developer mode activation'',
      entry ''jailbreak_keyword'' jailbreak_rx 15 ''Explicit jailbreak keywords'',
      entry ''roleplay_bypass'' roleplay_rx 10 ''Instructs model to adopt an unrestricted persona'',
      entry ''hypothetical_bypass'' hypothetical_rx 8 ''Uses hypothetical framing to extract harmful content'',
      entry ''system_prompt_leak'' system_prompt_rx 10 ''Attempts to extract the system prompt'',
      entry ''what_are_your_instructions'' what_instructions_rx 6 ''Probing for system instructions'',
      entry ''base64_injection'' base64_rx 7 ''Attempts to use encoding to bypass filters'',
      entry ''markdown_injection'' markdown_rx 5 ''Markdown image injection (potential exfiltration)'',
      entry ''delimiter_injection'' delimiter_rx 15 ''Injects model-specific control tokens'']"

section \<open>Operations\<close>

definition init_prompt_security :: "rat \<Rightarrow> prompt_security_service" where
  "init_prompt_security block_threshold =
     \<lparr>ps_threshold = block_threshold, ps_patterns = injection_patterns\<rparr>"

fun compile_rows :: "(string \<Rightarrow> (string \<Rightarrow> bool) option) \<Rightarrow> security_pattern list
    \<Rightarrow> injection_pattern list" where
  "compile_rows recomp [] = []"
| "compile_rows recomp (pat # pats) =
     (case recomp (sp_pattern pat) of
        None \<Rightarrow> compile_rows recomp pats
      | Some compiled \<Rightarrow>
          \<lparr>ip_name = sp_name pat, ip_search = compiled, ip_weight = fl (sp_weight pat),
           ip_description = (case sp_description pat of None \<Rightarrow> [] | Some d \<Rightarrow> d)\<rparr>
          # compile_rows recomp pats)"

definition reload_patterns :: "(string \<Rightarrow> (string \<Rightarrow> bool) option) \<Rightarrow> security_pattern list
    \<Rightarrow> prompt_security_service \<Rightarrow> prompt_security_service" where
  "reload_patterns recomp rows st =
     (let new_patterns = compile_rows recomp (filter sp_is_active rows)
      in if new_patterns \<noteq> [] then st\<lparr>ps_patterns := new_patterns\<rparr>
         else st\<lparr>ps_patterns := injection_patterns\<rparr>)"

fun scan_loop :: "injection_pattern list \<Rightarrow> string \<Rightarrow> string list \<Rightarrow> rat \<Rightarrow> string list \<times> rat" where
  "scan_loop [] t matched score = (matched, score)"
| "scan_loop (pat # pats) t matched score =
     (if ip_search pat t then scan_loop pats t (matched @ [ip_name pat]) (fadd score (ip_weight pat))
      else scan_loop pats t matched score)"

definition scan :: "prompt_security_service \<Rightarrow> string \<Rightarrow> scan_result" where
  "scan st t =
     (let (matched, score) = scan_loop (ps_patterns st) t [] 0
      in \<lparr>is_blocked = (ps_threshold st \<le> score), total_score = score, matched_patterns = matched,
          prompt_hash = sha256_hex t\<rparr>)"

text \<open>A message is a dictionary.\<close>

definition scan_messages :: "prompt_security_service \<Rightarrow> (string \<times> string) list list \<Rightarrow> scan_result" where
  "scan_messages st msgs =
     (let user_messages = filter (\<lambda>m. dict_get m ''role'' = Some ''user'') msgs
      in if user_messages = []
         then \<lparr>is_blocked = False, total_score = 0, matched_patterns = [], prompt_hash = sha256_hex []\<rparr>
         else scan st (dict_get_default (last user_messages) ''content'' []))"

section \<open>The score\<close>

lemma scan_loop_eq:
  "scan_loop pats t matched score =
     (let hits = filter (\<lambda>p. ip_search p t) pats
      in (matched @ map ip_name hits, foldl fadd score (map ip_weight hits)))"
  by (induction pats arbitrary: matched score) (auto simp: Let_def)

definition weights_ok :: "injection_pattern list \<Rightarrow> bool" where
  "weights_ok = list_all (\<lambda>p. 0 \<le> ip_weight p \<and> is_double (ip_weight p))"

lemma foldl_fadd_ge:
  assumes "is_double s" and "0 \<le> s" and "\<forall>w \<in> set ws. 0 \<le> w"
  shows "s \<le> foldl fadd s ws \<and> is_double (foldl fadd s ws)"
  using assms
proof (induction ws arbitrary: s)
  case (Cons w ws)
  then have le: "s \<le> fadd s w" using fadd_ge_left by simp
  with Cons.prems have "0 \<le> fadd s w" by linarith
  with Cons have "fadd s w \<le> foldl fadd (fadd s w) ws \<and> is_double (foldl fadd (fadd s w) ws)" by simp
  with le show ?case by simp
qed simp

lemma foldl_fadd_member:
  assumes "is_double s" and "0 \<le> s" and "\<forall>w \<in> set ws. 0 \<le> w \<and> is_double w" and "w \<in> set ws"
  shows "w \<le> foldl fadd s ws"
  using assms
proof (induction ws arbitrary: s)
  case (Cons v ws)
  have "0 \<le> fadd s v" using Cons.prems by (simp add: fadd_nonneg)
  show ?case
  proof (cases "w = v")
    case True
    have "v \<le> fadd s v" using Cons.prems by (simp add: fadd_ge_right)
    moreover have "fadd s v \<le> foldl fadd (fadd s v) ws"
      using foldl_fadd_ge [of "fadd s v" ws] \<open>0 \<le> fadd s v\<close> Cons.prems by simp
    ultimately show ?thesis using True by simp
  next
    case False
    with Cons \<open>0 \<le> fadd s v\<close> show ?thesis by simp
  qed
qed simp

lemma scan_fields:
  "matched_patterns (scan st t) = map ip_name (filter (\<lambda>p. ip_search p t) (ps_patterns st))"
  "total_score (scan st t) = foldl fadd 0 (map ip_weight (filter (\<lambda>p. ip_search p t) (ps_patterns st)))"
  "is_blocked (scan st t) = (ps_threshold st \<le> total_score (scan st t))"
  by (simp_all add: scan_def scan_loop_eq Let_def)

lemma entry_weight:
  assumes "5 \<le> n"
  shows "1/2 \<le> ip_weight (entry nm r n d) \<and> is_double (ip_weight (entry nm r n d))"
proof -
  have "(1/2 :: rat) \<le> of_nat n / 10" using assms by simp
  moreover have "fl (1/2) = 1/2" using fl_pos_exact [of 1 "-1"] by (simp add: fl_def)
  ultimately show ?thesis using fl_mono [of "1/2" "of_nat n / 10"] by (simp add: entry_def)
qed

lemma library_weights:
  "list_all (\<lambda>p. 1/2 \<le> ip_weight p \<and> is_double (ip_weight p)) injection_patterns"
  by (simp add: injection_patterns_def entry_weight del: divide_le_eq_numeral1)

lemma injection_patterns_not_Nil: "injection_patterns \<noteq> []"
  by (simp add: injection_patterns_def)

section \<open>Properties\<close>

text \<open>C28. With the static library and the default threshold a prompt is blocked exactly when two
  patterns match, or one whose own weight reaches the threshold: no rounding of the
  floating-point sum and no pair of weak matches falls below it.\<close>

theorem default_scan_blocks_iff:
  "is_blocked (scan (init_prompt_security default_block_threshold) t)
     = (2 \<le> length (matched_patterns (scan (init_prompt_security default_block_threshold) t))
        \<or> list_ex (\<lambda>p. 1 \<le> ip_weight p \<and> ip_search p t) injection_patterns)"
proof -
  let ?st = "init_prompt_security default_block_threshold"
  define hits where hits: "hits = filter (\<lambda>p. ip_search p t) injection_patterns"
  have w: "is_double (ip_weight p) \<and> 1/2 \<le> ip_weight p" if "p \<in> set hits" for p
    using that library_weights by (auto simp: hits list_all_iff)
  have score: "total_score (scan ?st t) = foldl fadd 0 (map ip_weight hits)"
    and m: "matched_patterns (scan ?st t) = map ip_name hits"
    and b: "is_blocked (scan ?st t) = (1 \<le> total_score (scan ?st t))"
    by (simp_all add: scan_fields init_prompt_security_def default_block_threshold_def hits)
  have nn: "\<forall>v \<in> set (map ip_weight hits). 0 \<le> v \<and> is_double v" using w by force
  have ex: "list_ex (\<lambda>p. 1 \<le> ip_weight p \<and> ip_search p t) injection_patterns
      = (\<exists>p \<in> set hits. 1 \<le> ip_weight p)" by (auto simp: list_ex_iff hits)
  consider "hits = []" | p where "hits = [p]" | p q ps where "hits = p # q # ps"
    by (metis list.exhaust)
  then show ?thesis
  proof cases
    case 1
    then show ?thesis by (simp add: b score m ex)
  next
    case (2 p)
    then have "foldl fadd 0 (map ip_weight hits) = ip_weight p"
      using w [of p] by (simp add: fadd_def is_double_def)
    then show ?thesis by (simp add: b score m ex 2)
  next
    case (3 p q ps)
    have "is_double (ip_weight p)" "1/2 \<le> ip_weight p" "1/2 \<le> ip_weight q"
      using w [of p] w [of q] 3 by auto
    then have "fadd (1/2) (1/2) \<le> fadd (fadd 0 (ip_weight p)) (ip_weight q)"
      by (intro fadd_mono) (simp_all add: fadd_def is_double_def)
    moreover have "fadd (1/2) (1/2) = 1" using is_double_of_nat [of 1] by (simp add: fadd_def)
    moreover have "fadd (fadd 0 (ip_weight p)) (ip_weight q)
        \<le> foldl fadd (fadd (fadd 0 (ip_weight p)) (ip_weight q)) (map ip_weight ps)"
      using foldl_fadd_ge [of _ "map ip_weight ps"] nn 3 by (simp add: fadd_nonneg)
    ultimately have "1 \<le> foldl fadd 0 (map ip_weight hits)" by (simp add: 3)
    then show ?thesis by (simp add: b score m 3)
  qed
qed

text \<open>Whatever library is loaded, if its weights are doubles and not negative, a matching
  pattern whose weight reaches the threshold blocks the prompt, whichever others match.\<close>

theorem scan_strong_match_blocks:
  assumes "weights_ok (ps_patterns st)" and "p \<in> set (ps_patterns st)" and "ip_search p t"
    and "ps_threshold st \<le> ip_weight p"
  shows "is_blocked (scan st t) \<and> ip_name p \<in> set (matched_patterns (scan st t))"
proof -
  let ?ws = "map ip_weight (filter (\<lambda>p. ip_search p t) (ps_patterns st))"
  have "\<forall>w \<in> set ?ws. 0 \<le> w \<and> is_double w" using assms(1) by (auto simp: weights_ok_def list_all_iff)
  moreover have "ip_weight p \<in> set ?ws" using assms(2,3) by auto
  ultimately have "ip_weight p \<le> foldl fadd 0 ?ws" by (intro foldl_fadd_member) simp_all
  with assms show ?thesis by (auto simp: scan_fields)
qed

theorem scan_strong_match_blocks_witness:
  "is_blocked (scan (init_prompt_security 1) ''please jailbreak'')
    \<and> ''jailbreak_keyword'' \<in> set (matched_patterns (scan (init_prompt_security 1) ''please jailbreak''))"
proof -
  let ?p = "entry ''jailbreak_keyword'' jailbreak_rx 15 ''Explicit jailbreak keywords''"
  have "re_search jailbreak_rx True ''please jailbreak''" by code_simp
  moreover have "1 \<le> fl (15 / 10)" using fl_mono [of 1 "15/10"] is_double_of_nat [of 1] by simp
  moreover have "weights_ok injection_patterns"
    using library_weights by (auto simp: weights_ok_def list_all_iff)
  ultimately show ?thesis
    using scan_strong_match_blocks [of "init_prompt_security 1" ?p "''please jailbreak''"]
    by (simp add: init_prompt_security_def entry_def injection_patterns_def)
qed

text \<open>Only the last message of the user is scanned: what the assistant says after it, and
  every message before it, changes nothing.\<close>

theorem scan_messages_last_user:
  assumes "dict_get m ''role'' = Some ''user''"
    and "list_all (\<lambda>m. dict_get m ''role'' \<noteq> Some ''user'') later"
  shows "scan_messages st (earlier @ m # later) = scan st (dict_get_default m ''content'' [])"
proof -
  from assms(2) have "filter (\<lambda>m. dict_get m ''role'' = Some ''user'') later = []"
    by (simp add: filter_empty_conv list_all_iff)
  with assms(1) show ?thesis by (simp add: scan_messages_def Let_def)
qed

theorem scan_messages_last_user_witness:
  "scan_messages (init_prompt_security 1) [[(''role'', ''user''), (''content'', ''jailbreak'')],
     [(''role'', ''user''), (''content'', ''hi'')], [(''role'', ''assistant''), (''content'', ''x'')]]
   = scan (init_prompt_security 1) ''hi''"
  using scan_messages_last_user [of "[(''role'', ''user''), (''content'', ''hi'')]"
    "[[(''role'', ''assistant''), (''content'', ''x'')]]" "init_prompt_security 1" "[[(''role'', ''user''), (''content'', ''jailbreak'')]]"]
  by (simp add: dict_get_default_def)

lemma compile_rows_eq:
  "map ip_name (compile_rows recomp rows)
     = map sp_name (filter (\<lambda>r. recomp (sp_pattern r) \<noteq> None) rows)"
  by (induction rows) (auto split: option.split)

text \<open>A reload never leaves the scanner without patterns: it installs the active rows of the
  database whose pattern compiles, and when there is none it returns to the static library. The
  threshold stays.\<close>

theorem reload_patterns_result:
  "ps_patterns (reload_patterns recomp rows st) \<noteq> []
   \<and> map ip_name (ps_patterns (reload_patterns recomp rows st)) =
      (let usable = filter (\<lambda>r. sp_is_active r \<and> recomp (sp_pattern r) \<noteq> None) rows
       in if usable = [] then map ip_name injection_patterns else map sp_name usable)
   \<and> ps_threshold (reload_patterns recomp rows st) = ps_threshold st"
proof -
  let ?new = "compile_rows recomp (filter sp_is_active rows)"
  let ?usable = "filter (\<lambda>r. sp_is_active r \<and> recomp (sp_pattern r) \<noteq> None) rows"
  have n: "map ip_name ?new = map sp_name ?usable"
    unfolding compile_rows_eq filter_filter by (simp add: conj_commute)
  show ?thesis
  proof (cases "?usable = []")
    case True
    with n have "?new = []" by simp
    then have "ps_patterns (reload_patterns recomp rows st) = injection_patterns"
      and "ps_threshold (reload_patterns recomp rows st) = ps_threshold st"
      by (simp_all add: reload_patterns_def)
    then show ?thesis unfolding True Let_def by (simp add: injection_patterns_not_Nil)
  next
    case False
    with n have "?new \<noteq> []" by (metis map_is_Nil_conv)
    then have "ps_patterns (reload_patterns recomp rows st) = ?new"
      and "ps_threshold (reload_patterns recomp rows st) = ps_threshold st"
      by (simp_all add: reload_patterns_def)
    with False n \<open>?new \<noteq> []\<close> show ?thesis unfolding Let_def by (simp only: if_False) simp
  qed
qed

end
