(* ===== verification/Database.thy ===== *)
theory Database
  imports Policy Prompt_Security
begin

text \<open>
  The platform database: one list of rows per table (src/fastapi\_backend/app/models), the
  tenant scope of a session (infrastructure/tenant\_context.py, db/session.py) with the filter it
  puts on SELECTs of tenant tables (db/tenant\_filters.py), and the repository functions
  (src/fastapi\_backend/app/repositories). A repository function whose statement can violate a key
  or a NOT NULL constraint of the models returns \<open>None\<close> for the exception. Columns the server
  fills in (serial ids of log rows, creation times) are left out; row-level security is added in
  Session\_Scope. Ids of type UUID are texts in canonical form.
\<close>

section \<open>Tables\<close>

record ai_request_record =
  ar_request_id :: string
  ar_tenant_id :: string
  ar_intent :: string
  ar_service_id :: string
  ar_sensitivity :: string
  ar_resolved_sensitivity :: "string option"
  ar_environment :: string
  ar_status :: string
  ar_started_at :: nat
  ar_completed_at :: "nat option"
  ar_error_detail :: "string option"

record ai_service =
  sv_service_id :: string
  sv_model_name :: string
  sv_provider_url :: string
  sv_provider_type :: "string option"
  sv_service_type :: "string option"

record tenant_permission =
  tp_tenant_id :: string
  tp_service_id :: string
  tp_allowed :: "bool option"

record permission_audit_log =
  pal_tenant_id :: string
  pal_service_id :: string
  pal_action :: string
  pal_performed_by :: string
  pal_reason :: string
  pal_intent :: "string option"

record intent_routing =
  ir_id :: string
  ir_intent_name :: string
  ir_service_id :: string
  ir_is_active :: "bool option"
  ir_taxonomy_version :: string
  ir_created_by :: string

record intent_audit_log =
  ial_action :: string
  ial_performed_by :: string
  ial_entity_id :: string
  ial_old_value :: json
  ial_new_value :: json

record policy_audit_log =
  pol_request_id :: string
  pol_policy_id :: string
  pol_effect :: string
  pol_decision :: string
  pol_context :: json

record security_event =
  se_event_type :: string
  se_tenant_id :: string
  se_request_id :: "string option"
  se_prompt_hash :: "string option"
  se_matched_patterns :: "string option"
  se_score :: "rat option"
  se_decision :: string
  se_redacted_types :: "string option"
  se_redaction_count :: nat
  se_metadata_extra :: "string option"

record lifecycle_event =
  le_request_id :: string
  le_tenant_id :: string
  le_stage :: string
  le_detail :: "string option"

record usage_token_log =
  ut_request_id :: string
  ut_tenant_id :: string
  ut_service_id :: string
  ut_model_name :: string
  ut_input_tokens :: int
  ut_output_tokens :: int
  ut_total_tokens :: int
  ut_cost_estimate :: rat

record database =
  t_ai_requests :: "ai_request_record list"
  t_ai_services :: "ai_service list"
  t_permissions :: "tenant_permission list"
  t_permission_audit :: "permission_audit_log list"
  t_intent_routing :: "intent_routing list"
  t_intent_audit :: "intent_audit_log list"
  t_policies :: "governance_policy list"
  t_policy_audit :: "policy_audit_log list"
  t_security_events :: "security_event list"
  t_usage :: "usage_token_log list"
  t_lifecycle :: "lifecycle_event list"
  t_security_patterns :: "(int \<times> security_pattern) list"

definition empty_database :: database where
  "empty_database = \<lparr>t_ai_requests = [], t_ai_services = [], t_permissions = [], t_permission_audit = [],
     t_intent_routing = [], t_intent_audit = [], t_policies = [], t_policy_audit = [],
     t_security_events = [], t_usage = [], t_lifecycle = [], t_security_patterns = []\<rparr>"

section \<open>Tenant scope\<close>

record tenant_scope =
  current_tenant_id :: "string option"
  current_is_admin :: bool

text \<open>The WHERE clause put on a SELECT of a tenant table.\<close>

definition tenant_visible :: "tenant_scope \<Rightarrow> string \<Rightarrow> bool" where
  "tenant_visible sc row_tenant =
     (if current_is_admin sc then True
      else (case current_tenant_id sc of
          None \<Rightarrow> True
        | Some t \<Rightarrow> (if t = [] then True else row_tenant = t)))"

text \<open>Claims of a verified token: \<open>tenant_id\<close> may be missing or null, roles are a list of
  texts.\<close>

datatype claim = Missing | Null | Claim string

record user_claims =
  claim_tenant_id :: claim
  claim_email :: claim
  claim_roles :: "string list"

definition scope_of_user :: "user_claims \<Rightarrow> tenant_scope" where
  "scope_of_user u = \<lparr>current_tenant_id = Some (case claim_tenant_id u of
       Missing \<Rightarrow> ''unknown'' | Null \<Rightarrow> ''None'' | Claim t \<Rightarrow> t),
     current_is_admin = (''admin'' \<in> set (claim_roles u))\<rparr>"

text \<open>\<open>current_user.get("tenant_id") or "tenant-a"\<close>.\<close>

definition tenant_or_default :: "user_claims \<Rightarrow> string" where
  "tenant_or_default u = (case claim_tenant_id u of
     Claim t \<Rightarrow> (if t \<noteq> [] then t else ''tenant-a'') | _ \<Rightarrow> ''tenant-a'')"

definition require_admin :: "user_claims \<Rightarrow> exn + user_claims" where
  "require_admin u =
     (if ''admin'' \<notin> set (claim_roles u)
      then Inl (HTTPException 403 (JStr ''Forbidden: Admin role required'')) else Inr u)"

text \<open>What a handler raises when a statement violates a constraint and nothing catches it.\<close>

definition integrity_error :: exn where
  "integrity_error = Runtime (RuntimeError ''IntegrityError'')"

section \<open>Request records\<close>

text \<open>The foreign key that refers to a service.\<close>

definition service_exists :: "string \<Rightarrow> database \<Rightarrow> bool" where
  "service_exists s db = list_ex (\<lambda>sv. sv_service_id sv = s) (t_ai_services db)"

text \<open>The insert raises when the primary key is taken or the service does not exist.\<close>

definition create_ai_request :: "ai_request_record \<Rightarrow> database \<Rightarrow> database option" where
  "create_ai_request rec db =
     (if list_ex (\<lambda>r. ar_request_id r = ar_request_id rec) (t_ai_requests db)
         \<or> \<not> service_exists (ar_service_id rec) db then None
      else Some (db\<lparr>t_ai_requests := t_ai_requests db @ [rec]\<rparr>))"

definition update_requests :: "string \<Rightarrow> (ai_request_record \<Rightarrow> ai_request_record) \<Rightarrow> database \<Rightarrow> database" where
  "update_requests rid f db =
     db\<lparr>t_ai_requests := map (\<lambda>r. if ar_request_id r = rid then f r else r) (t_ai_requests db)\<rparr>"

definition update_ai_request_status :: "string \<Rightarrow> string \<Rightarrow> nat option \<Rightarrow> string option \<Rightarrow> database \<Rightarrow> database" where
  "update_ai_request_status rid status completed_at error_detail =
     update_requests rid (\<lambda>r. r
       \<lparr>ar_status := status,
        ar_completed_at := (case completed_at of None \<Rightarrow> ar_completed_at r | Some t \<Rightarrow> Some t),
        ar_error_detail := (case error_detail of None \<Rightarrow> ar_error_detail r | Some e \<Rightarrow> Some e)\<rparr>)"

definition update_resolved_sensitivity :: "string \<Rightarrow> string \<Rightarrow> database \<Rightarrow> database" where
  "update_resolved_sensitivity rid s = update_requests rid (\<lambda>r. r\<lparr>ar_resolved_sensitivity := Some s\<rparr>)"

section \<open>Services and permissions\<close>

definition get_ai_service_by_id :: "string \<Rightarrow> database \<Rightarrow> ai_service option" where
  "get_ai_service_by_id sid db = find (\<lambda>s. sv_service_id s = sid) (t_ai_services db)"

definition list_ai_services :: "database \<Rightarrow> ai_service list" where
  "list_ai_services db = sort_key sv_service_id (t_ai_services db)"

definition update_ai_service_type :: "string \<Rightarrow> string \<Rightarrow> database \<Rightarrow> database \<times> ai_service option" where
  "update_ai_service_type sid ty db =
     (let db' = db\<lparr>t_ai_services := map (\<lambda>s. if sv_service_id s = sid then s\<lparr>sv_service_type := Some ty\<rparr> else s)
                    (t_ai_services db)\<rparr>
      in (db', get_ai_service_by_id sid db'))"

definition check_tenant_service_permission_and_audit :: "tenant_scope \<Rightarrow> string \<Rightarrow> string \<Rightarrow> string option
    \<Rightarrow> string \<Rightarrow> database \<Rightarrow> database \<times> bool" where
  "check_tenant_service_permission_and_audit sc tenant service intent_nm performed_by db =
     (let permission = find (\<lambda>p. tp_tenant_id p = tenant \<and> tp_service_id p = service
            \<and> tenant_visible sc (tp_tenant_id p)) (t_permissions db);
          is_allowed = (case permission of None \<Rightarrow> False | Some p \<Rightarrow> tp_allowed p = Some True)
      in (db\<lparr>t_permission_audit := t_permission_audit db @
            [\<lparr>pal_tenant_id = tenant, pal_service_id = service,
              pal_action = (if is_allowed then ''ALLOW'' else ''DENY''), pal_performed_by = performed_by,
              pal_reason = (if is_allowed then ''Policy check passed'' else ''Policy check failed''),
              pal_intent = intent_nm\<rparr>]\<rparr>, is_allowed))"

section \<open>Audit, events, usage\<close>

definition create_policy_audit_log :: "string \<Rightarrow> string \<Rightarrow> string \<Rightarrow> string \<Rightarrow> json \<Rightarrow> database \<Rightarrow> database" where
  "create_policy_audit_log rid pid eff decision ctx db =
     db\<lparr>t_policy_audit := t_policy_audit db @
       [\<lparr>pol_request_id = rid, pol_policy_id = pid, pol_effect = eff, pol_decision = decision,
         pol_context = ctx\<rparr>]\<rparr>"

text \<open>\<open>json.dumps(xs) if xs else None\<close> for a list of texts.\<close>

definition dumps_if :: "string list option \<Rightarrow> string option" where
  "dumps_if xs = (case xs of
     Some (y # ys) \<Rightarrow> Some (dumps (default_style (\<lambda>_. [])) (JArr (map JStr (y # ys)))) | _ \<Rightarrow> None)"

text \<open>\<open>json.dumps(detail) if detail else None\<close> for a dictionary or nothing; no caller passes
  numbers with a fraction.\<close>

definition dumps_truthy :: "json \<Rightarrow> string option" where
  "dumps_truthy v = (if truthy v then Some (dumps (default_style (\<lambda>_. [])) v) else None)"

definition append_lifecycle_event :: "string \<Rightarrow> string \<Rightarrow> string \<Rightarrow> json \<Rightarrow> database \<Rightarrow> database" where
  "append_lifecycle_event rid tenant stage detail db =
     db\<lparr>t_lifecycle := t_lifecycle db @
       [\<lparr>le_request_id = rid, le_tenant_id = tenant, le_stage = stage,
         le_detail = dumps_truthy detail\<rparr>]\<rparr>"

definition create_security_event :: "string \<Rightarrow> string \<Rightarrow> string option \<Rightarrow> string option
    \<Rightarrow> string list option \<Rightarrow> rat option \<Rightarrow> string \<Rightarrow> string list option \<Rightarrow> nat \<Rightarrow> json \<Rightarrow> database
    \<Rightarrow> database" where
  "create_security_event event_type tenant rid hash patterns score decision types cnt extra db =
     db\<lparr>t_security_events := t_security_events db @
       [\<lparr>se_event_type = event_type, se_tenant_id = tenant, se_request_id = rid, se_prompt_hash = hash,
         se_matched_patterns = dumps_if patterns, se_score = score, se_decision = decision,
         se_redacted_types = dumps_if types, se_redaction_count = cnt,
         se_metadata_extra = dumps_truthy extra\<rparr>]\<rparr>"

text \<open>The cost is a product of doubles: tokens over a thousand, times the double \<open>0.002\<close>. The
  columns of the counts are INTEGER, which the server checks; the lengths of texts are not
  checked here.\<close>

definition fits_integer :: "int \<Rightarrow> bool" where
  "fits_integer i = (- (2 ^ 31) \<le> i \<and> i < 2 ^ 31)"

definition create_usage_log :: "string \<Rightarrow> string \<Rightarrow> string \<Rightarrow> string \<Rightarrow> int \<Rightarrow> int \<Rightarrow> database
    \<Rightarrow> database option" where
  "create_usage_log rid tenant service model_name input_tokens output_tokens db =
     (let total_tokens = input_tokens + output_tokens;
          cost_estimate = fmul (fdiv (fl (of_int total_tokens)) 1000) (fl (2 / 1000))
      in if \<not> (fits_integer input_tokens \<and> fits_integer output_tokens \<and> fits_integer total_tokens) then None
         else Some (db\<lparr>t_usage := t_usage db @
           [\<lparr>ut_request_id = rid, ut_tenant_id = tenant, ut_service_id = service, ut_model_name = model_name,
             ut_input_tokens = input_tokens, ut_output_tokens = output_tokens, ut_total_tokens = total_tokens,
             ut_cost_estimate = cost_estimate\<rparr>]\<rparr>))"

section \<open>Intent routing\<close>

definition list_active_intent_mappings :: "database \<Rightarrow> intent_routing list" where
  "list_active_intent_mappings db = filter (\<lambda>m. ir_is_active m = Some True) (t_intent_routing db)"

definition get_intent_mapping_by_intent_name :: "string \<Rightarrow> database \<Rightarrow> intent_routing option" where
  "get_intent_mapping_by_intent_name nm db = find (\<lambda>m. ir_intent_name m = nm) (t_intent_routing db)"

definition get_intent_mapping_by_id :: "string \<Rightarrow> database \<Rightarrow> intent_routing option" where
  "get_intent_mapping_by_id i db = find (\<lambda>m. ir_id m = i) (t_intent_routing db)"

text \<open>The new row gets the id \<open>new_id\<close> of the server's generator; who acts may be missing
  (\<open>None\<close>), which the NOT NULL columns refuse.\<close>

definition create_intent_mapping :: "string \<Rightarrow> string \<Rightarrow> string \<Rightarrow> string \<Rightarrow> string option \<Rightarrow> database
    \<Rightarrow> (database \<times> intent_routing) option" where
  "create_intent_mapping new_id intent_nm service version created_by db =
     (case created_by of
        None \<Rightarrow> None
      | Some who \<Rightarrow>
          (let mapping = \<lparr>ir_id = new_id, ir_intent_name = intent_nm, ir_service_id = service,
                 ir_is_active = Some True, ir_taxonomy_version = version, ir_created_by = who\<rparr>;
               audit = \<lparr>ial_action = ''MAPPING_CREATED'', ial_performed_by = who, ial_entity_id = new_id,
                 ial_old_value = JNull,
                 ial_new_value = JObj [(''intent_name'', JStr intent_nm), (''service_id'', JStr service),
                   (''taxonomy_version'', JStr version), (''is_active'', JBool True)]\<rparr>
           in if \<not> service_exists service db
                 \<or> list_ex (\<lambda>m. ir_intent_name m = intent_nm) (t_intent_routing db)
              then None
              else Some (db\<lparr>t_intent_routing := t_intent_routing db @ [mapping],
                     t_intent_audit := t_intent_audit db @ [audit]\<rparr>, mapping)))"

text \<open>The members a client sent (\<open>model_dump(exclude_unset=True)\<close>), each possibly null.\<close>

record mapping_update =
  mu_service_id :: "string option option"
  mu_is_active :: "bool option option"
  mu_taxonomy_version :: "string option option"

definition opt_bool_json :: "bool option \<Rightarrow> json" where
  "opt_bool_json b = (case b of None \<Rightarrow> JNull | Some x \<Rightarrow> JBool x)"

definition update_json :: "mapping_update \<Rightarrow> json" where
  "update_json u = JObj
     ((case mu_service_id u of None \<Rightarrow> [] | Some s \<Rightarrow> [(''service_id'', opt_str s)]) @
      (case mu_is_active u of None \<Rightarrow> [] | Some b \<Rightarrow> [(''is_active'', opt_bool_json b)]) @
      (case mu_taxonomy_version u of None \<Rightarrow> [] | Some v \<Rightarrow> [(''taxonomy_version'', opt_str v)]))"

text \<open>The assignments of the members; \<open>None\<close> when a column that may not be null would be.\<close>

definition apply_update :: "mapping_update \<Rightarrow> intent_routing \<Rightarrow> intent_routing option" where
  "apply_update u m =
     (if mu_service_id u = Some None \<or> mu_taxonomy_version u = Some None then None
      else Some (m
        \<lparr>ir_service_id := (case mu_service_id u of Some (Some s) \<Rightarrow> s | _ \<Rightarrow> ir_service_id m),
         ir_is_active := (case mu_is_active u of None \<Rightarrow> ir_is_active m | Some b \<Rightarrow> b),
         ir_taxonomy_version := (case mu_taxonomy_version u of Some (Some v) \<Rightarrow> v
           | _ \<Rightarrow> ir_taxonomy_version m)\<rparr>))"

definition replace_mapping :: "intent_routing \<Rightarrow> intent_routing \<Rightarrow> database \<Rightarrow> database" where
  "replace_mapping old new db =
     db\<lparr>t_intent_routing := map (\<lambda>m. if ir_id m = ir_id old then new else m) (t_intent_routing db)\<rparr>"

definition update_intent_mapping :: "intent_routing \<Rightarrow> mapping_update \<Rightarrow> string option \<Rightarrow> database
    \<Rightarrow> (database \<times> intent_routing) option" where
  "update_intent_mapping mapping u performed_by db =
     (let old_value = JObj [(''service_id'', JStr (ir_service_id mapping)),
            (''is_active'', opt_bool_json (ir_is_active mapping)),
            (''taxonomy_version'', JStr (ir_taxonomy_version mapping))]
      in (case (performed_by, apply_update u mapping) of
            (Some who, Some mapping') \<Rightarrow>
              (if \<not> service_exists (ir_service_id mapping') db then None
               else (let db' = replace_mapping mapping mapping' db;
                         audit = \<lparr>ial_action = ''MAPPING_UPDATED'', ial_performed_by = who,
                           ial_entity_id = ir_id mapping, ial_old_value = old_value,
                           ial_new_value = update_json u\<rparr>
                     in Some (db'\<lparr>t_intent_audit := t_intent_audit db' @ [audit]\<rparr>, mapping')))
          | _ \<Rightarrow> None))"

definition soft_delete_intent_mapping :: "intent_routing \<Rightarrow> string option \<Rightarrow> database
    \<Rightarrow> (database \<times> intent_routing) option" where
  "soft_delete_intent_mapping mapping performed_by db =
     (case performed_by of
        None \<Rightarrow> None
      | Some who \<Rightarrow>
          (let mapping' = mapping\<lparr>ir_is_active := Some False\<rparr>;
               audit = \<lparr>ial_action = ''MAPPING_DEACTIVATED'', ial_performed_by = who,
                 ial_entity_id = ir_id mapping,
                 ial_old_value = JObj [(''is_active'', opt_bool_json (ir_is_active mapping))],
                 ial_new_value = JObj [(''is_active'', JBool False)]\<rparr>;
               db' = replace_mapping mapping mapping' db
           in Some (db'\<lparr>t_intent_audit := t_intent_audit db' @ [audit]\<rparr>, mapping')))"

section \<open>Policies\<close>

definition list_policies :: "database \<Rightarrow> governance_policy list" where
  "list_policies db = rev (sort_key gp_created_at (t_policies db))"

definition get_policy :: "string \<Rightarrow> database \<Rightarrow> governance_policy option" where
  "get_policy i db = find (\<lambda>p. gp_id p = i) (t_policies db)"

record policy_create =
  pc_description :: "string option"
  pc_condition :: policy_condition
  pc_effect :: policy_effect
  pc_is_active :: bool
  pc_version :: string

definition create_policy :: "string \<Rightarrow> nat \<Rightarrow> policy_create \<Rightarrow> database \<Rightarrow> database \<times> governance_policy" where
  "create_policy new_id now p db =
     (let row = \<lparr>gp_id = new_id, gp_description = pc_description p,
            gp_condition = condition_json (pc_condition p), gp_effect = effect_value (pc_effect p),
            gp_is_active = pc_is_active p, gp_version = pc_version p, gp_created_at = now\<rparr>
      in (db\<lparr>t_policies := t_policies db @ [row]\<rparr>, row))"

text \<open>An update with the members the client sent, each possibly null; the condition is the object of
  the members that were sent in it (\<open>model_dump(exclude_unset=True)\<close>), or null.\<close>

record policy_update =
  pu_description :: "string option option"
  pu_condition :: "json option"
  pu_effect :: "policy_effect option option"
  pu_is_active :: "bool option option"
  pu_version :: "string option option"

definition is_empty_update :: "policy_update \<Rightarrow> bool" where
  "is_empty_update u = (pu_description u = None \<and> pu_condition u = None \<and> pu_effect u = None
     \<and> pu_is_active u = None \<and> pu_version u = None)"

text \<open>A null for one of the columns that may not be null; a null condition is stored as JSON null.\<close>

definition nulls_a_column :: "policy_update \<Rightarrow> bool" where
  "nulls_a_column u = (pu_effect u = Some None \<or> pu_is_active u = Some None \<or> pu_version u = Some None)"

definition apply_policy_update :: "policy_update \<Rightarrow> governance_policy \<Rightarrow> governance_policy" where
  "apply_policy_update u p = p
     \<lparr>gp_description := (case pu_description u of None \<Rightarrow> gp_description p | Some d \<Rightarrow> d),
      gp_condition := (case pu_condition u of None \<Rightarrow> gp_condition p | Some c \<Rightarrow> c),
      gp_effect := (case pu_effect u of Some (Some e) \<Rightarrow> effect_value e | _ \<Rightarrow> gp_effect p),
      gp_is_active := (case pu_is_active u of Some (Some b) \<Rightarrow> b | _ \<Rightarrow> gp_is_active p),
      gp_version := (case pu_version u of Some (Some v) \<Rightarrow> v | _ \<Rightarrow> gp_version p)\<rparr>"

text \<open>\<open>None\<close> when the statement violates a NOT NULL constraint, which takes a row to update.\<close>

definition update_policy :: "string \<Rightarrow> policy_update \<Rightarrow> database \<Rightarrow> (database \<times> governance_policy option) option" where
  "update_policy i u db =
     (if is_empty_update u then Some (db, get_policy i db)
      else if nulls_a_column u \<and> get_policy i db \<noteq> None then None
      else (let db' = db\<lparr>t_policies := map (\<lambda>p. if gp_id p = i then apply_policy_update u p else p)
                         (t_policies db)\<rparr>
            in Some (db', get_policy i db')))"

definition delete_policy :: "string \<Rightarrow> database \<Rightarrow> database \<times> bool" where
  "delete_policy i db =
     (db\<lparr>t_policies := filter (\<lambda>p. gp_id p \<noteq> i) (t_policies db)\<rparr>,
      list_ex (\<lambda>p. gp_id p = i) (t_policies db))"

end
