(* ===== verification/Cache.thy ===== *)
theory Cache
  imports Main
begin

text \<open>
  The interface of the caches the program keeps of its tables: a reload makes the cache show what
  the table holds, and nothing else changes it. The client lemmas say what readers see while
  writers and reloads interleave.
\<close>

datatype 'w cache_event = Write 'w | Reload

text \<open>The state after a sequence of events: the table follows the writes, the cache the
  reloads.\<close>

fun run_events :: "('w \<Rightarrow> 'd \<Rightarrow> 'd) \<Rightarrow> ('d \<Rightarrow> 'c \<Rightarrow> 'c) \<Rightarrow> 'w cache_event list \<Rightarrow> 'd \<Rightarrow> 'c \<Rightarrow> 'd \<times> 'c" where
  "run_events write reload [] d c = (d, c)"
| "run_events write reload (Write w # es) d c = run_events write reload es (write w d) c"
| "run_events write reload (Reload # es) d c = run_events write reload es d (reload d c)"

text \<open>The table as it was when the cache was last reloaded, if it was.\<close>

fun last_seen :: "('w \<Rightarrow> 'd \<Rightarrow> 'd) \<Rightarrow> 'w cache_event list \<Rightarrow> 'd \<Rightarrow> 'd option \<Rightarrow> 'd option" where
  "last_seen write [] d seen = seen"
| "last_seen write (Write w # es) d seen = last_seen write es (write w d) seen"
| "last_seen write (Reload # es) d seen = last_seen write es d (Some d)"

lemma last_seen_Some: "last_seen write es d (Some d') \<noteq> None"
proof (induction es arbitrary: d d')
  case (Cons e es)
  then show ?case by (cases e) simp_all
qed simp

locale table_cache =
  fixes reload :: "'d \<Rightarrow> 'c \<Rightarrow> 'c" and view :: "'c \<Rightarrow> 'v" and shown :: "'d \<Rightarrow> 'v"
  assumes view_reload: "view (reload d c) = shown d"
begin

lemma view_run:
  "view (snd (run_events write reload es d c)) =
     (case last_seen write es d seen of None \<Rightarrow> view c | Some d' \<Rightarrow> shown d')"
  if "case seen of None \<Rightarrow> True | Some d' \<Rightarrow> view c = shown d'"
  using that
proof (induction es arbitrary: d c seen)
  case Nil
  then show ?case by (simp split: option.splits)
next
  case (Cons e es)
  show ?case
  proof (cases e)
    case (Write w)
    with Cons show ?thesis by simp
  next
    case Reload
    have "case Some d of None \<Rightarrow> True | Some d' \<Rightarrow> view (reload d c) = shown d'" by (simp add: view_reload)
    from Cons.IH [OF this, where d = d]
    have "view (snd (run_events write reload es d (reload d c))) =
      (case last_seen write es d (Some d) of None \<Rightarrow> view (reload d c) | Some d' \<Rightarrow> shown d')" .
    moreover obtain d' where "last_seen write es d (Some d) = Some d'"
      using last_seen_Some by (metis not_None_eq)
    ultimately show ?thesis using Reload by simp
  qed
qed

lemma reader_sees_last_reload:
  "view (snd (run_events write reload es d c)) =
     (case last_seen write es d None of None \<Rightarrow> view c | Some d' \<Rightarrow> shown d')"
  by (rule view_run) simp

lemma last_seen_append:
  "last_seen write (es @ fs) d seen =
     last_seen write fs (fst (run_events write reload es d c)) (last_seen write es d seen)"
proof (induction es arbitrary: d c seen)
  case Nil
  then show ?case by simp
next
  case (Cons e es)
  show ?case by (cases e) (simp_all add: Cons.IH [symmetric])
qed

lemma run_append:
  "run_events write reload (es @ fs) d c =
     (case run_events write reload es d c of (d', c') \<Rightarrow> run_events write reload fs d' c')"
proof (induction es arbitrary: d c)
  case Nil
  then show ?case by simp
next
  case (Cons e es)
  then show ?case by (cases e) simp_all
qed

lemma fresh_after_reload:
  "view (snd (run_events write reload (es @ [Reload]) d c)) =
     shown (fst (run_events write reload (es @ [Reload]) d c))"
  by (simp add: run_append view_reload split: prod.split)

lemma reload_idem: "view (reload d (reload d c)) = view (reload d c)"
  by (simp add: view_reload)

end

end
