(* ===== verification/Policy_Admin.thy ===== *)
theory Policy_Admin
  imports Database Cache
begin

text \<open>
  The admin endpoints of governance policies (src/fastapi\_backend/app/api/admin/policies.py):
  each mutation writes the table and then synchronises the policy service, so that the decision
  engine follows the database. A handler returns the new database and service state with its
  response or exception; the caller's role has been checked (\<open>require_admin\<close>).
\<close>

type_synonym ('r) handler_result = "database \<times> policy_service \<times> (exn + 'r)"

definition safe_sync :: "opa_settings \<Rightarrow> (json \<Rightarrow> http_reply) \<Rightarrow> string \<Rightarrow> database \<Rightarrow> policy_service
    \<Rightarrow> policy_service \<times> (exn + sync_stats)" where
  "safe_sync cfg put now db ps =
     (case sync_from_db cfg put now (list_policies db) ps of
        (ps', Inl (Domain (PolicySyncError reason detail))) \<Rightarrow>
          (ps', Inl (HTTPException 502 (JObj
             [(''error'', JStr ''policy_sync_failed''), (''reason'', JStr reason),
              (''detail'', opt_str detail), (''status'', get_status cfg ps')])))
      | r \<Rightarrow> r)"

definition not_found :: exn where
  "not_found = HTTPException 404 (JStr ''Policy not found'')"

definition list_governance_policies :: "database \<Rightarrow> governance_policy list" where
  "list_governance_policies db = list_policies db"

definition get_governance_policy :: "string \<Rightarrow> database \<Rightarrow> exn + governance_policy" where
  "get_governance_policy i db = (case get_policy i db of None \<Rightarrow> Inl not_found | Some p \<Rightarrow> Inr p)"

definition create_governance_policy :: "opa_settings \<Rightarrow> (json \<Rightarrow> http_reply) \<Rightarrow> string \<Rightarrow> string \<Rightarrow> nat
    \<Rightarrow> policy_create \<Rightarrow> database \<Rightarrow> policy_service \<Rightarrow> governance_policy handler_result" where
  "create_governance_policy cfg put now new_id created_at payload db ps =
     (let (db', policy) = create_policy new_id created_at payload db;
          (ps', r) = safe_sync cfg put now db' ps
      in (db', ps', case r of Inl e \<Rightarrow> Inl e | Inr _ \<Rightarrow> Inr policy))"

definition update_governance_policy :: "opa_settings \<Rightarrow> (json \<Rightarrow> http_reply) \<Rightarrow> string \<Rightarrow> string
    \<Rightarrow> policy_update \<Rightarrow> database \<Rightarrow> policy_service \<Rightarrow> governance_policy handler_result" where
  "update_governance_policy cfg put now i payload db ps =
     (case update_policy i payload db of
        None \<Rightarrow> (db, ps, Inl integrity_error)
      | Some (db', None) \<Rightarrow> (db', ps, Inl not_found)
      | Some (db', Some policy) \<Rightarrow>
          (let (ps', r) = safe_sync cfg put now db' ps
           in (db', ps', case r of Inl e \<Rightarrow> Inl e | Inr _ \<Rightarrow> Inr policy)))"

definition delete_governance_policy :: "opa_settings \<Rightarrow> (json \<Rightarrow> http_reply) \<Rightarrow> string \<Rightarrow> string
    \<Rightarrow> database \<Rightarrow> policy_service \<Rightarrow> json handler_result" where
  "delete_governance_policy cfg put now i db ps =
     (case delete_policy i db of
        (db', False) \<Rightarrow> (db', ps, Inl not_found)
      | (db', True) \<Rightarrow>
          (let (ps', r) = safe_sync cfg put now db' ps
           in (db', ps', case r of Inl e \<Rightarrow> Inl e
             | Inr _ \<Rightarrow> Inr (JObj [(''message'', JStr ''Policy deleted successfully'')]))))"

definition reload_policies :: "opa_settings \<Rightarrow> (json \<Rightarrow> http_reply) \<Rightarrow> string \<Rightarrow> database
    \<Rightarrow> policy_service \<Rightarrow> sync_stats handler_result" where
  "reload_policies cfg put now db ps =
     (let (ps', r) = safe_sync cfg put now db ps in (db, ps', r))"

section \<open>Rows and policies\<close>

lemma parse_condition_json [simp]: "parse_condition (condition_json c) = Some c"
  by (cases c; cases "cond_sensitivity c"; cases "cond_tenant c")
    (auto simp: parse_condition_def condition_json_def opt_str_def parse_sensitivity_def parse_opt_str_def)

lemma parse_effect_value [simp]: "parse_effect (effect_value e) = Some e"
  by (cases e) (simp_all add: parse_effect_def)

lemma set_load_policies:
  "set (load_policies rows) = {q. \<exists>p \<in> set rows. gp_is_active p \<and> parse_policy p = Some q}"
  by (induction rows) (auto split: option.splits)

lemma set_list_policies [simp]: "set (list_policies db) = set (t_policies db)"
  by (simp add: list_policies_def)

lemma sync_policies: "policies (fst (sync_from_db cfg put now rows st)) = load_policies rows"
  by (auto simp: sync_state Let_def split: sum.split)

lemma safe_sync_policies: "policies (fst (safe_sync cfg put now db ps)) = load_policies (list_policies db)"
proof -
  have "fst (safe_sync cfg put now db ps) = fst (sync_from_db cfg put now (list_policies db) ps)"
    by (auto simp: safe_sync_def split: prod.split sum.split exn.split domain_error.split)
  then show ?thesis by (simp add: sync_policies)
qed

text \<open>The policy service is a cache of the table, reloaded by every synchronisation, whether OPA takes the
  push or not. Decisions are by the table as it was at the last one.\<close>

interpretation decisions: table_cache "\<lambda>db ps. fst (safe_sync cfg put now db ps)" policies
    "\<lambda>db. load_policies (list_policies db)" for cfg put now
  by unfold_locales (rule safe_sync_policies)

lemma decision_is_of_last_sync:
  "evaluate (snd (run_events (\<lambda>w. w) (\<lambda>db ps. fst (safe_sync cfg put now db ps)) es db ps)) ctx =
     evaluate_local (case last_seen (\<lambda>w. w) es db None of
        None \<Rightarrow> policies ps | Some db' \<Rightarrow> load_policies (list_policies db')) (canonicalize_context ctx) []"
  by (simp add: evaluate_def decisions.reader_sees_last_reload)

section \<open>Properties\<close>

text \<open>What the repository does to the policy the handlers looked up.\<close>

lemma get_policy_Some: "get_policy i db \<noteq> None \<longleftrightarrow> (\<exists>p \<in> set (t_policies db). gp_id p = i)"
  by (auto simp: get_policy_def find_None_iff)

lemma update_missing_policy: "get_policy i db = None \<Longrightarrow> update_policy i u db = Some (db, None)"
proof -
  assume n: "get_policy i db = None"
  then have "map (\<lambda>p. if gp_id p = i then apply_policy_update u p else p) (t_policies db) = t_policies db"
    by (intro map_idI) (auto simp: get_policy_def find_None_iff)
  with n show ?thesis by (simp add: update_policy_def Let_def)
qed

lemma update_found_policy:
  assumes "get_policy i db \<noteq> None" and "update_policy i u db = Some (db', q)"
  shows "q \<noteq> None"
proof -
  let ?rows = "map (\<lambda>p. if gp_id p = i then apply_policy_update u p else p) (t_policies db)"
  from assms(1) obtain p where "p \<in> set (t_policies db)" "gp_id p = i" using get_policy_Some by blast
  then have "apply_policy_update u p \<in> set ?rows" and "gp_id (apply_policy_update u p) = i"
    by (force, simp add: apply_policy_update_def)
  then have "get_policy i (db\<lparr>t_policies := ?rows\<rparr>) \<noteq> None" unfolding get_policy_Some by auto
  moreover have "q = get_policy i db \<or> q = get_policy i (db\<lparr>t_policies := ?rows\<rparr>)"
    using assms(2) unfolding update_policy_def Let_def by (metis (no_types, lifting) option.distinct(1) option.inject prod.inject)
  ultimately show ?thesis using assms(1) by metis
qed

lemma update_refused_policy:
  "update_policy i u db = None \<longleftrightarrow> \<not> is_empty_update u \<and> nulls_a_column u \<and> get_policy i db \<noteq> None"
  unfolding update_policy_def Let_def by (metis (no_types, lifting) option.distinct(1))

lemma updated_policies:
  assumes "update_policy i u db = Some (db', Some q)"
  shows "\<exists>ps' r. update_governance_policy cfg put now i u db ps = (db', ps', r)
    \<and> policies ps' = load_policies (list_policies db')"
  using safe_sync_policies [of cfg put now db' ps] assms
  by (cases "safe_sync cfg put now db' ps") (simp add: update_governance_policy_def)

lemma delete_missing_policy: "get_policy i db = None \<Longrightarrow> delete_policy i db = (db, False)"
  by (auto simp: delete_policy_def list_ex_iff get_policy_def find_None_iff)

lemma delete_found_policy:
  assumes "get_policy i db \<noteq> None"
  obtains db' where "delete_policy i db = (db', True)" and "get_policy i db' = None"
proof -
  from assms have "snd (delete_policy i db)" unfolding get_policy_Some by (auto simp: delete_policy_def list_ex_iff)
  moreover have "get_policy i (fst (delete_policy i db)) = None"
    by (auto simp: delete_policy_def get_policy_def find_None_iff)
  ultimately show thesis using that by (cases "delete_policy i db") auto
qed

lemma handler_policies:
  "create_governance_policy cfg put now new_id t payload db ps = (db', ps', r) \<Longrightarrow> policies ps' = load_policies (list_policies db')"
  "reload_policies cfg put now db ps = (db', ps', r') \<Longrightarrow> db' = db \<and> policies ps' = load_policies (list_policies db')"
  by (auto simp: create_governance_policy_def reload_policies_def Let_def split: prod.splits)
    (metis fst_conv safe_sync_policies)+

text \<open>After any policy mutation an admin makes, and after a reload, the service decides by the
  table as it now is: its cache holds exactly the active rows that parse, whether the push to OPA
  worked or not. A mutation of a policy that does not exist changes neither.\<close>

theorem admin_mutation_refreshes_cache:
  "(case create_governance_policy cfg put now new_id t payload db ps of
      (db', ps', _) \<Rightarrow> policies ps' = load_policies (list_policies db'))
   \<and> (case update_governance_policy cfg put now i u db ps of
      (db', ps', r) \<Rightarrow> (if get_policy i db = None then db' = db \<and> ps' = ps \<and> r = Inl not_found
         else if \<not> is_empty_update u \<and> nulls_a_column u then db' = db \<and> ps' = ps \<and> r = Inl integrity_error
         else policies ps' = load_policies (list_policies db')))
   \<and> (case delete_governance_policy cfg put now i db ps of
      (db', ps', r) \<Rightarrow> (if get_policy i db = None then db' = db \<and> ps' = ps \<and> r = Inl not_found
         else policies ps' = load_policies (list_policies db') \<and> get_policy i db' = None))
   \<and> (case reload_policies cfg put now db ps of
      (db', ps', _) \<Rightarrow> db' = db \<and> policies ps' = load_policies (list_policies db))"
  (is "?C \<and> ?U \<and> ?D \<and> ?R")
proof (intro conjI)
  show ?C and ?R using handler_policies by (fastforce split: prod.split)+
  show ?U
  proof (cases "get_policy i db")
    case (Some p)
    show ?thesis
    proof (cases "update_policy i u db")
      case None
      with update_refused_policy [of i u db] show ?thesis by (auto simp: update_governance_policy_def)
    next
      case (Some st)
      obtain db' q where "update_policy i u db = Some (db', Some q)"
        using update_found_policy [of i db u "fst st" "snd st"] \<open>get_policy i db = Some p\<close> Some by (cases st) auto
      with updated_policies [of i u db db' q cfg put now ps] update_refused_policy [of i u db] \<open>get_policy i db = Some p\<close>
      show ?thesis by auto
    qed
  qed (simp add: update_governance_policy_def update_missing_policy)
  show ?D
  proof (cases "get_policy i db")
    case (Some p)
    then obtain db' where "delete_policy i db = (db', True)" "get_policy i db' = None"
      using delete_found_policy by blast
    with Some show ?thesis
      by (auto simp: delete_governance_policy_def Let_def split: prod.split) (metis fst_conv safe_sync_policies)
  qed (simp add: delete_governance_policy_def delete_missing_policy)
qed


text \<open>Settings without OPA, and a policy that denies everything.\<close>

definition embedded_only :: opa_settings where
  "embedded_only = \<lparr>opa_enabled = False, opa_strict_sync = True, opa_allow_local_fallback = True,
     opa_fail_closed = False\<rparr>"

definition deny_everything :: policy_create where
  "deny_everything = \<lparr>pc_description = None, pc_condition = \<lparr>cond_sensitivity = None, cond_tenant = None\<rparr>,
     pc_effect = DENY_ALL, pc_is_active = True, pc_version = ''1''\<rparr>"


end
