(* ===== verification/Py_Num.thy ===== *)
theory Py_Num
  imports Py_Json
begin

text \<open>
  Numbers as the program reads them from decoded documents and from texts: the value of a JSON
  number (a truth value counts as 0 or 1), \<open>int(s)\<close> of a text, and \<open>round(x, 2)\<close>.
\<close>

definition num_of :: "json \<Rightarrow> rat py" where
  "num_of v = (case v of JInt i \<Rightarrow> Inr (of_int i) | JFloat x \<Rightarrow> Inr x
     | JBool b \<Rightarrow> Inr (if b then 1 else 0) | _ \<Rightarrow> Inl TypeError)"

definition int_value :: "json \<Rightarrow> int option" where
  "int_value v = (case v of JInt i \<Rightarrow> Some i | JBool b \<Rightarrow> Some (if b then 1 else 0) | _ \<Rightarrow> None)"

text \<open>\<open>int(s)\<close>: surrounding white space, one sign, digits with single underscores between.\<close>

definition int_of_body :: "string \<Rightarrow> int py" where
  "int_of_body s =
     (if list_all (\<lambda>p. p \<noteq> [] \<and> list_all is_decimal p) (split_char (CHR ''_'') s)
      then Inr (int (digits_val 0 (concat (split_char (CHR ''_'') s)))) else Inl ValueError)"

definition int_of_str :: "string \<Rightarrow> int py" where
  "int_of_str s = (case strip s of
     [] \<Rightarrow> Inl ValueError
   | c # t \<Rightarrow>
       (if c = CHR ''-'' then (case int_of_body t of Inl e \<Rightarrow> Inl e | Inr i \<Rightarrow> Inr (- i))
        else if c = CHR ''+'' then int_of_body t
        else int_of_body (c # t)))"

text \<open>Rounding to two decimals or to one, ties to even on the exact value, then to the nearest double.\<close>

definition round2 :: "rat \<Rightarrow> rat" where
  "round2 x = fl (of_int (round_half_even (x * 100)) / 100)"

definition round1 :: "rat \<Rightarrow> rat" where
  "round1 x = fl (of_int (round_half_even (x * 10)) / 10)"

section \<open>Facts\<close>

lemma decimal_not_special:
  "is_decimal c \<Longrightarrow> c \<noteq> CHR ''_'' \<and> c \<noteq> CHR ''-'' \<and> c \<noteq> CHR ''+''"
  by (auto simp: is_decimal_def cp_def Let_def)

lemma int_of_body_decimals:
  assumes "s \<noteq> []" and "list_all is_decimal s"
  shows "int_of_body s = Inr (int (digits_val 0 s))"
proof -
  have "CHR ''_'' \<notin> set s" using assms(2) decimal_not_special by (auto simp: list_all_iff)
  then show ?thesis using assms by (simp add: int_of_body_def split_char_no_sep)
qed

lemma strip_no_space:
  assumes "list_all (\<lambda>c. \<not> is_space c) s"
  shows "strip s = s"
proof -
  have "dropWhile is_space t = t" if "list_all (\<lambda>c. \<not> is_space c) t" for t
    using that by (cases t) auto
  from this [of s] this [of "rev s"] assms show ?thesis
    by (simp add: strip_def lstrip_def rstrip_def list_all_iff)
qed

lemma int_of_str_str_int [simp]: "int_of_str (str_int i) = Inr i"
proof -
  have sp: "strip (str_int i) = str_int i"
  proof (rule strip_no_space)
    have "list_all (\<lambda>c. \<not> is_space c) (str_nat n)" for n
      using str_nat_decimal [of n] by (auto simp: list_all_iff)
    moreover have "\<not> is_space (CHR ''-'')" by (simp add: is_space_def cp_def)
    ultimately show "list_all (\<lambda>c. \<not> is_space c) (str_int i)" by (simp add: str_int_def)
  qed
  show ?thesis
  proof (cases "i < 0")
    case True
    then show ?thesis
      by (simp add: int_of_str_def sp) (simp add: str_int_def int_of_body_decimals)
  next
    case False
    obtain c t where ct: "str_nat (nat i) = c # t" by (cases "str_nat (nat i)") auto
    with str_nat_decimal [of "nat i"] have "is_decimal c" by simp
    then have "c \<noteq> CHR ''-''" and "c \<noteq> CHR ''+''" by (simp_all add: decimal_not_special)
    moreover have "int_of_body (str_nat (nat i)) = Inr i"
      using False by (simp add: int_of_body_decimals)
    ultimately show ?thesis using False ct by (simp add: int_of_str_def sp) (simp add: str_int_def)
  qed
qed

lemma int_of_str_Nil [simp]: "int_of_str [] = Inl ValueError"
  by (simp add: int_of_str_def strip_def lstrip_def rstrip_def)

lemma str_int_not_Nil [simp]: "str_int i \<noteq> []"
  by (simp add: str_int_def)

lemma round2_mono: "x \<le> y \<Longrightarrow> round2 x \<le> round2 y"
  unfolding round2_def by (intro fl_mono divide_right_mono) (simp_all add: round_mono mult_right_mono)

lemma round2_0 [simp]: "round2 0 = 0"
  using round_of_int [of 0] by (simp add: round2_def)

lemma fl_1 [simp]: "fl 1 = 1"
  using is_double_of_nat [of 1] by simp

lemma fl_100 [simp]: "fl 100 = 100"
  using is_double_of_nat [of 100] by simp

lemma round2_100 [simp]: "round2 100 = 100"
  using round_of_int [of 10000] by (simp add: round2_def)

lemma round1_mono: "x \<le> y \<Longrightarrow> round1 x \<le> round1 y"
  unfolding round1_def by (intro fl_mono divide_right_mono) (simp_all add: round_mono mult_right_mono)

lemma round1_0 [simp]: "round1 0 = 0"
  using round_of_int [of 0] by (simp add: round1_def)

lemma round1_100 [simp]: "round1 100 = 100"
  using round_of_int [of 1000] by (simp add: round1_def)

lemma round1_bounds: "0 \<le> x \<Longrightarrow> x \<le> 100 \<Longrightarrow> 0 \<le> round1 x \<and> round1 x \<le> 100"
  using round1_mono [of 0 x] round1_mono [of x 100] by simp

text \<open>A share in percent, \<open>a / b * 100\<close>.\<close>

definition fpercent :: "rat \<Rightarrow> rat \<Rightarrow> rat" where
  "fpercent a b = fmul (fdiv a b) 100"

lemma fpercent_bounds:
  assumes "0 \<le> a" and "a \<le> b" and "0 < b"
  shows "0 \<le> fpercent a b" and "fpercent a b \<le> 100"
proof -
  from assms have d0: "0 \<le> fdiv a b" by (simp add: fdiv_def)
  from assms have d1: "fdiv a b \<le> 1" using fl_mono [of "a / b" 1] by (simp add: fdiv_def)
  show "0 \<le> fpercent a b" using d0 by (simp add: fpercent_def fmul_def)
  show "fpercent a b \<le> 100"
    using fl_mono [of "fdiv a b * 100" 100] d1 by (simp add: fpercent_def fmul_def)
qed

lemma fpercent_full: "0 < b \<Longrightarrow> fpercent b b = 100"
  by (simp add: fpercent_def fdiv_def fmul_def)

end
