(* ===== verification/Quota.thy ===== *)
theory Quota
  imports Exceptions Py_Num
begin

text \<open>
  Token quotas of tenants: the service (src/fastapi\_backend/app/services/quota\_service.py) and
  the admin endpoints that edit its file (src/fastapi\_backend/app/api/admin/quotas\_admin.py).
  Redis is a parameter (\<open>redis\<close>: GET, and the transaction of INCRBY and EXPIRE the service
  sends), and so are reading and writing YAML; \<open>redis_ok\<close> and the round trip of YAML are
  the documented behaviour the properties use. The day is the UTC date the clock gives.
\<close>

section \<open>Redis\<close>

record 's redis =
  r_get :: "string \<Rightarrow> 's \<Rightarrow> py_exc + string option"
  r_incrby_expire :: "string \<Rightarrow> int \<Rightarrow> nat \<Rightarrow> 's \<Rightarrow> py_exc + 's"

text \<open>The integer a key holds: a missing key counts as zero.\<close>

definition counter_value :: "string option \<Rightarrow> int option" where
  "counter_value v = (case v of None \<Rightarrow> Some 0
     | Some t \<Rightarrow> (case int_of_str t of Inl _ \<Rightarrow> None | Inr i \<Rightarrow> Some i))"

text \<open>INCRBY adds to the integer at the key and leaves every other key alone; EXPIRE with a
  positive time keeps the value.\<close>

definition redis_ok :: "'s redis \<Rightarrow> bool" where
  "redis_ok R = (\<forall>k n ttl s s'. 0 < ttl \<longrightarrow> r_incrby_expire R k n ttl s = Inr s' \<longrightarrow>
     (\<forall>k'. k' \<noteq> k \<longrightarrow> r_get R k' s' = r_get R k' s)
     \<and> (\<exists>v c. r_get R k s = Inr v \<and> counter_value v = Some c
          \<and> r_get R k s' = Inr (Some (str_int (c + n)))))"

section \<open>The service\<close>

record quota_service =
  quotas :: "(json \<times> json) list"
  default_quota :: json

definition hashable :: "json \<Rightarrow> bool" where
  "hashable v = (case v of JArr _ \<Rightarrow> False | JObj _ \<Rightarrow> False | _ \<Rightarrow> True)"

text \<open>\<open>{t["id"]: t for t in config.get("tenants", [])}\<close>; \<open>None\<close> stands for an exception.\<close>

fun tenants_dict :: "json list \<Rightarrow> (json \<times> json) list \<Rightarrow> (json \<times> json) list option" where
  "tenants_dict [] d = Some d"
| "tenants_dict (t # ts) d =
     (case jobj_get t ''id'' of
        None \<Rightarrow> None
      | Some i \<Rightarrow> (if hashable i then tenants_dict ts (dict_set d i t) else None))"

text \<open>\<open>_load_quotas\<close> on what opening and parsing the file gives (\<open>None\<close>: an exception).\<close>

definition load_failed :: quota_service where
  "load_failed = \<lparr>quotas = [], default_quota = JObj [(''max_tokens'', JInt 0)]\<rparr>"

definition load_quotas :: "json option \<Rightarrow> quota_service" where
  "load_quotas parsed =
     (case parsed of
        Some (JObj config) \<Rightarrow>
          (case json_iter (dict_get_default config ''tenants'' (JArr [])) of
             None \<Rightarrow> load_failed
           | Some ts \<Rightarrow>
               (case tenants_dict ts [] of
                  None \<Rightarrow> load_failed
                | Some d \<Rightarrow> \<lparr>quotas = d, default_quota =
                    dict_get_default config ''defaults'' (JObj [(''max_tokens'', JInt 10000)])\<rparr>))
      | _ \<Rightarrow> load_failed)"

text \<open>The key is the id as the document or the caller gives it, a text for every caller but the
  listing of the file.\<close>

definition config_for :: "quota_service \<Rightarrow> json \<Rightarrow> json" where
  "config_for q i = dict_get_default (quotas q) i (default_quota q)"

definition get_tenant_config :: "quota_service \<Rightarrow> string \<Rightarrow> json" where
  "get_tenant_config q tenant = config_for q (JStr tenant)"

text \<open>\<open>config.get("max_tokens", 0)\<close>.\<close>

definition max_tokens_of :: "json \<Rightarrow> json py" where
  "max_tokens_of config = (case config of JObj d \<Rightarrow> Inr (dict_get_default d ''max_tokens'' (JInt 0))
     | _ \<Rightarrow> Inl AttributeError)"

text \<open>The UTC date and \<open>strftime("%Y-%m-%d")\<close> for years of four digits.\<close>

record utc_date =
  year :: nat
  month :: nat
  day :: nat

definition pad2 :: "nat \<Rightarrow> string" where
  "pad2 n = (if n < 10 then ''0'' @ str_nat n else str_nat n)"

definition strftime_ymd :: "utc_date \<Rightarrow> string" where
  "strftime_ymd d = str_nat (year d) @ ''-'' @ pad2 (month d) @ ''-'' @ pad2 (day d)"

definition quota_key :: "string \<Rightarrow> utc_date \<Rightarrow> string" where
  "quota_key tenant d = ''quota:tenant:'' @ tenant @ '':'' @ strftime_ymd d"

definition check_quota :: "quota_service \<Rightarrow> 's redis \<Rightarrow> utc_date \<Rightarrow> string \<Rightarrow> 's \<Rightarrow> bool py" where
  "check_quota q R today tenant s =
     (case max_tokens_of (get_tenant_config q tenant) of
        Inl e \<Rightarrow> Inl e
      | Inr m \<Rightarrow>
          (case num_of m of
             Inl e \<Rightarrow> Inl e
           | Inr max_tokens \<Rightarrow>
               (if max_tokens \<le> 0 then Inr False
                else (case r_get R (quota_key tenant today) s of
                    Inl e \<Rightarrow> Inl e
                  | Inr None \<Rightarrow> Inr True
                  | Inr (Some t) \<Rightarrow>
                      (case int_of_str t of Inl e \<Rightarrow> Inl e
                       | Inr current_usage \<Rightarrow> Inr (of_int current_usage < max_tokens))))))"

definition increment_usage :: "'s redis \<Rightarrow> utc_date \<Rightarrow> string \<Rightarrow> int \<Rightarrow> 's \<Rightarrow> py_exc + 's" where
  "increment_usage R today tenant tokens = r_incrby_expire R (quota_key tenant today) tokens (86400 + 3600)"

record quota_status =
  qs_tenant_id :: json
  qs_max_tokens :: json
  qs_used_tokens :: int
  qs_remaining_tokens :: json
  qs_percent_used :: json
  qs_reset_period :: json

text \<open>\<open>max(0, max_tokens - current_usage)\<close> and the percentage, on integers and floats.\<close>

definition remaining_tokens :: "json \<Rightarrow> int \<Rightarrow> json py" where
  "remaining_tokens m used =
     (case m of
        JFloat x \<Rightarrow> (let r = fl (x - fl (of_int used)) in Inr (if 0 < r then JFloat r else JInt 0))
      | JInt i \<Rightarrow> Inr (JInt (max 0 (i - used)))
      | JBool b \<Rightarrow> Inr (JInt (max 0 ((if b then 1 else 0) - used)))
      | _ \<Rightarrow> Inl TypeError)"

definition percent_used :: "json \<Rightarrow> int \<Rightarrow> json py" where
  "percent_used m used =
     (case num_of m of
        Inl e \<Rightarrow> Inl e
      | Inr x \<Rightarrow>
          (if 0 < x then
             (let u = (case m of JFloat _ \<Rightarrow> fl (of_int used) | _ \<Rightarrow> of_int used)
              in Inr (JFloat (round2 (fpercent u x))))
           else Inr (JInt 100)))"

text \<open>\<open>int(raw) if raw else 0\<close>.\<close>

definition usage_of :: "string option \<Rightarrow> int py" where
  "usage_of raw = (case raw of None \<Rightarrow> Inr 0 | Some [] \<Rightarrow> Inr 0 | Some t \<Rightarrow> int_of_str t)"

definition quota_status_for :: "quota_service \<Rightarrow> 's redis \<Rightarrow> utc_date \<Rightarrow> json \<Rightarrow> string \<Rightarrow> 's \<Rightarrow> quota_status py" where
  "quota_status_for q R today i shown s =
     (let config = config_for q i in
      case max_tokens_of config of
        Inl e \<Rightarrow> Inl e
      | Inr m \<Rightarrow>
          (case r_get R (quota_key shown today) s of
             Inl e \<Rightarrow> Inl e
           | Inr raw \<Rightarrow>
               (case usage_of raw of
                  Inl e \<Rightarrow> Inl e
                | Inr used \<Rightarrow>
                    (case remaining_tokens m used of
                       Inl e \<Rightarrow> Inl e
                     | Inr rem \<Rightarrow>
                         (case percent_used m used of
                            Inl e \<Rightarrow> Inl e
                          | Inr pct \<Rightarrow> Inr \<lparr>qs_tenant_id = i, qs_max_tokens = m, qs_used_tokens = used,
                              qs_remaining_tokens = rem, qs_percent_used = pct,
                              qs_reset_period = (case jobj_get config ''reset_period'' of
                                None \<Rightarrow> JStr ''daily'' | Some p \<Rightarrow> p)\<rparr>)))))"

definition get_quota_status :: "quota_service \<Rightarrow> 's redis \<Rightarrow> utc_date \<Rightarrow> string \<Rightarrow> 's \<Rightarrow> quota_status py" where
  "get_quota_status q R today tenant s = quota_status_for q R today (JStr tenant) tenant s"

section \<open>The admin endpoints\<close>

text \<open>The file is \<open>None\<close> when it does not exist. A YAML document is read by \<open>yaml_load\<close>
  (\<open>None\<close>: it does not parse) and written by \<open>yaml_dump\<close>.\<close>

record quota_update =
  qu_max_tokens :: int
  qu_reset_period :: string
  qu_is_active :: bool

definition read_failed :: exn where
  "read_failed = HTTPException 500 (JStr ''Failed to read quotas configuration'')"

definition save_failed :: exn where
  "save_failed = HTTPException 500 (JStr ''Failed to save quotas configuration'')"

definition or_empty :: "json \<Rightarrow> json" where
  "or_empty v = (if truthy v then v else JObj [])"

definition enrich_tenant :: "(rat \<Rightarrow> string) \<Rightarrow> quota_service \<Rightarrow> 's redis \<Rightarrow> utc_date \<Rightarrow> 's \<Rightarrow> json \<Rightarrow> json option" where
  "enrich_tenant fr q R today s t =
     (case t of
        JObj d \<Rightarrow>
          (case dict_get d ''id'' of
             None \<Rightarrow> None
           | Some i \<Rightarrow>
               (if \<not> hashable i then None
                else case quota_status_for q R today i (json_str fr i) s of
                    Inl _ \<Rightarrow> None
                  | Inr st \<Rightarrow> Some (JObj
                      [(''id'', i),
                       (''max_tokens'', dict_get_default d ''max_tokens'' (JInt 0)),
                       (''reset_period'', dict_get_default d ''reset_period'' (JStr ''daily'')),
                       (''is_active'', dict_get_default d ''is_active'' (JBool True)),
                       (''used_tokens'', JInt (qs_used_tokens st)),
                       (''percent_used'', qs_percent_used st)])))
      | _ \<Rightarrow> None)"

fun map_option_list :: "('a \<Rightarrow> 'b option) \<Rightarrow> 'a list \<Rightarrow> 'b list option" where
  "map_option_list f [] = Some []"
| "map_option_list f (x # xs) =
     (case f x of None \<Rightarrow> None | Some y \<Rightarrow> map_option (Cons y) (map_option_list f xs))"

definition get_all_quotas :: "(string \<Rightarrow> json option) \<Rightarrow> (rat \<Rightarrow> string) \<Rightarrow> 's redis \<Rightarrow> utc_date
    \<Rightarrow> string option \<Rightarrow> quota_service \<Rightarrow> 's \<Rightarrow> exn + json" where
  "get_all_quotas yaml_load fr R today file q s =
     (case file of
        None \<Rightarrow> Inr (JObj [(''tenants'', JArr []), (''defaults'', JObj [])])
      | Some text \<Rightarrow>
          (case map_option or_empty (yaml_load text) of
             Some (JObj data) \<Rightarrow>
               (case json_iter (dict_get_default data ''tenants'' (JArr [])) of
                  None \<Rightarrow> Inl read_failed
                | Some ts \<Rightarrow>
                    (case map_option_list (enrich_tenant fr q R today s) ts of
                       None \<Rightarrow> Inl read_failed
                     | Some es \<Rightarrow> Inr (JObj [(''tenants'', JArr es),
                         (''defaults'', dict_get_default data ''defaults'' (JObj []))])))
           | _ \<Rightarrow> Inl read_failed))"

text \<open>The loop over the entries: the first entry with the id is changed in place.\<close>

definition update_entry :: "quota_update \<Rightarrow> (string \<times> json) list \<Rightarrow> (string \<times> json) list" where
  "update_entry u d = dict_set (dict_set (dict_set d ''max_tokens'' (JInt (qu_max_tokens u)))
     ''reset_period'' (JStr (qu_reset_period u))) ''is_active'' (JBool (qu_is_active u))"

fun update_entries :: "string \<Rightarrow> quota_update \<Rightarrow> json list \<Rightarrow> (json list \<times> bool) option" where
  "update_entries tenant u [] = Some ([], False)"
| "update_entries tenant u (t # ts) =
     (case t of
        JObj d \<Rightarrow>
          (if dict_get d ''id'' = Some (JStr tenant) then Some (JObj (update_entry u d) # ts, True)
           else map_option (\<lambda>(ts', found). (t # ts', found)) (update_entries tenant u ts))
      | _ \<Rightarrow> None)"

definition new_entry :: "string \<Rightarrow> quota_update \<Rightarrow> json" where
  "new_entry tenant u = JObj [(''id'', JStr tenant), (''max_tokens'', JInt (qu_max_tokens u)),
     (''reset_period'', JStr (qu_reset_period u)), (''is_active'', JBool (qu_is_active u))]"

definition updated_document :: "string \<Rightarrow> quota_update \<Rightarrow> json \<Rightarrow> json option" where
  "updated_document tenant u doc =
     (case doc of
        JObj data \<Rightarrow>
          (let data' = (if dict_get data ''tenants'' = None then dict_set data ''tenants'' (JArr []) else data)
           in case dict_get data' ''tenants'' of
                Some (JArr ts) \<Rightarrow>
                  (case update_entries tenant u ts of
                     None \<Rightarrow> None
                   | Some (ts', found) \<Rightarrow> Some (JObj (dict_set data' ''tenants''
                       (JArr (if found then ts' else ts' @ [new_entry tenant u])))))
              | _ \<Rightarrow> None)
      | _ \<Rightarrow> None)"

definition update_tenant_quota :: "(string \<Rightarrow> json option) \<Rightarrow> (json \<Rightarrow> string) \<Rightarrow> string \<Rightarrow> quota_update
    \<Rightarrow> string option \<Rightarrow> quota_service \<Rightarrow> string option \<times> quota_service \<times> (exn + json)" where
  "update_tenant_quota yaml_load yaml_dump tenant u file q =
     (case (case file of None \<Rightarrow> Some (JObj []) | Some text \<Rightarrow> map_option or_empty (yaml_load text)) of
        None \<Rightarrow> (file, q, Inl save_failed)
      | Some data \<Rightarrow>
          (case updated_document tenant u data of
             None \<Rightarrow> (file, q, Inl save_failed)
           | Some doc \<Rightarrow>
               (let content' = yaml_dump doc
                in (Some content', load_quotas (yaml_load content'),
                    Inr (JObj [(''status'', JStr ''success''),
                      (''message'', JStr (''Quota updated for '' @ tenant))])))))"

section \<open>Properties of the counters\<close>

text \<open>A sequence of increments on one day, as requests of several tenants make them.\<close>

fun run_increments :: "'s redis \<Rightarrow> utc_date \<Rightarrow> (string \<times> int) list \<Rightarrow> 's \<Rightarrow> py_exc + 's" where
  "run_increments R today [] s = Inr s"
| "run_increments R today ((t, n) # xs) s =
     (case increment_usage R today t n s of Inl e \<Rightarrow> Inl e | Inr s' \<Rightarrow> run_increments R today xs s')"

lemma quota_key_inj: "quota_key t d = quota_key t' d \<longleftrightarrow> t = t'"
  by (simp add: quota_key_def)

lemma quota_status_used:
  assumes "get_quota_status q R today t s = Inr st"
  shows "\<exists>raw. r_get R (quota_key t today) s = Inr raw \<and> usage_of raw = Inr (qs_used_tokens st)"
  using assms by (auto simp: get_quota_status_def quota_status_for_def Let_def split: sum.splits)

lemma redis_okD:
  assumes "redis_ok R" and "r_incrby_expire R k n ttl s = Inr s'" and "0 < ttl"
  shows "k' \<noteq> k \<Longrightarrow> r_get R k' s' = r_get R k' s"
    and "\<exists>v c. r_get R k s = Inr v \<and> counter_value v = Some c \<and> r_get R k s' = Inr (Some (str_int (c + n)))"
  using assms unfolding redis_ok_def by blast+

lemma increment_usage_reads:
  assumes "redis_ok R" and "increment_usage R today t n s = Inr s'"
    and "r_get R (quota_key t' today) s = Inr raw" and "usage_of raw = Inr c"
  shows "\<exists>raw'. r_get R (quota_key t' today) s' = Inr raw'
    \<and> usage_of raw' = Inr (c + (if t' = t then n else 0))"
proof (cases "t' = t")
  case False
  then have "r_get R (quota_key t' today) s' = r_get R (quota_key t' today) s"
    using redis_okD(1) [OF assms(1) assms(2) [unfolded increment_usage_def]] by (simp add: quota_key_inj)
  with False assms(3,4) show ?thesis by simp
next
  case True
  from assms(1,2) obtain v d where v: "r_get R (quota_key t today) s = Inr v" "counter_value v = Some d"
    "r_get R (quota_key t today) s' = Inr (Some (str_int (d + n)))"
    using redis_okD(2) [OF assms(1) assms(2) [unfolded increment_usage_def]] by auto
  have "d = c"
    using v(1,2) assms(3,4) True
    by (auto simp: counter_value_def usage_of_def split: option.splits sum.splits list.splits)
  have "usage_of (Some (str_int (d + n))) = Inr (d + n)"
    by (cases "str_int (d + n)") (simp_all add: usage_of_def, metis int_of_str_str_int)
  with v True \<open>d = c\<close> show ?thesis by simp
qed

text \<open>Usage adds up per tenant: after any sequence of increments on a day, made for any
  tenants in any order, the usage reported for a tenant is the old one plus the sum of the
  increments made for that tenant, those of other tenants counting nothing.\<close>

theorem increments_add_up:
  assumes "redis_ok R" and "run_increments R today incs s = Inr s'"
    and "get_quota_status q R today tenant s = Inr st"
    and "get_quota_status q R today tenant s' = Inr st'"
  shows "qs_used_tokens st' = qs_used_tokens st + sum_list (map snd (filter (\<lambda>p. fst p = tenant) incs))"
proof -
  have "\<exists>raw'. r_get R (quota_key tenant today) s' = Inr raw'
      \<and> usage_of raw' = Inr (c + sum_list (map snd (filter (\<lambda>p. fst p = tenant) incs)))"
    if "run_increments R today incs s = Inr s'" and "r_get R (quota_key tenant today) s = Inr raw"
      and "usage_of raw = Inr c" for incs s raw c
    using that
  proof (induction incs arbitrary: s raw c)
    case Nil
    then show ?case by simp
  next
    case (Cons p incs)
    obtain t n where p: "p = (t, n)" by (cases p)
    with Cons.prems(1) obtain s1 where s1: "increment_usage R today t n s = Inr s1"
      "run_increments R today incs s1 = Inr s'" by (auto split: sum.splits)
    from increment_usage_reads [OF assms(1) s1(1) Cons.prems(2,3)]
    obtain raw1 where "r_get R (quota_key tenant today) s1 = Inr raw1"
      "usage_of raw1 = Inr (c + (if tenant = t then n else 0))" by blast
    from Cons.IH [OF s1(2) this] show ?case by (auto simp: p add.assoc split: if_splits)
  qed
  from this [OF assms(2)] quota_status_used [OF assms(3)] quota_status_used [OF assms(4)]
  show ?thesis by fastforce
qed

text \<open>C29. The decision and the report agree: on a day where the counter is readable and not
  negative, a tenant with an integer limit may go on exactly when the reported remaining tokens
  are positive.\<close>

theorem check_quota_iff_remaining:
  assumes "get_quota_status q R today tenant s = Inr st" and "qs_max_tokens st = JInt m"
    and "0 \<le> qs_used_tokens st" and "r_get R (quota_key tenant today) s \<noteq> Inr (Some [])"
  shows "\<exists>r. qs_remaining_tokens st = JInt r \<and> check_quota q R today tenant s = Inr (0 < r)"
proof -
  from assms(1,2) obtain raw where m: "max_tokens_of (config_for q (JStr tenant)) = Inr (JInt m)"
    and raw: "r_get R (quota_key tenant today) s = Inr raw" "usage_of raw = Inr (qs_used_tokens st)"
    and rem: "qs_remaining_tokens st = JInt (max 0 (m - qs_used_tokens st))"
    by (auto simp: get_quota_status_def quota_status_for_def Let_def remaining_tokens_def split: sum.splits)
  have u: "case raw of None \<Rightarrow> qs_used_tokens st = 0 | Some t \<Rightarrow> int_of_str t = Inr (qs_used_tokens st)"
    using raw assms(4) by (auto simp: usage_of_def split: option.splits list.splits)
  have "check_quota q R today tenant s = Inr (qs_used_tokens st < m)"
    using m raw(1) u assms(3)
    by (auto simp: check_quota_def get_tenant_config_def num_of_def split: option.splits)
  with rem show ?thesis by (simp add: less_max_iff_disj)
qed

text \<open>The percentage shown is a percentage: with an integer limit and a usage between zero and
  the limit it lies between 0 and 100 in spite of rounding, and a used-up quota shows exactly
  100.\<close>

theorem percent_used_bounds:
  assumes "get_quota_status q R today tenant s = Inr st" and "qs_max_tokens st = JInt m"
    and "0 \<le> qs_used_tokens st" and "qs_used_tokens st \<le> m" and "0 < m"
  shows "\<exists>p. qs_percent_used st = JFloat p \<and> 0 \<le> p \<and> p \<le> 100 \<and> (qs_used_tokens st = m \<longrightarrow> p = 100)"
proof -
  define u where "u = (of_int (qs_used_tokens st) :: rat)"
  have p: "qs_percent_used st = JFloat (round2 (fpercent u (of_int m)))"
    using assms(1,2,5)
    by (auto simp: get_quota_status_def quota_status_for_def Let_def percent_used_def num_of_def u_def
        split: sum.splits)
  have u: "0 \<le> u" "u \<le> of_int m" "0 < (of_int m :: rat)" using assms by (auto simp: u_def)
  have "0 \<le> round2 (fpercent u (of_int m))" using round2_mono [OF fpercent_bounds(1) [OF u]] by simp
  moreover have "round2 (fpercent u (of_int m)) \<le> 100" using round2_mono [OF fpercent_bounds(2) [OF u]] by simp
  moreover have "round2 (fpercent u (of_int m)) = 100" if "qs_used_tokens st = m"
    using that u(3) by (simp add: u_def fpercent_full)
  ultimately show ?thesis using p by blast
qed

text \<open>A quota file that cannot be read or does not have the expected shape refuses every
  tenant, whatever the counters hold; and so does a limit that is not positive.\<close>

theorem quota_fails_closed:
  "(load_quotas parsed = load_failed \<longrightarrow> check_quota (load_quotas parsed) R today tenant s = Inr False)
   \<and> (parsed = None \<longrightarrow> load_quotas parsed = load_failed)
   \<and> (\<forall>m. max_tokens_of (get_tenant_config q tenant) = Inr (JInt m) \<and> m \<le> 0 \<longrightarrow>
        check_quota q R today tenant s = Inr False)"
  by (auto simp: check_quota_def get_tenant_config_def config_for_def load_failed_def
      dict_get_default_def max_tokens_of_def num_of_def load_quotas_def)

section \<open>Properties of the file\<close>

lemma update_entries_result:
  assumes "\<forall>t \<in> set ts. \<exists>i. jobj_get t ''id'' = Some i"
  shows "\<exists>ts' found. update_entries tenant u ts = Some (ts', found)
    \<and> (found \<longrightarrow> (\<exists>a d b. ts = a @ JObj d # b \<and> dict_get d ''id'' = Some (JStr tenant)
          \<and> ts' = a @ JObj (update_entry u d) # b \<and> (\<forall>t \<in> set a. jobj_get t ''id'' \<noteq> Some (JStr tenant))))
    \<and> (\<not> found \<longrightarrow> ts' = ts \<and> (\<forall>t \<in> set ts. jobj_get t ''id'' \<noteq> Some (JStr tenant)))"
  using assms
proof (induction ts)
  case Nil
  show ?case by (rule exI [of _ "[]"], rule exI [of _ False]) simp
next
  case (Cons t ts)
  from Cons.prems obtain d i where t: "t = JObj d" "dict_get d ''id'' = Some i"
    by (auto simp: jobj_get_def split: json.splits)
  show ?case
  proof (cases "i = JStr tenant")
    case True
    with t have "update_entries tenant u (t # ts) = Some (JObj (update_entry u d) # ts, True)" by simp
    moreover have "t # ts = [] @ JObj d # ts" using t by simp
    ultimately show ?thesis using t True by (metis append_Nil empty_iff list.set(1))
  next
    case False
    from Cons.prems have "\<forall>t \<in> set ts. \<exists>i. jobj_get t ''id'' = Some i" by simp
    from Cons.IH [OF this] obtain ts' found where IH: "update_entries tenant u ts = Some (ts', found)"
      "found \<longrightarrow> (\<exists>a d b. ts = a @ JObj d # b \<and> dict_get d ''id'' = Some (JStr tenant)
          \<and> ts' = a @ JObj (update_entry u d) # b \<and> (\<forall>t \<in> set a. jobj_get t ''id'' \<noteq> Some (JStr tenant)))"
      "\<not> found \<longrightarrow> ts' = ts \<and> (\<forall>t \<in> set ts. jobj_get t ''id'' \<noteq> Some (JStr tenant))"
      by blast
    have nt: "jobj_get t ''id'' \<noteq> Some (JStr tenant)" using t False by (simp add: jobj_get_def)
    have up: "update_entries tenant u (t # ts) = Some (t # ts', found)" using t False IH(1) by simp
    show ?thesis
    proof (cases found)
      case True
      with IH(2) obtain a d b where "ts = a @ JObj d # b" "dict_get d ''id'' = Some (JStr tenant)"
        "ts' = a @ JObj (update_entry u d) # b" "\<forall>t \<in> set a. jobj_get t ''id'' \<noteq> Some (JStr tenant)" by blast
      then have "t # ts = (t # a) @ JObj d # b" "t # ts' = (t # a) @ JObj (update_entry u d) # b"
        "\<forall>t \<in> set (t # a). jobj_get t ''id'' \<noteq> Some (JStr tenant)" using nt by auto
      with up True \<open>dict_get d ''id'' = Some (JStr tenant)\<close> show ?thesis by blast
    next
      case False
      with IH(3) nt up show ?thesis by auto
    qed
  qed
qed

text \<open>The dictionary of the service, for entries with ids: the last entry with an id counts.\<close>

lemma tenants_dict_get:
  assumes "\<forall>t \<in> set ts. \<exists>i. jobj_get t ''id'' = Some i \<and> hashable i"
  shows "\<exists>d'. tenants_dict ts d = Some d'
    \<and> (\<forall>k. dict_get d' k = (case find (\<lambda>t. jobj_get t ''id'' = Some k) (rev ts) of
         Some t \<Rightarrow> Some t | None \<Rightarrow> dict_get d k))"
  using assms
proof (induction ts arbitrary: d)
  case Nil
  then show ?case by simp
next
  case (Cons t ts)
  from Cons.prems obtain i where i: "jobj_get t ''id'' = Some i" "hashable i" by auto
  from Cons.IH [of "dict_set d i t"] Cons.prems obtain d' where
    d': "tenants_dict ts (dict_set d i t) = Some d'"
    "\<forall>k. dict_get d' k = (case find (\<lambda>t. jobj_get t ''id'' = Some k) (rev ts) of
         Some t \<Rightarrow> Some t | None \<Rightarrow> dict_get (dict_set d i t) k)" by auto
  have f: "find P (xs @ [x]) = (case find P xs of None \<Rightarrow> (if P x then Some x else None) | Some y \<Rightarrow> Some y)"
    for P and xs and x :: json by (induction xs) auto
  from i d' show ?case by (auto simp: f dict_simps split: option.split)
qed

lemma load_quotas_config:
  assumes "dict_get data ''tenants'' = Some (JArr ts)"
    and "\<forall>t \<in> set ts. \<exists>i. jobj_get t ''id'' = Some i \<and> hashable i"
    and "distinct (map (\<lambda>t. jobj_get t ''id'') ts)"
  shows "config_for (load_quotas (Some (JObj data))) k =
    (case find (\<lambda>t. jobj_get t ''id'' = Some k) ts of Some t \<Rightarrow> t
     | None \<Rightarrow> dict_get_default data ''defaults'' (JObj [(''max_tokens'', JInt 10000)]))"
proof -
  from tenants_dict_get [OF assms(2), of "[]"] obtain d' where d': "tenants_dict ts [] = Some d'"
    "\<forall>k. dict_get d' k = (case find (\<lambda>t. jobj_get t ''id'' = Some k) (rev ts) of
         Some t \<Rightarrow> Some t | None \<Rightarrow> dict_get [] k)" by auto
  have f: "find (\<lambda>t. jobj_get t ''id'' = Some k) (rev ts) = find (\<lambda>t. jobj_get t ''id'' = Some k) ts"
    by (rule find_rev_distinct [OF assms(3)])
  from d'(2) f have "dict_get d' k = find (\<lambda>t. jobj_get t ''id'' = Some k) ts"
    by (simp split: option.split)
  then show ?thesis
    using assms(1) d'(1) by (simp add: load_quotas_def config_for_def json_iter_def dict_get_default_def
        split: option.split)
qed

lemma update_entry_id: "dict_get (update_entry u d) ''id'' = dict_get d ''id''"
  by (simp add: update_entry_def dict_simps)

lemma update_entry_max: "dict_get (update_entry u d) ''max_tokens'' = Some (JInt (qu_max_tokens u))"
  by (simp add: update_entry_def dict_simps)

text \<open>The list of tenants after an update: it still has one entry per id, the entry of the tenant has the
  new limit, and no other id finds another entry.\<close>

lemma updated_tenants:
  assumes ue: "update_entries tenant u ts = Some (ts', found)"
    and ids: "\<forall>t \<in> set ts. \<exists>i. jobj_get t ''id'' = Some i \<and> hashable i"
    and dist: "distinct (map (\<lambda>t. jobj_get t ''id'') ts)"
  defines "ts2 \<equiv> if found then ts' else ts' @ [new_entry tenant u]"
  shows "(\<forall>t \<in> set ts2. \<exists>i. jobj_get t ''id'' = Some i \<and> hashable i) \<and> distinct (map (\<lambda>t. jobj_get t ''id'') ts2)
      \<and> (\<exists>d. find (\<lambda>t. jobj_get t ''id'' = Some (JStr tenant)) ts2 = Some (JObj d)
           \<and> dict_get d ''max_tokens'' = Some (JInt (qu_max_tokens u)))
      \<and> (\<forall>k. k \<noteq> JStr tenant \<longrightarrow> find (\<lambda>t. jobj_get t ''id'' = Some k) ts2 = find (\<lambda>t. jobj_get t ''id'' = Some k) ts)"
proof -
  let ?id = "\<lambda>t. jobj_get t ''id''"
  have "\<forall>t \<in> set ts. \<exists>i. ?id t = Some i" using ids by blast
  from update_entries_result [OF this, of tenant u] ue have
    yes: "found \<longrightarrow> (\<exists>a d b. ts = a @ JObj d # b \<and> dict_get d ''id'' = Some (JStr tenant)
          \<and> ts' = a @ JObj (update_entry u d) # b \<and> (\<forall>t \<in> set a. ?id t \<noteq> Some (JStr tenant)))" and
    no: "\<not> found \<longrightarrow> ts' = ts \<and> (\<forall>t \<in> set ts. ?id t \<noteq> Some (JStr tenant))" by auto
  show ?thesis
  proof (cases found)
    case True
    with yes obtain a d b where y: "ts = a @ JObj d # b" "dict_get d ''id'' = Some (JStr tenant)"
      "ts' = a @ JObj (update_entry u d) # b" "\<forall>t \<in> set a. ?id t \<noteq> Some (JStr tenant)" by blast
    have e: "?id (JObj (update_entry u d)) = ?id (JObj d)" "?id (JObj d) = Some (JStr tenant)"
      by (simp_all add: jobj_get_def update_entry_id y)
    have "find (\<lambda>t. ?id t = Some (JStr tenant)) a = None" using y(4) by (auto simp: find_None_iff)
    then have "find (\<lambda>t. ?id t = Some (JStr tenant)) ts2 = Some (JObj (update_entry u d))"
      using True y e by (simp add: ts2_def find_append)
    moreover have "map ?id ts2 = map ?id ts" using True y e by (simp add: ts2_def)
    moreover have "\<forall>t \<in> set ts2. \<exists>i. ?id t = Some i \<and> hashable i"
      using True y e ids by (auto simp: ts2_def)
    moreover have "find (\<lambda>t. ?id t = Some k) ts2 = find (\<lambda>t. ?id t = Some k) ts" if "k \<noteq> JStr tenant" for k
      using True y e that by (simp add: ts2_def find_append split: option.split)
    ultimately show ?thesis using dist update_entry_max by auto
  next
    case False
    have new_id: "?id (new_entry tenant u) = Some (JStr tenant)" by (simp add: new_entry_def jobj_get_def)
    from False no have ts2: "ts2 = ts @ [new_entry tenant u]" and n: "\<forall>t \<in> set ts. ?id t \<noteq> Some (JStr tenant)"
      by (simp_all add: ts2_def)
    have "find (\<lambda>t. ?id t = Some (JStr tenant)) ts = None" using n by (auto simp: find_None_iff)
    then have f: "find (\<lambda>t. ?id t = Some (JStr tenant)) ts2 = Some (new_entry tenant u)"
      by (simp add: ts2 find_append new_id)
    have g: "find (\<lambda>t. ?id t = Some k) ts2 = find (\<lambda>t. ?id t = Some k) ts" if "k \<noteq> JStr tenant" for k
      using that by (simp add: ts2 find_append new_id split: option.split)
    have "distinct (map ?id ts2)" using dist n by (force simp: ts2 new_id)
    moreover have "\<forall>t \<in> set ts2. \<exists>i. ?id t = Some i \<and> hashable i"
      using ids by (auto simp: ts2 new_id hashable_def)
    moreover have "\<exists>d. new_entry tenant u = JObj d \<and> dict_get d ''max_tokens'' = Some (JInt (qu_max_tokens u))"
      by (simp add: new_entry_def)
    ultimately show ?thesis using f g by simp
  qed
qed

text \<open>An update of a tenant's quota is in force when the endpoint answers: when the document
  written reads back as it is and the ids are present and distinct, the call succeeds, the service limits the tenant by the new number from
  then on, and every other tenant keeps the configuration the file gave it.\<close>

theorem quota_update_in_force:
  assumes rt: "\<And>doc. updated_document tenant u (JObj data) = Some doc \<Longrightarrow> yaml_load (yaml_dump doc) = Some doc"
    and data: "yaml_load txt = Some (JObj data)" "dict_get data ''tenants'' = Some (JArr ts)"
    and ids: "\<forall>t \<in> set ts. \<exists>i. jobj_get t ''id'' = Some i \<and> hashable i"
    and dist: "distinct (map (\<lambda>t. jobj_get t ''id'') ts)"
    and upd: "update_tenant_quota yaml_load yaml_dump tenant u (Some txt) q = (file', q', r)"
  shows "(\<exists>v. r = Inr v)
    \<and> max_tokens_of (get_tenant_config q' tenant) = Inr (JInt (qu_max_tokens u))
    \<and> (\<forall>t'. t' \<noteq> tenant \<longrightarrow> get_tenant_config q' t' = get_tenant_config (load_quotas (yaml_load txt)) t')"
proof -
  let ?id = "\<lambda>t. jobj_get t ''id''"
  from update_entries_result [of ts tenant u] ids obtain ts' found where
    ue: "update_entries tenant u ts = Some (ts', found)" by blast
  define ts2 where "ts2 = (if found then ts' else ts' @ [new_entry tenant u])"
  define data2 where "data2 = dict_set data ''tenants'' (JArr ts2)"
  have ne: "data \<noteq> []" using data(2) by auto
  have doc: "updated_document tenant u (JObj data) = Some (JObj data2)"
    using data(2) ue by (simp add: updated_document_def data2_def ts2_def)
  have q': "q' = load_quotas (Some (JObj data2))" and r: "\<exists>v. r = Inr v"
    using upd data(1) ne doc rt by (auto simp: update_tenant_quota_def or_empty_def Let_def)
  note look = updated_tenants [OF ue ids dist, folded ts2_def]
  have defs: "dict_get_default data2 ''defaults'' x = dict_get_default data ''defaults'' x" for x
    by (simp add: data2_def dict_get_default_def dict_simps)
  have t2: "dict_get data2 ''tenants'' = Some (JArr ts2)" by (simp add: data2_def dict_simps)
  have c2: "config_for q' k = (case find (\<lambda>t. ?id t = Some k) ts2 of Some t \<Rightarrow> t
      | None \<Rightarrow> dict_get_default data ''defaults'' (JObj [(''max_tokens'', JInt 10000)]))" for k
    unfolding q' using load_quotas_config [OF t2, of k] look defs by (simp split: option.split)
  have c1: "config_for (load_quotas (yaml_load txt)) k = (case find (\<lambda>t. ?id t = Some k) ts of Some t \<Rightarrow> t
      | None \<Rightarrow> dict_get_default data ''defaults'' (JObj [(''max_tokens'', JInt 10000)]))" for k
    unfolding data(1) by (rule load_quotas_config [OF data(2) ids dist])
  from look obtain d where d: "find (\<lambda>t. ?id t = Some (JStr tenant)) ts2 = Some (JObj d)"
    "dict_get d ''max_tokens'' = Some (JInt (qu_max_tokens u))" by blast
  then have "max_tokens_of (get_tenant_config q' tenant) = Inr (JInt (qu_max_tokens u))"
    by (simp add: get_tenant_config_def c2 max_tokens_of_def dict_get_default_def)
  moreover have "get_tenant_config q' t' = get_tenant_config (load_quotas (yaml_load txt)) t'"
    if "t' \<noteq> tenant" for t' using look that by (simp add: get_tenant_config_def c1 c2)
  ultimately show ?thesis using r by blast
qed

section \<open>Witnesses\<close>

text \<open>A store of texts behaves as \<open>redis_ok\<close> asks.\<close>

definition map_redis :: "(string \<Rightarrow> string option) redis" where
  "map_redis = \<lparr>r_get = (\<lambda>k s. Inr (s k)),
     r_incrby_expire = (\<lambda>k n ttl s. case counter_value (s k) of
        None \<Rightarrow> Inl (RuntimeError ''value is not an integer'')
      | Some c \<Rightarrow> Inr (s(k \<mapsto> str_int (c + n))))\<rparr>"

lemma map_redis_ok: "redis_ok map_redis"
  by (auto simp: redis_ok_def map_redis_def split: option.splits)

definition sample_quotas :: quota_service where
  "sample_quotas = load_quotas (Some (JObj [(''tenants'', JArr
     [JObj [(''id'', JStr ''tenant-a''), (''max_tokens'', JInt 100)]])]))"

definition sample_day :: utc_date where
  "sample_day = \<lparr>year = 2025, month = 1, day = 31\<rparr>"

lemma sample_status:
  "get_quota_status sample_quotas map_redis sample_day ''tenant-a'' Map.empty
     = Inr \<lparr>qs_tenant_id = JStr ''tenant-a'', qs_max_tokens = JInt 100, qs_used_tokens = 0,
         qs_remaining_tokens = JInt 100, qs_percent_used = JFloat 0, qs_reset_period = JStr ''daily''\<rparr>"
  by (simp add: get_quota_status_def quota_status_for_def sample_quotas_def load_quotas_def json_iter_def
      dict_get_default_def jobj_get_def hashable_def config_for_def max_tokens_of_def map_redis_def
      usage_of_def remaining_tokens_def percent_used_def num_of_def fpercent_def fdiv_def fmul_def)

theorem increments_add_up_witness:
  "\<exists>s' st'. run_increments map_redis sample_day [(''tenant-a'', 40), (''tenant-b'', 5), (''tenant-a'', 2)]
       Map.empty = Inr s'
     \<and> get_quota_status sample_quotas map_redis sample_day ''tenant-a'' s' = Inr st'
     \<and> qs_used_tokens st' = 42"
proof -
  define s' where "s' = (Map.empty(quota_key ''tenant-a'' sample_day \<mapsto> str_int 40,
    quota_key ''tenant-b'' sample_day \<mapsto> str_int 5))(quota_key ''tenant-a'' sample_day \<mapsto> str_int 42)"
  have run: "run_increments map_redis sample_day [(''tenant-a'', 40), (''tenant-b'', 5), (''tenant-a'', 2)]
      Map.empty = Inr s'"
    by (simp add: increment_usage_def map_redis_def counter_value_def quota_key_inj s'_def)
  have "usage_of (Some (str_int 42)) = Inr 42"
    by (cases "str_int 42") (simp_all add: usage_of_def, metis int_of_str_str_int)
  then obtain st' where st': "get_quota_status sample_quotas map_redis sample_day ''tenant-a'' s' = Inr st'"
    by (simp add: s'_def get_quota_status_def quota_status_for_def sample_quotas_def load_quotas_def
        json_iter_def dict_get_default_def jobj_get_def hashable_def config_for_def max_tokens_of_def
        map_redis_def remaining_tokens_def percent_used_def num_of_def)
  from increments_add_up [OF map_redis_ok run sample_status st'] have "qs_used_tokens st' = 42" by simp
  with run st' show ?thesis by blast
qed

theorem check_quota_iff_remaining_witness:
  "check_quota sample_quotas map_redis sample_day ''tenant-a'' Map.empty = Inr True"
  using check_quota_iff_remaining [OF sample_status] by (simp add: map_redis_def)

theorem percent_used_bounds_witness:
  "\<exists>st p. get_quota_status sample_quotas map_redis sample_day ''tenant-a'' Map.empty = Inr st
     \<and> qs_percent_used st = JFloat p \<and> 0 \<le> p \<and> p \<le> 100"
  using percent_used_bounds [OF sample_status] sample_status by auto

theorem quota_fails_closed_witness:
  "check_quota (load_quotas None) map_redis sample_day ''tenant-a'' Map.empty = Inr False"
  using quota_fails_closed [where parsed = None and R = map_redis and s = Map.empty] by blast

text \<open>A reader that knows the two documents of one update, written as JSON, which is YAML.\<close>

definition one_update :: quota_update where
  "one_update = \<lparr>qu_max_tokens = 7, qu_reset_period = ''daily'', qu_is_active = True\<rparr>"

definition old_entries :: "(string \<times> json) list" where
  "old_entries = [(''tenants'', JArr [JObj [(''id'', JStr ''tenant-a'')]])]"

definition write_json :: "json \<Rightarrow> string" where
  "write_json = dumps (default_style (\<lambda>_. []))"

definition read_known :: "string \<Rightarrow> json option" where
  "read_known t = (if t = write_json (JObj old_entries) then Some (JObj old_entries)
     else updated_document ''tenant-a'' one_update (JObj old_entries))"

theorem quota_update_in_force_witness:
  "case update_tenant_quota read_known write_json ''tenant-a'' one_update
       (Some (write_json (JObj old_entries))) load_failed of
     (file', q', r) \<Rightarrow> max_tokens_of (get_tenant_config q' ''tenant-a'') = Inr (JInt 7)"
proof -
  have len: "length (write_json (JObj old_entries)) < length (write_json doc)"
    if "updated_document ''tenant-a'' one_update (JObj old_entries) = Some doc" for doc
    using that by (auto simp: old_entries_def updated_document_def update_entry_def one_update_def write_json_def
        default_style_def quote_str_def)
  have rt: "read_known (write_json doc) = Some doc"
    if "updated_document ''tenant-a'' one_update (JObj old_entries) = Some doc" for doc
    using that len [OF that] by (auto simp: read_known_def)
  obtain file' q' r where u: "update_tenant_quota read_known write_json ''tenant-a'' one_update
       (Some (write_json (JObj old_entries))) load_failed = (file', q', r)" by (metis prod_cases3)
  have "max_tokens_of (get_tenant_config q' ''tenant-a'') = Inr (JInt (qu_max_tokens one_update))"
    using quota_update_in_force [of "''tenant-a''" one_update old_entries read_known write_json
        "write_json (JObj old_entries)" "[JObj [(''id'', JStr ''tenant-a'')]]", OF rt _ _ _ _ u]
    by (simp add: read_known_def old_entries_def jobj_get_def hashable_def)
  with u show ?thesis by (simp add: one_update_def)
qed

end
