(* ===== verification/Intent_Routing.thy ===== *)
theory Intent_Routing
  imports Database Cache
begin

text \<open>
  Routing of intents to services: the cache a request is resolved with
  (src/fastapi\_backend/app/services/intent\_cache\_service.py), the service that edits the table
  (services/intent\_mappings\_service.py), its admin endpoints (api/admin/intent\_mappings.py),
  the endpoints for services (api/admin/services.py) and the taxonomy of labels
  (services/taxonomy\_service.py). Each mutation returns the new database with its result or
  exception; the caller's role has been checked (\<open>require_admin\<close>).
\<close>

section \<open>The cache\<close>

record intent_cache =
  ic_cache :: "(string \<times> string) list"
  ic_version :: string

definition init_intent_cache :: intent_cache where
  "init_intent_cache = \<lparr>ic_cache = [], ic_version = ''unknown''\<rparr>"

text \<open>The loop of \<open>force_reload\<close>: a later row with the same name wins, and the version is that
  of the last row.\<close>

fun load_mappings :: "intent_routing list \<Rightarrow> (string \<times> string) list \<Rightarrow> string \<Rightarrow> (string \<times> string) list \<times> string" where
  "load_mappings [] new_cache latest_version = (new_cache, latest_version)"
| "load_mappings (m # ms) new_cache latest_version =
     load_mappings ms (dict_set new_cache (ir_intent_name m) (ir_service_id m)) (ir_taxonomy_version m)"

definition force_reload :: "database \<Rightarrow> intent_cache \<Rightarrow> intent_cache" where
  "force_reload db c =
     (let (new_cache, latest_version) = load_mappings (list_active_intent_mappings db) [] ''unknown''
      in c\<lparr>ic_cache := new_cache, ic_version := latest_version\<rparr>)"

definition resolve_intent :: "intent_cache \<Rightarrow> string \<Rightarrow> domain_error + string" where
  "resolve_intent c intent_nm =
     (case dict_get (ic_cache c) intent_nm of
        Some (x # s) \<Rightarrow> Inr (x # s)
      | _ \<Rightarrow> Inl (IntentNotFoundError intent_nm (ic_version c)))"

section \<open>The service\<close>

record mapping_create =
  mc_intent_name :: string
  mc_service_id :: string
  mc_taxonomy_version :: string
  mc_is_active :: bool

definition list_mappings :: "database \<Rightarrow> intent_routing list" where
  "list_mappings db = list_active_intent_mappings db"

definition get_mapping :: "string \<Rightarrow> database \<Rightarrow> exn + intent_routing" where
  "get_mapping i db = (case get_intent_mapping_by_id i db of
     None \<Rightarrow> Inl (Domain (IntentMappingNotFoundError i)) | Some m \<Rightarrow> Inr m)"

definition committed :: "database \<Rightarrow> (database \<times> 'a) option \<Rightarrow> database \<times> (exn + 'a)" where
  "committed db r = (case r of None \<Rightarrow> (db, Inl integrity_error) | Some (db', x) \<Rightarrow> (db', Inr x))"

definition create_mapping :: "string \<Rightarrow> mapping_create \<Rightarrow> string option \<Rightarrow> database
    \<Rightarrow> database \<times> (exn + intent_routing)" where
  "create_mapping new_id payload created_by db =
     (case get_intent_mapping_by_intent_name (mc_intent_name payload) db of
        Some _ \<Rightarrow> (db, Inl (Domain (IntentMappingAlreadyExistsError (mc_intent_name payload))))
      | None \<Rightarrow> committed db (create_intent_mapping new_id (mc_intent_name payload) (mc_service_id payload)
            (mc_taxonomy_version payload) created_by db))"

definition update_mapping :: "string \<Rightarrow> mapping_update \<Rightarrow> string option \<Rightarrow> database
    \<Rightarrow> database \<times> (exn + intent_routing)" where
  "update_mapping i payload performed_by db =
     (case get_intent_mapping_by_id i db of
        None \<Rightarrow> (db, Inl (Domain (IntentMappingNotFoundError i)))
      | Some mapping \<Rightarrow> committed db (update_intent_mapping mapping payload performed_by db))"

definition delete_mapping :: "string \<Rightarrow> string option \<Rightarrow> database \<Rightarrow> database \<times> (exn + intent_routing)" where
  "delete_mapping i performed_by db =
     (case get_intent_mapping_by_id i db of
        None \<Rightarrow> (db, Inl (Domain (IntentMappingNotFoundError i)))
      | Some mapping \<Rightarrow> committed db (soft_delete_intent_mapping mapping performed_by db))"

definition reload_cache :: "database \<Rightarrow> intent_cache \<Rightarrow> intent_cache \<times> string" where
  "reload_cache db c = (let c' = force_reload db c in (c', ic_version c'))"

section \<open>The endpoints\<close>

text \<open>\<open>admin_user.get("email", "unknown")\<close>.\<close>

definition acting_user :: "user_claims \<Rightarrow> string option" where
  "acting_user u = (case claim_email u of Missing \<Rightarrow> Some ''unknown'' | Null \<Rightarrow> None | Claim e \<Rightarrow> Some e)"

text \<open>\<open>raise HTTPException(status, detail=str(exc))\<close> for the domain error an endpoint catches;
  any other exception passes. No text below holds a number.\<close>

definition answer :: "nat \<Rightarrow> (domain_error \<Rightarrow> bool) \<Rightarrow> (exn + 'a) \<Rightarrow> exn + 'a" where
  "answer status catches r = (case r of
     Inl (Domain e) \<Rightarrow> (if catches e then Inl (HTTPException status (JStr (exc_str (\<lambda>_. []) e))) else r)
   | _ \<Rightarrow> r)"

definition is_not_found :: "domain_error \<Rightarrow> bool" where
  "is_not_found e = (case e of IntentMappingNotFoundError _ \<Rightarrow> True | _ \<Rightarrow> False)"

definition is_already_exists :: "domain_error \<Rightarrow> bool" where
  "is_already_exists e = (case e of IntentMappingAlreadyExistsError _ \<Rightarrow> True | _ \<Rightarrow> False)"

definition get_mapping_endpoint :: "string \<Rightarrow> database \<Rightarrow> exn + intent_routing" where
  "get_mapping_endpoint i db = answer 404 is_not_found (get_mapping i db)"

definition create_mapping_endpoint :: "string \<Rightarrow> user_claims \<Rightarrow> mapping_create \<Rightarrow> database
    \<Rightarrow> database \<times> (exn + intent_routing)" where
  "create_mapping_endpoint new_id admin payload db =
     (let (db', r) = create_mapping new_id payload (acting_user admin) db
      in (db', answer 400 is_already_exists r))"

definition update_mapping_endpoint :: "string \<Rightarrow> user_claims \<Rightarrow> mapping_update \<Rightarrow> database
    \<Rightarrow> database \<times> (exn + intent_routing)" where
  "update_mapping_endpoint i admin payload db =
     (let (db', r) = update_mapping i payload (acting_user admin) db in (db', answer 404 is_not_found r))"

definition delete_mapping_endpoint :: "string \<Rightarrow> user_claims \<Rightarrow> database \<Rightarrow> database \<times> (exn + intent_routing)" where
  "delete_mapping_endpoint i admin db =
     (let (db', r) = delete_mapping i (acting_user admin) db in (db', answer 404 is_not_found r))"

definition reload_cache_endpoint :: "database \<Rightarrow> intent_cache \<Rightarrow> intent_cache \<times> json" where
  "reload_cache_endpoint db c =
     (let (c', version) = reload_cache db c
      in (c', JObj [(''message'', JStr ''Cache reload triggered''), (''version'', JStr version)]))"

definition get_services :: "database \<Rightarrow> ai_service list" where
  "get_services db = list_ai_services db"

definition update_service :: "string \<Rightarrow> string \<Rightarrow> database \<Rightarrow> database \<times> (exn + ai_service)" where
  "update_service sid service_type db =
     (case update_ai_service_type sid service_type db of
        (db', None) \<Rightarrow> (db', Inl (HTTPException 404 (JStr ''Service not found'')))
      | (db', Some service) \<Rightarrow> (db', Inr service))"

section \<open>The taxonomy\<close>

record taxonomy_entry =
  te_label :: string
  te_service_id :: string
  te_description :: string
  te_examples :: "string list"

record taxonomy_service =
  tx_version :: string
  tx_labels :: "string set"
  tx_intent_service :: "(string \<times> string) list"
  tx_loaded :: bool

definition init_taxonomy :: taxonomy_service where
  "init_taxonomy = \<lparr>tx_version = ''unknown'', tx_labels = {}, tx_intent_service = [], tx_loaded = False\<rparr>"

text \<open>\<open>load\<close> after the file has been read and validated: its version and entries.\<close>

definition load_taxonomy :: "string \<Rightarrow> taxonomy_entry list \<Rightarrow> taxonomy_service \<Rightarrow> taxonomy_service" where
  "load_taxonomy version intents tx = tx
     \<lparr>tx_version := version, tx_labels := set (map te_label intents),
      tx_intent_service := foldl (\<lambda>d e. dict_set d (te_label e) (te_service_id e)) [] intents,
      tx_loaded := True\<rparr>"

definition assert_intent_allowed :: "taxonomy_service \<Rightarrow> string \<Rightarrow> exn + unit" where
  "assert_intent_allowed tx intent_nm =
     (if \<not> tx_loaded tx then Inl (Runtime (RuntimeError ''TaxonomyService not loaded''))
      else if intent_nm \<notin> tx_labels tx then Inl (Domain (IntentNotFoundError intent_nm (tx_version tx)))
      else Inr ())"

definition allowed_labels :: "taxonomy_service \<Rightarrow> string set" where
  "allowed_labels tx = tx_labels tx"

definition default_service_for_intent :: "taxonomy_service \<Rightarrow> string \<Rightarrow> string option" where
  "default_service_for_intent tx intent_nm = dict_get (tx_intent_service tx) intent_nm"

section \<open>The table\<close>

text \<open>What the keys of the table and its foreign key say.\<close>

definition intent_table_ok :: "database \<Rightarrow> bool" where
  "intent_table_ok db =
     (distinct (map ir_id (t_intent_routing db)) \<and> distinct (map ir_intent_name (t_intent_routing db))
      \<and> (\<forall>m \<in> set (t_intent_routing db). service_exists (ir_service_id m) db))"

text \<open>What the endpoints may do to the database; a new id is one no row has.\<close>

inductive mapping_step :: "database \<Rightarrow> database \<Rightarrow> bool" where
  create: "i \<notin> ir_id ` set (t_intent_routing db) \<Longrightarrow> create_mapping_endpoint i u p db = (db', r)
     \<Longrightarrow> mapping_step db db'"
| update: "update_mapping_endpoint i u p db = (db', r) \<Longrightarrow> mapping_step db db'"
| delete: "delete_mapping_endpoint i u db = (db', r) \<Longrightarrow> mapping_step db db'"
| service_type: "update_service s ty db = (db', r) \<Longrightarrow> mapping_step db db'"

lemma get_mapping_Some:
  "get_intent_mapping_by_id i db = Some m \<Longrightarrow> m \<in> set (t_intent_routing db) \<and> ir_id m = i"
  by (auto simp: get_intent_mapping_by_id_def find_Some_iff)

lemma service_exists_routing [simp]:
  "service_exists s (db\<lparr>t_intent_routing := x\<rparr>) = service_exists s db"
  "service_exists s (db\<lparr>t_intent_audit := y\<rparr>) = service_exists s db"
  by (simp_all add: service_exists_def)

lemma map_replace:
  assumes "\<And>m. ir_id m = i \<Longrightarrow> m \<in> set ms \<Longrightarrow> f new = f m" 
  shows "map f (map (\<lambda>m. if ir_id m = i then new else m) ms) = map f ms"
  using assms by (induction ms) auto

lemma replace_ok:
  assumes ok: "intent_table_ok db" and m: "m \<in> set (t_intent_routing db)"
    and "ir_id m' = ir_id m" and "ir_intent_name m' = ir_intent_name m"
    and "service_exists (ir_service_id m') db"
  shows "intent_table_ok (replace_mapping m m' db)"
proof -
  have same: "m'' = m" if "ir_id m'' = ir_id m" "m'' \<in> set (t_intent_routing db)" for m''
    using ok m that by (auto simp: intent_table_ok_def distinct_map inj_on_def)
  have t: "t_intent_routing (replace_mapping m m' db)
      = map (\<lambda>x. if ir_id x = ir_id m then m' else x) (t_intent_routing db)"
    by (simp add: replace_mapping_def)
  have ids: "map ir_id (map (\<lambda>x. if ir_id x = ir_id m then m' else x) (t_intent_routing db))
      = map ir_id (t_intent_routing db)"
    and nms: "map ir_intent_name (map (\<lambda>x. if ir_id x = ir_id m then m' else x) (t_intent_routing db))
      = map ir_intent_name (t_intent_routing db)"
    using same assms(3,4) by (intro map_replace; metis)+
  have "\<forall>x \<in> set (t_intent_routing (replace_mapping m m' db)).
      service_exists (ir_service_id x) (replace_mapping m m' db)"
    using ok assms(5) by (auto simp: intent_table_ok_def replace_mapping_def)
  then show ?thesis using ok unfolding intent_table_ok_def t ids nms by blast
qed


lemma create_intent_mapping_SomeD:
  assumes "create_intent_mapping i nm s v who db = Some (db', m)"
  shows "\<exists>w audit. who = Some w \<and> service_exists s db \<and> nm \<notin> ir_intent_name ` set (t_intent_routing db)
    \<and> m = \<lparr>ir_id = i, ir_intent_name = nm, ir_service_id = s, ir_is_active = Some True,
          ir_taxonomy_version = v, ir_created_by = w\<rparr>
    \<and> db' = db\<lparr>t_intent_routing := t_intent_routing db @ [m], t_intent_audit := t_intent_audit db @ [audit]\<rparr>
    \<and> ial_performed_by audit = w \<and> ial_entity_id audit = i"
  using assms by (auto simp: create_intent_mapping_def Let_def list_ex_iff split: option.splits if_splits)

lemma update_intent_mapping_SomeD:
  assumes "update_intent_mapping m u who db = Some (db', m')"
  shows "\<exists>w audit. who = Some w \<and> apply_update u m = Some m' \<and> service_exists (ir_service_id m') db
    \<and> db' = (replace_mapping m m' db)\<lparr>t_intent_audit := t_intent_audit db @ [audit]\<rparr>
    \<and> ial_performed_by audit = w \<and> ial_entity_id audit = ir_id m"
  using assms by (auto simp: update_intent_mapping_def Let_def replace_mapping_def split: option.splits if_splits)

lemma soft_delete_SomeD:
  assumes "soft_delete_intent_mapping m who db = Some (db', m')"
  shows "\<exists>w audit. who = Some w \<and> m' = m\<lparr>ir_is_active := Some False\<rparr>
    \<and> db' = (replace_mapping m m' db)\<lparr>t_intent_audit := t_intent_audit db @ [audit]\<rparr>
    \<and> ial_performed_by audit = w \<and> ial_entity_id audit = ir_id m"
  using assms by (auto simp: soft_delete_intent_mapping_def Let_def replace_mapping_def split: option.splits)

lemma apply_update_keys:
  "apply_update u m = Some m' \<Longrightarrow> ir_id m' = ir_id m \<and> ir_intent_name m' = ir_intent_name m"
  by (auto simp: apply_update_def split: if_splits)

lemma intent_table_ok_audit [simp]:
  "intent_table_ok (db\<lparr>t_intent_audit := a\<rparr>) = intent_table_ok db"
  by (simp add: intent_table_ok_def)

text \<open>Each endpoint, with its result: unchanged on an exception, and one audit row on success.\<close>

lemma create_mapping_endpoint_cases:
  assumes "create_mapping_endpoint i u p db = (db', r)"
  obtains (failed) e where "r = Inl e" "db' = db"
  | (created) m where "r = Inr m" "create_intent_mapping i (mc_intent_name p) (mc_service_id p)
      (mc_taxonomy_version p) (acting_user u) db = Some (db', m)"
  using assms by (auto simp: create_mapping_endpoint_def create_mapping_def committed_def answer_def
      is_already_exists_def integrity_error_def split: option.splits)

lemma update_mapping_endpoint_cases:
  assumes "update_mapping_endpoint i u p db = (db', r)"
  obtains (failed) e where "r = Inl e" "db' = db"
  | (updated) m m' where "r = Inr m'" "get_intent_mapping_by_id i db = Some m"
      "update_intent_mapping m p (acting_user u) db = Some (db', m')"
  using assms by (auto simp: update_mapping_endpoint_def update_mapping_def committed_def answer_def
      is_not_found_def integrity_error_def split: option.splits)

lemma delete_mapping_endpoint_cases:
  assumes "delete_mapping_endpoint i u db = (db', r)"
  obtains (failed) e where "r = Inl e" "db' = db"
  | (deleted) m m' where "r = Inr m'" "get_intent_mapping_by_id i db = Some m"
      "soft_delete_intent_mapping m (acting_user u) db = Some (db', m')"
  using assms by (auto simp: delete_mapping_endpoint_def delete_mapping_def committed_def answer_def
      is_not_found_def integrity_error_def split: option.splits)

lemma service_exists_retyped:
  "list_ex P (map (\<lambda>sv. if sv_service_id sv = s then sv\<lparr>sv_service_type := ty\<rparr> else sv) xs) = list_ex P xs"
  if "\<And>sv. P (sv\<lparr>sv_service_type := ty\<rparr>) = P sv"
  using that by (induction xs) auto

lemma update_service_ok:
  assumes "intent_table_ok db" and "update_service s ty db = (db', r)"
  shows "intent_table_ok db'"
proof -
  have "t_intent_routing db' = t_intent_routing db" and "service_exists x db' = service_exists x db" for x
    using assms(2) by (auto simp: update_service_def update_ai_service_type_def Let_def service_exists_def
        service_exists_retyped split: option.splits)
  with assms(1) show ?thesis by (simp add: intent_table_ok_def)
qed

lemma mapping_step_ok:
  assumes "mapping_step db db'" and "intent_table_ok db"
  shows "intent_table_ok db'"
  using assms
proof (cases rule: mapping_step.cases)
  case (create i u p r)
  from create(2) show ?thesis
  proof (cases rule: create_mapping_endpoint_cases)
    case failed
    with assms(2) show ?thesis by simp
  next
    case (created m)
    from create_intent_mapping_SomeD [OF created(2)] create(1) assms(2) show ?thesis
      by (auto simp: intent_table_ok_def)
  qed
next
  case (update i u p r)
  then show ?thesis
  proof (cases rule: update_mapping_endpoint_cases)
    case failed
    with assms(2) show ?thesis by simp
  next
    case (updated m m')
    note g = get_mapping_Some [OF updated(2)]
    from update_intent_mapping_SomeD [OF updated(3)] obtain w audit where
      "apply_update p m = Some m'" "service_exists (ir_service_id m') db"
      "db' = (replace_mapping m m' db)\<lparr>t_intent_audit := t_intent_audit db @ [audit]\<rparr>" by blast
    with replace_ok [OF assms(2), of m m'] g apply_update_keys show ?thesis by simp
  qed
next
  case (delete i u r)
  then show ?thesis
  proof (cases rule: delete_mapping_endpoint_cases)
    case failed
    with assms(2) show ?thesis by simp
  next
    case (deleted m m')
    note g = get_mapping_Some [OF deleted(2)]
    from soft_delete_SomeD [OF deleted(3)] obtain w audit where d: "m' = m\<lparr>ir_is_active := Some False\<rparr>"
      "db' = (replace_mapping m m' db)\<lparr>t_intent_audit := t_intent_audit db @ [audit]\<rparr>" by blast
    have "service_exists (ir_service_id m') db" using assms(2) g d by (auto simp: intent_table_ok_def)
    with replace_ok [OF assms(2), of m m'] g d show ?thesis by simp
  qed
next
  case (service_type s ty r)
  with assms(2) show ?thesis by (rule_tac update_service_ok)
qed


section \<open>Resolution\<close>

lemma load_mappings_get:
  "dict_get (fst (load_mappings ms d v)) k =
     (case find (\<lambda>m. ir_intent_name m = k) (rev ms) of Some m \<Rightarrow> Some (ir_service_id m) | None \<Rightarrow> dict_get d k)"
  by (induction ms d v rule: load_mappings.induct)
    (auto simp: find_append dict_simps split: option.split)

lemma resolve_cong:
  "(ic_cache c, ic_version c) = (ic_cache c', ic_version c') \<Longrightarrow> resolve_intent c nm = resolve_intent c' nm"
  by (cases c; cases c') simp

interpretation intents: table_cache force_reload "\<lambda>c. (ic_cache c, ic_version c)"
  "\<lambda>db. load_mappings (list_active_intent_mappings db) [] ''unknown''"
  by unfold_locales (simp add: force_reload_def split: prod.split)

text \<open>The active row of an intent.\<close>

definition active_mapping :: "string \<Rightarrow> database \<Rightarrow> intent_routing option" where
  "active_mapping nm db =
     find (\<lambda>m. ir_is_active m = Some True \<and> ir_intent_name m = nm) (t_intent_routing db)"

lemma resolve_reloaded:
  assumes "intent_table_ok db"
  shows "resolve_intent (force_reload db c) nm =
    (case active_mapping nm db of
       Some m \<Rightarrow> (if ir_service_id m = [] then Inl (IntentNotFoundError nm (ic_version (force_reload db c)))
         else Inr (ir_service_id m))
     | None \<Rightarrow> Inl (IntentNotFoundError nm (ic_version (force_reload db c))))"
proof -
  let ?ms = "list_active_intent_mappings db"
  have "distinct (map ir_intent_name ?ms)"
    using assms by (auto simp: intent_table_ok_def list_active_intent_mappings_def distinct_map
        intro: inj_on_subset)
  from find_rev_distinct [OF this, of nm]
  have "find (\<lambda>m. ir_intent_name m = nm) (rev ?ms) = active_mapping nm db"
    by (simp add: active_mapping_def list_active_intent_mappings_def find_filter)
  then have "dict_get (ic_cache (force_reload db c)) nm = map_option ir_service_id (active_mapping nm db)"
    using load_mappings_get [of ?ms "[]" "''unknown''" nm]
    by (auto simp: force_reload_def split: prod.splits option.splits)
  then show ?thesis by (auto simp: resolve_intent_def split: option.splits list.splits)
qed

text \<open>After a reload the resolver answers exactly by the table: the service of the active
  mapping of the intent, and the not-found error, with the version the cache has, when there is no
  active mapping (or its service id is the empty text).\<close>

theorem resolve_after_reload:
  assumes "intent_table_ok db"
  shows "resolve_intent (force_reload db c) nm =
    (case active_mapping nm db of
       Some m \<Rightarrow> (if ir_service_id m = [] then Inl (IntentNotFoundError nm (ic_version (force_reload db c)))
         else Inr (ir_service_id m))
     | None \<Rightarrow> Inl (IntentNotFoundError nm (ic_version (force_reload db c))))"
  using assms by (rule resolve_reloaded)

text \<open>What a request is resolved with is the table as it was at the last reload: whatever is
  written since then, by the endpoints or by anything else, and however reloads and writes
  interleave, resolution equals that of a cache reloaded from that table; before the first reload
  it is that of the initial cache.\<close>

theorem resolution_is_of_last_reload:
  "resolve_intent (snd (run_events (\<lambda>w. w) force_reload es db c)) nm =
     (case last_seen (\<lambda>w. w) es db None of
        None \<Rightarrow> resolve_intent c nm | Some db' \<Rightarrow> resolve_intent (force_reload db' c) nm)"
proof -
  note v = intents.reader_sees_last_reload [of "\<lambda>w. w" es db c]
  show ?thesis
  proof (cases "last_seen (\<lambda>w. w) es db None")
    case None
    with v have "resolve_intent (snd (run_events (\<lambda>w. w) force_reload es db c)) nm = resolve_intent c nm"
      by (intro resolve_cong) simp
    with None show ?thesis by simp
  next
    case (Some db')
    with v intents.view_reload [of db' c]
    have "resolve_intent (snd (run_events (\<lambda>w. w) force_reload es db c)) nm = resolve_intent (force_reload db' c) nm"
      by (intro resolve_cong) simp
    with Some show ?thesis by simp
  qed
qed

text \<open>Every change is on record: a call of an endpoint for mappings either raises and leaves the
  whole database as it was, or returns the mapping and adds exactly one audit row, which names the
  mapping and the acting user.\<close>

theorem mapping_endpoints_audit:
  assumes "call \<in> {create_mapping_endpoint i u p, update_mapping_endpoint i u q, delete_mapping_endpoint i u}"
    and "call db = (db', r)"
  shows "case r of
      Inl e \<Rightarrow> db' = db
    | Inr m \<Rightarrow> (\<exists>a. t_intent_audit db' = t_intent_audit db @ [a] \<and> ial_entity_id a = i \<and> ir_id m = i
         \<and> acting_user u = Some (ial_performed_by a))
       \<and> m \<in> set (t_intent_routing db')"
proof -
  have c: ?thesis if h: "create_mapping_endpoint i u p db = (db', r)"
    using h by (cases rule: create_mapping_endpoint_cases) (auto dest!: create_intent_mapping_SomeD)
  have u: ?thesis if h: "update_mapping_endpoint i u q db = (db', r)"
    using h
  proof (cases rule: update_mapping_endpoint_cases)
    case (updated m m')
    note g = get_mapping_Some [OF updated(2)]
    with update_intent_mapping_SomeD [OF updated(3)] updated(1) show ?thesis
      by (auto simp: replace_mapping_def dest: apply_update_keys)
  qed simp
  have d: ?thesis if h: "delete_mapping_endpoint i u db = (db', r)"
    using h
  proof (cases rule: delete_mapping_endpoint_cases)
    case (deleted m m')
    note g = get_mapping_Some [OF deleted(2)]
    with soft_delete_SomeD [OF deleted(3)] deleted(1) show ?thesis
      by (auto simp: replace_mapping_def)
  qed simp
  from assms c u d show ?thesis by blast
qed

text \<open>A deleted mapping is gone for routing but keeps its name: after a successful delete and a
  reload the intent does not resolve, and creating the same intent anew is refused with status 400
  and no change.\<close>

theorem deleted_mapping_blocks_name:
  assumes "intent_table_ok db" and "delete_mapping_endpoint i u db = (db', Inr m)"
  shows "resolve_intent (force_reload db' c) (ir_intent_name m)
      = Inl (IntentNotFoundError (ir_intent_name m) (ic_version (force_reload db' c)))
    \<and> (\<exists>detail. create_mapping_endpoint j v (p\<lparr>mc_intent_name := ir_intent_name m\<rparr>) db'
          = (db', Inl (HTTPException 400 detail)))"
proof -
  have ok: "intent_table_ok db'" using mapping_step_ok [OF mapping_step.delete [OF assms(2)] assms(1)] .
  have "m \<in> set (t_intent_routing db') \<and> ir_is_active m = Some False"
    using assms(2)
  proof (cases rule: delete_mapping_endpoint_cases)
    case (deleted m0 m')
    with soft_delete_SomeD [OF deleted(3)] get_mapping_Some [OF deleted(2)]
    show ?thesis by (auto simp: replace_mapping_def)
  qed simp
  then have m: "m \<in> set (t_intent_routing db')" and off: "ir_is_active m = Some False" by simp_all
  have "active_mapping (ir_intent_name m) db' = None"
    unfolding active_mapping_def find_None_iff
  proof clarify
    fix x assume x: "x \<in> set (t_intent_routing db')" "ir_is_active x = Some True"
      "ir_intent_name x = ir_intent_name m"
    with ok m have "x = m" by (auto simp: intent_table_ok_def distinct_map inj_on_def)
    with x off show False by simp
  qed
  with resolve_reloaded [OF ok, of c "ir_intent_name m"]
  have "resolve_intent (force_reload db' c) (ir_intent_name m)
      = Inl (IntentNotFoundError (ir_intent_name m) (ic_version (force_reload db' c)))" by simp
  moreover have "get_intent_mapping_by_intent_name (ir_intent_name m) db' \<noteq> None"
    using m by (auto simp: get_intent_mapping_by_intent_name_def find_None_iff)
  then have "\<exists>detail. create_mapping_endpoint j v (p\<lparr>mc_intent_name := ir_intent_name m\<rparr>) db'
      = (db', Inl (HTTPException 400 detail))"
    by (auto simp: create_mapping_endpoint_def create_mapping_def answer_def is_already_exists_def)
  ultimately show ?thesis by blast
qed

section \<open>Witnesses\<close>

definition sample_service :: ai_service where
  "sample_service = \<lparr>sv_service_id = ''llm'', sv_model_name = ''m'', sv_provider_url = ''http://llm'',
     sv_provider_type = Some ''ollama'', sv_service_type = Some ''on-prem''\<rparr>"

definition sample_routing :: database where
  "sample_routing = empty_database
     \<lparr>t_ai_services := [sample_service],
      t_intent_routing := [\<lparr>ir_id = ''i1'', ir_intent_name = ''chat'', ir_service_id = ''llm'',
        ir_is_active = Some True, ir_taxonomy_version = ''1'', ir_created_by = ''root''\<rparr>]\<rparr>"

definition sample_admin :: user_claims where
  "sample_admin = \<lparr>claim_tenant_id = Claim ''tenant-a'', claim_email = Claim ''a@x'', claim_roles = [''admin'']\<rparr>"

lemma sample_routing_ok: "intent_table_ok sample_routing"
  by (simp add: intent_table_ok_def sample_routing_def service_exists_def sample_service_def)

definition sample_mapping :: mapping_create where
  "sample_mapping = \<lparr>mc_intent_name = ''code'', mc_service_id = ''llm'', mc_taxonomy_version = ''2'',
     mc_is_active = True\<rparr>"

lemma sample_delete:
  "\<exists>db' m. delete_mapping_endpoint ''i1'' sample_admin sample_routing = (db', Inr m) \<and> ir_intent_name m = ''chat''"
  by (simp add: delete_mapping_endpoint_def delete_mapping_def get_intent_mapping_by_id_def
      sample_routing_def soft_delete_intent_mapping_def acting_user_def sample_admin_def Let_def
      committed_def answer_def)


theorem resolve_after_reload_witness:
  "resolve_intent (force_reload sample_routing init_intent_cache) ''chat'' = Inr ''llm''"
  using resolve_after_reload [OF sample_routing_ok, of init_intent_cache "''chat''"]
  by (simp add: active_mapping_def sample_routing_def)

theorem mapping_endpoints_audit_witness:
  "case create_mapping_endpoint ''i2'' sample_admin sample_mapping sample_routing of
     (db', r) \<Rightarrow> \<exists>a. t_intent_audit db' = [a] \<and> ial_performed_by a = ''a@x''"
proof -
  obtain db' m where c: "create_mapping_endpoint ''i2'' sample_admin sample_mapping sample_routing = (db', Inr m)"
    by (simp add: create_mapping_endpoint_def create_mapping_def get_intent_mapping_by_intent_name_def
        sample_routing_def sample_mapping_def create_intent_mapping_def acting_user_def sample_admin_def
        committed_def service_exists_def sample_service_def answer_def Let_def)
  from mapping_endpoints_audit [where call = "create_mapping_endpoint ''i2'' sample_admin sample_mapping"
      and i = "''i2''" and u = sample_admin and p = sample_mapping, OF _ c] show ?thesis
    by (simp add: c) (auto simp: sample_routing_def empty_database_def acting_user_def sample_admin_def)
qed

theorem deleted_mapping_blocks_name_witness:
  "\<exists>db' m. delete_mapping_endpoint ''i1'' sample_admin sample_routing = (db', Inr m)
     \<and> resolve_intent (force_reload db' init_intent_cache) ''chat''
         = Inl (IntentNotFoundError ''chat'' (ic_version (force_reload db' init_intent_cache)))"
  using sample_delete deleted_mapping_blocks_name [OF sample_routing_ok] by metis

end
