(* ===== verification/Intent_Classification.thy ===== *)
theory Intent_Classification
  imports Exceptions Py_Num
begin

text \<open>
  The taxonomy of labels (src/fastapi\_backend/app/intent\_classification/contract.py) and the
  client of the classifier service (infrastructure/intent\_classifier/client.py). The
  HTTP exchange is a parameter: the decoded answer or the exception of the exchange. The taxonomy is
  a decoded document here; finding and reading its file is in Taxonomy\_Files. \<open>float(s)\<close> of a text is the parameter \<open>float_text\<close>.
\<close>

definition unclassified_label :: string where
  "unclassified_label = ''unclassified''"

section \<open>The taxonomy\<close>

record intent_taxonomy =
  taxonomy_version :: string
  confidence_threshold :: rat
  candidate_labels :: "json list"

definition routable_labels :: "intent_taxonomy \<Rightarrow> json list" where
  "routable_labels tx = candidate_labels tx @ [JStr unclassified_label]"

definition json_float :: "(string \<Rightarrow> rat py) \<Rightarrow> json \<Rightarrow> rat py" where
  "json_float float_text v = (case v of
     JInt i \<Rightarrow> Inr (fl (of_int i)) | JFloat x \<Rightarrow> Inr x | JBool b \<Rightarrow> Inr (if b then 1 else 0)
   | JStr s \<Rightarrow> float_text s | _ \<Rightarrow> Inl TypeError)"

text \<open>\<open>list(v or [])\<close>.\<close>

definition list_or_empty :: "json option \<Rightarrow> json list py" where
  "list_or_empty v = (case v of
     None \<Rightarrow> Inr []
   | Some w \<Rightarrow> (if \<not> truthy w then Inr [] else case w of
         JArr xs \<Rightarrow> Inr xs | JObj d \<Rightarrow> Inr (map (JStr \<circ> fst) d) | JStr s \<Rightarrow> Inr (map (\<lambda>c. JStr [c]) s)
       | _ \<Rightarrow> Inl TypeError))"

text \<open>\<open>load_taxonomy_v1\<close> on the decoded document (\<open>yaml.safe_load(f) or {}\<close>).\<close>

definition load_taxonomy_v1 :: "(string \<Rightarrow> rat py) \<Rightarrow> (rat \<Rightarrow> string) \<Rightarrow> json \<Rightarrow> intent_taxonomy py" where
  "load_taxonomy_v1 float_text fr doc =
     (case (if truthy doc then doc else JObj []) of
        JObj raw \<Rightarrow>
          (case list_or_empty (dict_get raw ''candidate_labels'') of
             Inl e \<Rightarrow> Inl e
           | Inr labels \<Rightarrow>
               (case json_float float_text (dict_get_default raw ''confidence_threshold'' (JFloat (fl (35/100)))) of
                  Inl e \<Rightarrow> Inl e
                | Inr threshold \<Rightarrow> Inr
                    \<lparr>taxonomy_version = json_str fr (dict_get_default raw ''version'' (JStr ''1'')),
                     confidence_threshold = threshold, candidate_labels = labels\<rparr>))
      | _ \<Rightarrow> Inl AttributeError)"

definition is_routable_intent :: "intent_taxonomy \<Rightarrow> string \<Rightarrow> bool" where
  "is_routable_intent tx intent_nm = (JStr intent_nm \<in> set (routable_labels tx))"

section \<open>The client\<close>

record classifier_decision =
  cd_intent_label :: string
  cd_confidence :: rat
  cd_source :: string
  cd_taxonomy_version :: "string option"

text \<open>The client's configuration: \<open>(base_url or settings.intent_classifier_url or '').rstrip('/')\<close>
  and the switch.\<close>

record classifier_client =
  cc_base :: string
  cc_enabled :: bool

definition classifier_client_init :: "string option \<Rightarrow> string option \<Rightarrow> bool option \<Rightarrow> bool \<Rightarrow> classifier_client" where
  "classifier_client_init base_url default_url enabled default_enabled =
     \<lparr>cc_base = rstrip_char (CHR ''/'')
        (case base_url of Some (c # u) \<Rightarrow> c # u
         | _ \<Rightarrow> (case default_url of Some u \<Rightarrow> u | None \<Rightarrow> [])),
      cc_enabled = (case enabled of Some b \<Rightarrow> b | None \<Rightarrow> default_enabled)\<rparr>"

definition is_configured :: "classifier_client \<Rightarrow> bool" where
  "is_configured c = (cc_base c \<noteq> [] \<and> cc_enabled c)"

definition classify_fallback :: classifier_decision where
  "classify_fallback = \<lparr>cd_intent_label = unclassified_label, cd_confidence = 0,
     cd_source = ''fallback'', cd_taxonomy_version = None\<rparr>"

definition classify_payload :: "string \<Rightarrow> string option \<Rightarrow> string option \<Rightarrow> json" where
  "classify_payload txt tenant env = JObj ([(''text'', JStr txt)] @
     (case tenant of Some (c # t) \<Rightarrow> [(''tenant_id'', JStr (c # t))] | _ \<Rightarrow> []) @
     (case env of Some (c # e) \<Rightarrow> [(''environment'', JStr (c # e))] | _ \<Rightarrow> []))"

text \<open>What the POST gives: \<open>None\<close> for any exception of the exchange, an error status or a body
  that does not decode; otherwise the decoded answer. The taxonomy is what loading it gives.\<close>

definition read_answer :: "(string \<Rightarrow> rat py) \<Rightarrow> (rat \<Rightarrow> string) \<Rightarrow> intent_taxonomy \<Rightarrow> json
    \<Rightarrow> classifier_decision py" where
  "read_answer float_text fr taxonomy answer =
     (case answer of
        JObj data \<Rightarrow>
          (case json_float float_text (dict_get_default data ''confidence'' (JFloat 0)) of
             Inl e \<Rightarrow> Inl e
           | Inr conf \<Rightarrow>
               (let label = json_str fr (dict_get_default data ''intent_label'' (JStr unclassified_label));
                    src = json_str fr (dict_get_default data ''source'' (JStr ''model''));
                    version = (case dict_get_default data ''taxonomy_version'' JNull of
                      JNull \<Rightarrow> None | v \<Rightarrow> Some (json_str fr v))
                in Inr (if JStr label \<notin> set (routable_labels taxonomy)
                    then \<lparr>cd_intent_label = unclassified_label, cd_confidence = conf,
                          cd_source = ''fallback'', cd_taxonomy_version = version\<rparr>
                    else \<lparr>cd_intent_label = label, cd_confidence = conf, cd_source = src,
                          cd_taxonomy_version = version\<rparr>)))
      | _ \<Rightarrow> Inl AttributeError)"

definition classify :: "(string \<Rightarrow> rat py) \<Rightarrow> (rat \<Rightarrow> string) \<Rightarrow> intent_taxonomy py
    \<Rightarrow> (json \<Rightarrow> json option) \<Rightarrow> classifier_client \<Rightarrow> string \<Rightarrow> string option \<Rightarrow> string option
    \<Rightarrow> classifier_decision py" where
  "classify float_text fr taxonomy post c txt tenant env =
     (if \<not> is_configured c then Inr classify_fallback
      else case taxonomy of
          Inl e \<Rightarrow> Inl e
        | Inr tx \<Rightarrow>
            (case post (classify_payload txt tenant env) of
               None \<Rightarrow> Inr classify_fallback
             | Some answer \<Rightarrow> read_answer float_text fr tx answer))"

section \<open>Properties\<close>

lemma unclassified_routable: "is_routable_intent tx unclassified_label"
  by (simp add: is_routable_intent_def routable_labels_def)

lemma read_answer_label:
  assumes "read_answer float_text fr tx (JObj data) = Inr d"
  shows "let l = json_str fr (dict_get_default data ''intent_label'' (JStr unclassified_label))
    in is_routable_intent tx (cd_intent_label d)
      \<and> (if is_routable_intent tx l then cd_intent_label d = l
         else cd_intent_label d = unclassified_label \<and> cd_source d = ''fallback'')"
proof -
  define l where "l = json_str fr (dict_get_default data ''intent_label'' (JStr unclassified_label))"
  from assms obtain conf where "json_float float_text (dict_get_default data ''confidence'' (JFloat 0)) = Inr conf"
    by (cases "json_float float_text (dict_get_default data ''confidence'' (JFloat 0))")
      (simp_all add: read_answer_def)
  with assms have "(JStr l \<notin> set (routable_labels tx) \<longrightarrow>
        cd_intent_label d = unclassified_label \<and> cd_source d = ''fallback'')
      \<and> (JStr l \<in> set (routable_labels tx) \<longrightarrow> cd_intent_label d = l)"
    by (auto simp: read_answer_def Let_def l_def)
  then show ?thesis using unclassified_routable [of tx]
    by (auto simp: Let_def l_def [symmetric] is_routable_intent_def)
qed

text \<open>The client never hands on a label outside the taxonomy: whatever the service answers, a
  decision that is returned carries a routable label, and one that replaces an unknown label says
  that it is a fallback. When the exchange fails the decision is the fallback with confidence
  zero.\<close>

theorem classify_label_routable:
  assumes "classify float_text fr (Inr tx) post c txt tenant env = Inr d"
  shows "is_routable_intent tx (cd_intent_label d)
    \<and> (post (classify_payload txt tenant env) = None \<longrightarrow> d = classify_fallback)
    \<and> (\<forall>data l. post (classify_payload txt tenant env) = Some (JObj data) \<and> is_configured c
         \<and> dict_get data ''intent_label'' = Some (JStr l) \<longrightarrow>
           (if is_routable_intent tx l then cd_intent_label d = l
            else cd_intent_label d = unclassified_label \<and> cd_source d = ''fallback''))"
proof -
  have fb: "is_routable_intent tx (cd_intent_label classify_fallback)"
    by (simp add: is_routable_intent_def classify_fallback_def routable_labels_def)
  show ?thesis
  proof (cases "is_configured c")
    case False
    with assms have "d = classify_fallback" by (simp add: classify_def)
    with False fb show ?thesis by simp
  next
    case conf: True
    show ?thesis
    proof (cases "post (classify_payload txt tenant env)")
      case None
      with assms conf have "d = classify_fallback" by (simp add: classify_def)
      with None fb show ?thesis by simp
    next
      case (Some answer)
      with assms conf have ra: "read_answer float_text fr tx answer = Inr d" by (simp add: classify_def)
      then obtain data where data: "answer = JObj data" by (cases answer) (simp_all add: read_answer_def)
      from read_answer_label [OF ra [unfolded data]] Some data show ?thesis
        by (auto simp: dict_get_default_def json_str_def Let_def split: if_splits)
    qed
  qed
qed

text \<open>The client may raise all the same: an answer whose confidence is null ends in an exception, and so does an
  answer that is no object.\<close>

lemma classify_raises_on_malformed_answer:
  assumes "is_configured c" and "dict_get data ''confidence'' = Some JNull"
  shows "classify float_text fr (Inr tx) (\<lambda>_. Some (JObj data)) c txt tenant env = Inl TypeError"
    and "classify float_text fr (Inr tx) (\<lambda>_. Some (JArr xs)) c txt tenant env = Inl AttributeError"
  using assms by (simp_all add: classify_def read_answer_def dict_get_default_def json_float_def)

theorem classify_label_routable_witness:
  "\<exists>d. classify (\<lambda>_. Inl ValueError) (\<lambda>_. []) (Inr \<lparr>taxonomy_version = ''1'', confidence_threshold = 0,
        candidate_labels = [JStr ''code'']\<rparr>)
      (\<lambda>_. Some (JObj [(''intent_label'', JStr ''poem''), (''confidence'', JFloat (1/2))]))
      \<lparr>cc_base = ''http://c'', cc_enabled = True\<rparr> ''hi'' None None = Inr d
    \<and> cd_intent_label d = unclassified_label"
proof -
  let ?tx = "\<lparr>taxonomy_version = ''1'', confidence_threshold = 0, candidate_labels = [JStr ''code'']\<rparr>"
  let ?post = "\<lambda>_. Some (JObj [(''intent_label'', JStr ''poem''), (''confidence'', JFloat (1/2))])"
  let ?c = "\<lparr>cc_base = ''http://c'', cc_enabled = True\<rparr>"
  obtain d where d: "classify (\<lambda>_. Inl ValueError) (\<lambda>_. []) (Inr ?tx) ?post ?c ''hi'' None None = Inr d"
    by (simp add: classify_def is_configured_def read_answer_def dict_get_default_def json_float_def Let_def)
  from classify_label_routable [OF d] have "cd_intent_label d = unclassified_label"
    by (simp add: is_configured_def is_routable_intent_def routable_labels_def unclassified_label_def)
  with d show ?thesis by blast
qed

end
