(* ===== verification/Actions.thy ===== *)
theory Actions
  imports Exceptions
begin

text \<open>
  Steps of a handler on a state: an action gives the new state, also when it raises, since what was
  written before an exception stays written. The same composition serves the database and the
  services behind HTTP.
\<close>

type_synonym ('s, 'a) action = "'s \<Rightarrow> 's \<times> (exn + 'a)"

definition return_act :: "'a \<Rightarrow> ('s, 'a) action" where
  "return_act x s = (s, Inr x)"

definition raise_act :: "exn \<Rightarrow> ('s, 'a) action" where
  "raise_act e s = (s, Inl e)"

definition then_act :: "('s, 'a) action \<Rightarrow> ('a \<Rightarrow> ('s, 'b) action) \<Rightarrow> ('s, 'b) action" where
  "then_act m k s = (case m s of (s', Inl e) \<Rightarrow> (s', Inl e) | (s', Inr x) \<Rightarrow> k x s')"

text \<open>A computation without effects, with an exception of the runtime.\<close>

definition lift_act :: "'a py \<Rightarrow> ('s, 'a) action" where
  "lift_act r s = (s, case r of Inl e \<Rightarrow> Inl (Runtime e) | Inr x \<Rightarrow> Inr x)"

lemma then_act_Inr_iff:
  "then_act m k s = (s', Inr y) \<longleftrightarrow> (\<exists>s1 x. m s = (s1, Inr x) \<and> k x s1 = (s', Inr y))"
  by (auto simp: then_act_def split: prod.splits sum.splits)

lemma then_act_Inl_iff:
  "then_act m k s = (s', Inl e) \<longleftrightarrow>
     m s = (s', Inl e) \<or> (\<exists>s1 x. m s = (s1, Inr x) \<and> k x s1 = (s', Inl e))"
  by (auto simp: then_act_def split: prod.splits sum.splits)

lemma then_return [simp]: "then_act (return_act x) k = k x"
  by (simp add: then_act_def return_act_def fun_eq_iff)

lemma then_lift_Inr [simp]: "then_act (lift_act (Inr x)) k = k x"
  by (simp add: then_act_def lift_act_def fun_eq_iff)

lemma lift_act_Inr_iff [simp]: "lift_act r s = (s', Inr x) \<longleftrightarrow> s' = s \<and> r = Inr x"
  by (cases r) (auto simp: lift_act_def)

lemma return_act_iff [simp]: "return_act x s = (s', r) \<longleftrightarrow> s' = s \<and> r = Inr x"
  by (auto simp: return_act_def)

section \<open>Results without effects\<close>

definition bind_py :: "'a py \<Rightarrow> ('a \<Rightarrow> 'b py) \<Rightarrow> 'b py" where
  "bind_py r k = (case r of Inl e \<Rightarrow> Inl e | Inr x \<Rightarrow> k x)"

fun map_py :: "('a \<Rightarrow> 'b py) \<Rightarrow> 'a list \<Rightarrow> 'b list py" where
  "map_py f [] = Inr []"
| "map_py f (x # xs) = bind_py (f x) (\<lambda>y. bind_py (map_py f xs) (\<lambda>ys. Inr (y # ys)))"

lemma bind_py_Inr_iff: "bind_py r k = Inr y \<longleftrightarrow> (\<exists>x. r = Inr x \<and> k x = Inr y)"
  by (auto simp: bind_py_def split: sum.splits)

lemma bind_py_Inr [simp]: "bind_py (Inr x) k = k x"
  by (simp add: bind_py_def)

lemma map_py_Inr_iff: "map_py f xs = Inr ys \<longleftrightarrow> list_all2 (\<lambda>x y. f x = Inr y) xs ys"
  by (induction xs arbitrary: ys) (auto simp: bind_py_Inr_iff list_all2_Cons1)

text \<open>\<open>d[k]\<close>, a value on which the program calls \<open>get\<close> or \<open>items\<close>, and iteration over the elements
  of a list, for a value that need not be one (\<open>e\<close> is what the body raises on a text).\<close>

definition need :: "(string \<times> json) list \<Rightarrow> string \<Rightarrow> json py" where
  "need d k = (case dict_get d k of None \<Rightarrow> Inl (KeyError k) | Some v \<Rightarrow> Inr v)"

definition as_dict :: "json \<Rightarrow> (string \<times> json) list py" where
  "as_dict v = (case v of JObj d \<Rightarrow> Inr d | _ \<Rightarrow> Inl AttributeError)"

definition items_of :: "py_exc \<Rightarrow> json \<Rightarrow> json list py" where
  "items_of e v =
     (case v of
        JArr xs \<Rightarrow> Inr xs
      | JObj d \<Rightarrow> (if d = [] then Inr [] else Inl e)
      | JStr s \<Rightarrow> (if s = [] then Inr [] else Inl e)
      | _ \<Rightarrow> Inl TypeError)"

end
