(* ===== verification/Pre_Flight.thy ===== *)
theory Pre_Flight
  imports Intent_Routing Intent_Classification Quota Content_Inspector Actions
begin

text \<open>
  The checks every AI request passes before a provider is called
  (\<open>_run_pre_flight\<close> and \<open>_run_prompt_security_scan\<close> of
  src/fastapi\_backend/app/services/ai\_request\_service.py): classification of the intent,
  resolution, permission, quota, the request record, inspection of the content, policies and the
  scan for prompt injection. The services and their settings are the record \<open>gateway\<close>; what
  lies outside (OPA, the classifier, Redis, the entity recogniser) is a field of it. The values a
  request draws from outside, its id and the clock, are the record \<open>draws\<close>.
\<close>

record 's gateway =
  gw_intents :: intent_cache
  gw_nlp :: "string \<Rightarrow> string list"
  gw_allowed_intents :: string
  gw_opa :: opa_settings
  gw_opa_post :: "policy_context \<Rightarrow> opa_reply"
  gw_policy :: policy_service
  gw_quota :: quota_service
  gw_redis :: "'s redis"
  gw_security :: prompt_security_service
  gw_classifier :: classifier_client
  gw_classify_post :: "json \<Rightarrow> json option"
  gw_taxonomy :: "intent_taxonomy py"
  gw_auto_token :: string
  gw_shadow :: bool
  gw_float_text :: "string \<Rightarrow> rat py"
  gw_float_repr :: "rat \<Rightarrow> string"
  gw_exc_text :: "exn \<Rightarrow> string"

record draws =
  dr_request_id :: string
  dr_started_at :: nat
  dr_completed_at :: nat
  dr_check_day :: utc_date
  dr_charge_day :: utc_date
  dr_report_day :: utc_date

type_synonym 'a db_action = "(database, 'a) action"

section \<open>The stages\<close>

definition messages_to_classify_text :: "message_schema list \<Rightarrow> string" where
  "messages_to_classify_text ms =
     (let parts = map (\<lambda>m. role m @ '': '' @ strip (content m)) (filter (\<lambda>m. strip (content m) \<noteq> []) ms)
      in strip (join_str [CHR 0x0A] parts))"

record intent_decision =
  id_name :: string
  id_mode :: string
  id_confidence :: "rat option"
  id_source :: "string option"
  id_taxonomy_version :: "string option"

definition run_classifier :: "'s gateway \<Rightarrow> string \<Rightarrow> string \<Rightarrow> string \<Rightarrow> classifier_decision py" where
  "run_classifier gw txt tenant env =
     classify (gw_float_text gw) (gw_float_repr gw) (gw_taxonomy gw) (gw_classify_post gw)
       (gw_classifier gw) txt (Some tenant) (Some env)"

definition classify_intent :: "'s gateway \<Rightarrow> string \<Rightarrow> ai_request_schema \<Rightarrow> intent_decision py" where
  "classify_intent gw tenant body =
     (let raw_intent = intent body;
          classify_text = messages_to_classify_text (messages body);
          env = environment (metadata body);
          manual = \<lparr>id_name = raw_intent, id_mode = ''manual'', id_confidence = None, id_source = None,
            id_taxonomy_version = None\<rparr>
      in if raw_intent = gw_auto_token gw then
           (if classify_text \<noteq> [] \<and> is_configured (gw_classifier gw) then
              (case run_classifier gw classify_text tenant env of
                 Inl e \<Rightarrow> Inl e
               | Inr d \<Rightarrow> Inr \<lparr>id_name = cd_intent_label d, id_mode = ''auto'',
                   id_confidence = Some (cd_confidence d), id_source = Some (cd_source d),
                   id_taxonomy_version = cd_taxonomy_version d\<rparr>)
            else Inr (manual\<lparr>id_name := unclassified_label, id_mode := ''fallback''\<rparr>))
         else if gw_shadow gw \<and> is_configured (gw_classifier gw) \<and> classify_text \<noteq> [] then
           (case run_classifier gw classify_text tenant env of
              Inl e \<Rightarrow> Inl e
            | Inr d \<Rightarrow> Inr (manual\<lparr>id_mode := ''shadow'', id_confidence := Some (cd_confidence d),
                id_source := Some (cd_source d), id_taxonomy_version := cd_taxonomy_version d\<rparr>))
         else Inr manual)"

definition check_permission :: "tenant_scope \<Rightarrow> string \<Rightarrow> string \<Rightarrow> string \<Rightarrow> unit db_action" where
  "check_permission sc tenant service_id intent_nm db =
     (case check_tenant_service_permission_and_audit sc tenant service_id (Some intent_nm) ''system'' db of
        (db', is_allowed) \<Rightarrow>
          (db', if is_allowed then Inr () else Inl (Domain (TenantNotAuthorizedError tenant service_id))))"

definition require_quota :: "'s gateway \<Rightarrow> utc_date \<Rightarrow> string \<Rightarrow> 's \<Rightarrow> unit db_action" where
  "require_quota gw today tenant store db =
     (db, case check_quota (gw_quota gw) (gw_redis gw) today tenant store of
        Inl e \<Rightarrow> Inl (Runtime e)
      | Inr has_quota \<Rightarrow> (if has_quota then Inr () else Inl (Domain (QuotaExceededError tenant))))"

definition find_service :: "string \<Rightarrow> ai_service db_action" where
  "find_service service_id db =
     (db, case get_ai_service_by_id service_id db of
        None \<Rightarrow> Inl (Domain (ServiceNotFoundError service_id)) | Some s \<Rightarrow> Inr s)"

definition persist_record :: "draws \<Rightarrow> string \<Rightarrow> string \<Rightarrow> string \<Rightarrow> ai_request_schema \<Rightarrow> unit db_action" where
  "persist_record dr tenant intent_nm service_id body db =
     (case create_ai_request
        \<lparr>ar_request_id = dr_request_id dr, ar_tenant_id = tenant, ar_intent = intent_nm,
         ar_service_id = service_id, ar_sensitivity = sensitivity_value (sensitivity (metadata body)),
         ar_resolved_sensitivity = None, ar_environment = environment (metadata body),
         ar_status = ''received'', ar_started_at = dr_started_at dr, ar_completed_at = None,
         ar_error_detail = None\<rparr> db of
        None \<Rightarrow> (db, Inl (Domain (ProviderError ''Failed to persist request record'')))
      | Some db' \<Rightarrow> (db', Inr ()))"

definition inspect_request :: "'s gateway \<Rightarrow> draws \<Rightarrow> ai_request_schema
    \<Rightarrow> (sensitivity_level \<times> string list \<times> nat) db_action" where
  "inspect_request gw dr body db =
     (case inspect_content (gw_nlp gw) (gw_allowed_intents gw) body of
        Inl e \<Rightarrow> (db, Inl (Runtime e))
      | Inr (lvl, types, count) \<Rightarrow>
          (update_resolved_sensitivity (dr_request_id dr) (sensitivity_value lvl) db, Inr (lvl, types, count)))"

definition audit_context :: "sensitivity_level \<Rightarrow> string \<Rightarrow> ai_service \<Rightarrow> json" where
  "audit_context lvl tenant service = JObj
     [(''sensitivity'', JStr (sensitivity_value lvl)), (''tenant'', JStr tenant),
      (''service_type'', opt_str (sv_service_type service))]"

definition audit_results :: "string \<Rightarrow> json \<Rightarrow> policy_evaluation_result list \<Rightarrow> database \<Rightarrow> database" where
  "audit_results rid ctx rs db = fold (\<lambda>res. create_policy_audit_log rid (per_policy_id res)
     (effect_value (per_effect res)) (per_decision res) ctx) rs db"

definition apply_policies :: "'s gateway \<Rightarrow> draws \<Rightarrow> string \<Rightarrow> ai_service
    \<Rightarrow> sensitivity_level \<times> string list \<times> nat \<Rightarrow> unit db_action" where
  "apply_policies gw dr tenant service found db =
     (case found of (lvl, types, count) \<Rightarrow>
        (let ctx = audit_context lvl tenant service in
         case evaluate_async (gw_float_repr gw) (gw_opa gw) (gw_opa_post gw) (gw_policy gw)
             \<lparr>ctx_sensitivity = Some (sensitivity_value lvl), ctx_tenant = Some tenant,
              ctx_service_type = sv_service_type service\<rparr> of
           Inl (Domain (PolicyViolationError pid desc results _ _)) \<Rightarrow>
             (audit_results (dr_request_id dr) ctx results db,
              Inl (Domain (PolicyViolationError pid desc results (Some count) (Some types))))
         | Inl e \<Rightarrow> (db, Inl e)
         | Inr results \<Rightarrow> (audit_results (dr_request_id dr) ctx results db, Inr ())))"

definition outbound_messages :: "ai_request_schema \<Rightarrow> (string \<times> string) list list" where
  "outbound_messages body = map (\<lambda>m. [(''role'', role m), (''content'', content m)]) (messages body)"

definition injection_event :: "string \<Rightarrow> string \<Rightarrow> scan_result \<Rightarrow> string \<Rightarrow> database \<Rightarrow> database" where
  "injection_event tenant rid sr decision =
     create_security_event ''prompt_injection'' tenant (Some rid) (Some (prompt_hash sr))
       (Some (matched_patterns sr)) (Some (total_score sr)) decision None 0 JNull"

definition run_prompt_security_scan :: "'s gateway \<Rightarrow> draws \<Rightarrow> string \<Rightarrow> (string \<times> string) list list
    \<Rightarrow> nat option \<Rightarrow> string list option \<Rightarrow> unit db_action" where
  "run_prompt_security_scan gw dr tenant msgs pii_count types db =
     (let sr = scan_messages (gw_security gw) msgs; rid = dr_request_id dr
      in if is_blocked sr then
           (update_ai_request_status rid ''blocked'' (Some (dr_completed_at dr))
              (Some (''Prompt injection detected: '' @ repr_list (matched_patterns sr)))
              (injection_event tenant rid sr ''blocked'' db),
            Inl (Domain (SecurityViolationError (prompt_hash sr) (matched_patterns sr) (total_score sr)
              pii_count types)))
         else if matched_patterns sr \<noteq> [] then (injection_event tenant rid sr ''allowed'' db, Inr ())
         else (db, Inr ()))"

section \<open>The pipeline\<close>

record pre_flight_result =
  pf_request_id :: string
  pf_tenant_id :: string
  pf_provided_intent :: string
  pf_intent :: intent_decision
  pf_resolved_service_id :: string
  pf_service :: ai_service
  pf_final_sensitivity :: sensitivity_level
  pf_detected_pii_types :: "string list"
  pf_pii_count :: nat
  pf_messages :: "(string \<times> string) list list"

text \<open>After the intent is resolved.\<close>

definition run_checks :: "'s gateway \<Rightarrow> draws \<Rightarrow> user_claims \<Rightarrow> ai_request_schema \<Rightarrow> 's
    \<Rightarrow> string \<Rightarrow> intent_decision \<Rightarrow> string \<Rightarrow> pre_flight_result db_action" where
  "run_checks gw dr user body store tenant decision service_id =
     then_act (check_permission (scope_of_user user) tenant service_id (id_name decision)) (\<lambda>_.
     then_act (require_quota gw (dr_check_day dr) tenant store) (\<lambda>_.
     then_act (find_service service_id) (\<lambda>service.
     then_act (persist_record dr tenant (id_name decision) service_id body) (\<lambda>_.
     then_act (inspect_request gw dr body) (\<lambda>found.
     then_act (apply_policies gw dr tenant service found) (\<lambda>_.
     then_act (run_prompt_security_scan gw dr tenant (outbound_messages body)
       (Some (snd (snd found))) (Some (fst (snd found)))) (\<lambda>_.
     return_act \<lparr>pf_request_id = dr_request_id dr, pf_tenant_id = tenant, pf_provided_intent = intent body,
       pf_intent = decision, pf_resolved_service_id = service_id, pf_service = service,
       pf_final_sensitivity = fst found, pf_detected_pii_types = fst (snd found),
       pf_pii_count = snd (snd found), pf_messages = outbound_messages body\<rparr>)))))))"

definition run_pre_flight :: "'s gateway \<Rightarrow> draws \<Rightarrow> user_claims \<Rightarrow> ai_request_schema \<Rightarrow> 's
    \<Rightarrow> pre_flight_result db_action" where
  "run_pre_flight gw dr user body store =
     (let tenant = tenant_or_default user
      in if tenant = [] then raise_act (Domain TenantIdMissingError)
         else case classify_intent gw tenant body of
             Inl e \<Rightarrow> raise_act (Runtime e)
           | Inr decision \<Rightarrow>
               (case resolve_intent (gw_intents gw) (id_name decision) of
                  Inl e \<Rightarrow> raise_act (Domain e)
                | Inr service_id \<Rightarrow> run_checks gw dr user body store tenant decision service_id))"

section \<open>What a request may do to the database\<close>

text \<open>A request with id \<open>rid\<close> works on its own record, adds to the logs and leaves the rest; the
  statuses it writes are these five.\<close>

definition request_statuses :: "string list" where
  "request_statuses = [''received'', ''blocked'', ''streaming'', ''completed'', ''failed'']"

definition static_tables :: "database \<Rightarrow> ai_service list \<times> tenant_permission list \<times> intent_routing list
    \<times> intent_audit_log list \<times> governance_policy list \<times> lifecycle_event list \<times> (int \<times> security_pattern) list" where
  "static_tables db = (t_ai_services db, t_permissions db, t_intent_routing db, t_intent_audit db,
     t_policies db, t_lifecycle db, t_security_patterns db)"

definition other_requests :: "string \<Rightarrow> database \<Rightarrow> ai_request_record list" where
  "other_requests rid db = filter (\<lambda>r. ar_request_id r \<noteq> rid) (t_ai_requests db)"

definition statuses_within :: "database \<Rightarrow> database \<Rightarrow> bool" where
  "statuses_within db db' \<longleftrightarrow>
     list_all (\<lambda>st. st \<in> set (map ar_status (t_ai_requests db)) \<or> st \<in> set request_statuses)
       (map ar_status (t_ai_requests db'))"

lemma statuses_within_trans: "statuses_within db db1 \<Longrightarrow> statuses_within db1 db2 \<Longrightarrow> statuses_within db db2"
  unfolding statuses_within_def list_all_iff by blast

lemma statuses_within_same: "t_ai_requests db' = t_ai_requests db \<Longrightarrow> statuses_within db db'"
  by (simp add: statuses_within_def list_all_iff)

definition request_touches :: "string \<Rightarrow> database \<Rightarrow> database \<Rightarrow> bool" where
  "request_touches rid db db' \<longleftrightarrow>
     static_tables db' = static_tables db \<and> other_requests rid db' = other_requests rid db
     \<and> statuses_within db db'
     \<and> (\<exists>a b c d. t_permission_audit db' = t_permission_audit db @ a
          \<and> t_policy_audit db' = t_policy_audit db @ b
          \<and> t_security_events db' = t_security_events db @ c
          \<and> t_usage db' = t_usage db @ d)"

named_theorems request_steps "steps of a request that touch only what they may"

lemma request_touches_refl [intro!, simp]: "request_touches rid db db"
  by (simp add: request_touches_def statuses_within_same)

lemma request_touches_trans:
  "request_touches rid db db1 \<Longrightarrow> request_touches rid db1 db2 \<Longrightarrow> request_touches rid db db2"
  by (auto simp: request_touches_def intro: statuses_within_trans)

lemma touches_then:
  assumes "\<And>db. request_touches rid db (fst (m db))" and "\<And>x db. request_touches rid db (fst (k x db))"
  shows "request_touches rid db (fst (then_act m k db))"
proof (cases "m db")
  case (Pair db1 r)
  with assms(1) [of db] have "request_touches rid db db1" by simp
  with assms(2) [where db = db1] Pair show ?thesis
    by (cases r) (auto simp: then_act_def intro: request_touches_trans)
qed

lemma touches_return [request_steps]: "request_touches rid db (fst (return_act x db))"
  by (simp add: return_act_def)

lemma touches_raise [request_steps]: "request_touches rid db (fst (raise_act e db))"
  by (simp add: raise_act_def)

lemma touches_update:
  assumes f: "\<And>r. ar_request_id (f r) = ar_request_id r"
    and st: "\<And>r. ar_status (f r) = ar_status r \<or> ar_status (f r) \<in> set request_statuses"
  shows "request_touches rid db (update_requests rid f db)"
proof -
  have "filter (\<lambda>r. ar_request_id r \<noteq> rid) (map (\<lambda>r. if ar_request_id r = rid then f r else r) rs)
      = filter (\<lambda>r. ar_request_id r \<noteq> rid) rs" for rs
    by (induction rs) (auto simp: f)
  moreover have "statuses_within db (update_requests rid f db)"
  proof -
    have "ar_status (if ar_request_id r = rid then f r else r) \<in> ar_status ` set (t_ai_requests db)
        \<or> ar_status (if ar_request_id r = rid then f r else r) \<in> set request_statuses"
      if "r \<in> set (t_ai_requests db)" for r
      using that st [of r] by (simp add: disj_commute) (metis imageI)
    then show ?thesis by (simp add: statuses_within_def update_requests_def list_all_iff)
  qed
  ultimately show ?thesis
    by (simp add: request_touches_def static_tables_def other_requests_def update_requests_def)
qed

lemma touches_status:
  "st \<in> set request_statuses \<Longrightarrow> request_touches rid db (update_ai_request_status rid st t e db)"
  unfolding update_ai_request_status_def by (rule touches_update) simp_all

lemmas touches_blocked [request_steps] =
  touches_status [of "''blocked''", unfolded request_statuses_def, simplified]

lemma touches_sensitivity [request_steps]: "request_touches rid db (update_resolved_sensitivity rid lvl db)"
  unfolding update_resolved_sensitivity_def by (rule touches_update) simp_all

lemma touches_event [request_steps]:
  "request_touches rid db (create_security_event ty t r h ps sc dec tys n m db)"
  by (simp add: request_touches_def static_tables_def other_requests_def create_security_event_def statuses_within_same)

lemma touches_usage [request_steps]:
  "create_usage_log r t s m i j db = Some db' \<Longrightarrow> request_touches rid db db'"
  by (auto simp: request_touches_def static_tables_def other_requests_def create_usage_log_def Let_def
      statuses_within_same split: if_splits)

lemma touches_audit [request_steps]: "request_touches rid db (audit_results r ctx rs db)"
proof (induction rs arbitrary: db)
  case Nil
  then show ?case by (simp add: audit_results_def)
next
  case (Cons res rs)
  have "request_touches rid db (create_policy_audit_log r (per_policy_id res) (effect_value (per_effect res))
      (per_decision res) ctx db)"
    by (simp add: request_touches_def static_tables_def other_requests_def create_policy_audit_log_def
        statuses_within_same)
  from request_touches_trans [OF this Cons.IH] show ?case by (simp add: audit_results_def)
qed

lemma touches_permission [request_steps]: "request_touches rid db (fst (check_permission sc t s i db))"
  by (auto simp: check_permission_def check_tenant_service_permission_and_audit_def Let_def
      request_touches_def static_tables_def other_requests_def statuses_within_same)

lemma touches_quota [request_steps]: "request_touches rid db (fst (require_quota gw d t st db))"
  by (simp add: require_quota_def)

lemma touches_find [request_steps]: "request_touches rid db (fst (find_service s db))"
  by (simp add: find_service_def)

lemma touches_persist [request_steps]:
  "request_touches (dr_request_id dr) db (fst (persist_record dr t i s body db))"
  by (auto simp: persist_record_def create_ai_request_def request_touches_def static_tables_def
      other_requests_def statuses_within_def list_all_iff request_statuses_def split: option.split)

lemma touches_inspect [request_steps]:
  "request_touches (dr_request_id dr) db (fst (inspect_request gw dr body db))"
  by (auto simp: inspect_request_def request_steps split: sum.split)

lemma touches_policies [request_steps]:
  "request_touches (dr_request_id dr) db (fst (apply_policies gw dr t sv found db))"
  by (auto simp: apply_policies_def Let_def request_steps split: prod.split sum.split exn.split domain_error.split)

lemma touches_scan [request_steps]:
  "request_touches (dr_request_id dr) db (fst (run_prompt_security_scan gw dr t ms n tys db))"
  by (auto simp: run_prompt_security_scan_def injection_event_def Let_def
      intro: request_touches_trans request_steps)

lemma touches_checks [request_steps]:
  "request_touches (dr_request_id dr) db (fst (run_checks gw dr user body store t d s db))"
  unfolding run_checks_def by (intro touches_then request_steps)

text \<open>However a pre-flight ends, it stays within its own request.\<close>

lemma touches_pre_flight [request_steps]:
  "request_touches (dr_request_id dr) db (fst (run_pre_flight gw dr user body store db))"
  by (auto simp: run_pre_flight_def Let_def request_steps split: sum.split)

section \<open>What passing means\<close>

lemma inspect_result_le:
  "inspect_content nlp env body = Inr found \<Longrightarrow> sensitivity (metadata body) \<le> fst found"
  using inspect_content_shape [of nlp env body] by auto

lemma check_permission_Inr:
  assumes "check_permission sc t s i db = (db', Inr x)"
  shows "(\<exists>p \<in> set (t_permissions db). tp_tenant_id p = t \<and> tp_service_id p = s \<and> tp_allowed p = Some True
      \<and> tenant_visible sc t)
    \<and> t_ai_services db' = t_ai_services db \<and> t_ai_requests db' = t_ai_requests db"
  using assms
  by (auto simp: check_permission_def check_tenant_service_permission_and_audit_def Let_def find_Some_iff
      split: option.splits if_splits dest: nth_mem)

lemma require_quota_Inr:
  "require_quota gw d t st db = (db', Inr x) \<Longrightarrow>
     db' = db \<and> check_quota (gw_quota gw) (gw_redis gw) d t st = Inr True"
  by (auto simp: require_quota_def split: sum.splits if_splits)

lemma find_service_Inr: "find_service s db = (db', Inr x) \<Longrightarrow> db' = db \<and> get_ai_service_by_id s db = Some x"
  by (auto simp: find_service_def split: option.splits)

text \<open>The record of a request, once it is there, with its status.\<close>

definition has_record :: "string \<Rightarrow> string \<Rightarrow> string \<Rightarrow> database \<Rightarrow> bool" where
  "has_record rid t st db = (\<exists>r \<in> set (t_ai_requests db). ar_request_id r = rid \<and> ar_tenant_id r = t \<and> ar_status r = st)"

lemma persist_record_Inr:
  assumes "persist_record dr t i s body db = (db', Inr x)"
  shows "has_record (dr_request_id dr) t ''received'' db' \<and> t_ai_services db' = t_ai_services db"
  using assms by (auto simp: persist_record_def create_ai_request_def has_record_def split: option.splits if_splits)

lemma has_record_update:
  assumes "has_record rid t st db" and "\<And>r. ar_request_id (f r) = ar_request_id r \<and> ar_tenant_id (f r) = ar_tenant_id r"
    and "\<And>r. ar_status r = st \<Longrightarrow> ar_status (f r) = st'"
  shows "has_record rid t st' (update_requests rid f db)"
proof -
  from assms(1) obtain r where r: "r \<in> set (t_ai_requests db)" "ar_request_id r = rid"
    "ar_tenant_id r = t" "ar_status r = st" by (auto simp: has_record_def)
  from r(1) have "(\<lambda>r. if ar_request_id r = rid then f r else r) r
      \<in> set (t_ai_requests (update_requests rid f db))" by (simp add: update_requests_def)
  with r assms(2,3) [of r] show ?thesis unfolding has_record_def by (intro bexI [of _ "f r"]) simp_all
qed

lemma inspect_request_Inr:
  assumes "inspect_request gw dr body db = (db', Inr found)" and "has_record (dr_request_id dr) t st db"
  shows "inspect_content (gw_nlp gw) (gw_allowed_intents gw) body = Inr found
    \<and> has_record (dr_request_id dr) t st db' 
    \<and> (\<exists>r \<in> set (t_ai_requests db'). ar_request_id r = dr_request_id dr \<and> ar_tenant_id r = t \<and> ar_status r = st
        \<and> ar_resolved_sensitivity r = Some (sensitivity_value (fst found)))"
proof -
  from assms(1) obtain lvl tys n where f: "inspect_content (gw_nlp gw) (gw_allowed_intents gw) body = Inr (lvl, tys, n)"
    "found = (lvl, tys, n)" "db' = update_resolved_sensitivity (dr_request_id dr) (sensitivity_value lvl) db"
    by (auto simp: inspect_request_def split: sum.splits)
  have "has_record (dr_request_id dr) t st db'"
    unfolding f update_resolved_sensitivity_def by (rule has_record_update [OF assms(2)]) simp_all
  moreover from assms(2) obtain r where r: "r \<in> set (t_ai_requests db)" "ar_request_id r = dr_request_id dr"
    "ar_tenant_id r = t" "ar_status r = st" by (auto simp: has_record_def)
  then have "r\<lparr>ar_resolved_sensitivity := Some (sensitivity_value lvl)\<rparr> \<in> set (t_ai_requests db')"
    unfolding f by (force simp: update_resolved_sensitivity_def update_requests_def image_iff)
  then have "\<exists>r \<in> set (t_ai_requests db'). ar_request_id r = dr_request_id dr \<and> ar_tenant_id r = t
      \<and> ar_status r = st \<and> ar_resolved_sensitivity r = Some (sensitivity_value lvl)"
    by (rule bexI [rotated]) (simp add: r)
  ultimately show ?thesis using f by simp
qed

lemma audit_results_requests [simp]: "t_ai_requests (audit_results rid c rs db) = t_ai_requests db"
  unfolding audit_results_def by (induction rs arbitrary: db) (simp_all add: create_policy_audit_log_def)

definition policy_context_of :: "sensitivity_level \<Rightarrow> string \<Rightarrow> ai_service \<Rightarrow> policy_context" where
  "policy_context_of lvl t sv = \<lparr>ctx_sensitivity = Some (sensitivity_value lvl), ctx_tenant = Some t,
     ctx_service_type = sv_service_type sv\<rparr>"

lemma apply_policies_Inr:
  assumes "apply_policies gw dr t sv found db = (db', Inr x)"
  shows "(\<exists>results. evaluate_async (gw_float_repr gw) (gw_opa gw) (gw_opa_post gw) (gw_policy gw)
      (policy_context_of (fst found) t sv) = Inr results) \<and> t_ai_requests db' = t_ai_requests db"
  using assms by (cases found) (auto simp: apply_policies_def policy_context_of_def Let_def
      split: sum.splits exn.splits domain_error.splits)

lemma run_scan_Inr:
  assumes "run_prompt_security_scan gw dr t ms n tys db = (db', Inr x)"
  shows "\<not> is_blocked (scan_messages (gw_security gw) ms) \<and> t_ai_requests db' = t_ai_requests db"
  using assms by (auto simp: run_prompt_security_scan_def injection_event_def create_security_event_def Let_def
      split: if_splits)

lemma run_checks_Inr:
  assumes "run_checks gw dr user body store t decision sid db = (db', Inr pf)"
  obtains db1 db2 db3 db4 db5 service found x where
    "check_permission (scope_of_user user) t sid (id_name decision) db = (db1, Inr x)"
    "check_quota (gw_quota gw) (gw_redis gw) (dr_check_day dr) t store = Inr True"
    "get_ai_service_by_id sid db1 = Some service"
    "persist_record dr t (id_name decision) sid body db1 = (db2, Inr x)"
    "inspect_request gw dr body db2 = (db3, Inr found)"
    "apply_policies gw dr t service found db3 = (db4, Inr x)"
    "run_prompt_security_scan gw dr t (outbound_messages body)
       (Some (snd (snd found))) (Some (fst (snd found))) db4 = (db', Inr x)"
    "pf_tenant_id pf = t" "pf_intent pf = decision" "pf_resolved_service_id pf = sid"
    "pf_service pf = service" "pf_final_sensitivity pf = fst found" "pf_messages pf = outbound_messages body"
    "pf_request_id pf = dr_request_id dr"
  using assms unfolding run_checks_def then_act_Inr_iff return_act_def
  by (auto dest!: require_quota_Inr find_service_Inr)

lemma pre_flight_passed:
  assumes "run_pre_flight gw dr user body store db = (db', Inr pf)"
  shows "let t = tenant_or_default user; sid = pf_resolved_service_id pf in
    (\<exists>p \<in> set (t_permissions db). tp_tenant_id p = t \<and> tp_service_id p = sid \<and> tp_allowed p = Some True
       \<and> tenant_visible (scope_of_user user) t)
    \<and> check_quota (gw_quota gw) (gw_redis gw) (dr_check_day dr) t store = Inr True
    \<and> resolve_intent (gw_intents gw) (id_name (pf_intent pf)) = Inr sid
    \<and> get_ai_service_by_id sid db = Some (pf_service pf)
    \<and> sensitivity (metadata body) \<le> pf_final_sensitivity pf
    \<and> (\<exists>results. evaluate_async (gw_float_repr gw) (gw_opa gw) (gw_opa_post gw) (gw_policy gw)
         (policy_context_of (pf_final_sensitivity pf) t (pf_service pf)) = Inr results)
    \<and> \<not> is_blocked (scan_messages (gw_security gw) (pf_messages pf))
    \<and> pf_tenant_id pf = t \<and> pf_request_id pf = dr_request_id dr
    \<and> (\<exists>r \<in> set (t_ai_requests db'). ar_request_id r = dr_request_id dr \<and> ar_tenant_id r = t
         \<and> ar_status r = ''received''
         \<and> ar_resolved_sensitivity r = Some (sensitivity_value (pf_final_sensitivity pf)))"
proof -
  define t where "t = tenant_or_default user"
  from assms obtain decision sid where rs: "resolve_intent (gw_intents gw) (id_name decision) = Inr sid"
    and rc: "run_checks gw dr user body store t decision sid db = (db', Inr pf)"
    by (auto simp: run_pre_flight_def Let_def raise_act_def t_def split: if_splits sum.splits)
  from rc show ?thesis
  proof (rule run_checks_Inr)
    fix db1 db2 db3 db4 db5 :: database and service found and x :: unit
    assume h: "check_permission (scope_of_user user) t sid (id_name decision) db = (db1, Inr x)"
      "check_quota (gw_quota gw) (gw_redis gw) (dr_check_day dr) t store = Inr True"
      "get_ai_service_by_id sid db1 = Some service"
      "persist_record dr t (id_name decision) sid body db1 = (db2, Inr x)"
      "inspect_request gw dr body db2 = (db3, Inr found)"
      "apply_policies gw dr t service found db3 = (db4, Inr x)"
      "run_prompt_security_scan gw dr t (outbound_messages body)
         (Some (snd (snd found))) (Some (fst (snd found))) db4 = (db', Inr x)"
      and pf: "pf_tenant_id pf = t" "pf_intent pf = decision" "pf_resolved_service_id pf = sid"
      "pf_service pf = service" "pf_final_sensitivity pf = fst found" "pf_messages pf = outbound_messages body"
      "pf_request_id pf = dr_request_id dr"
    note p = check_permission_Inr [OF h(1)] and a = apply_policies_Inr [OF h(6)] and sc = run_scan_Inr [OF h(7)]
      and i = inspect_request_Inr [OF h(5) conjunct1 [OF persist_record_Inr [OF h(4)]]]
    have "get_ai_service_by_id sid db = Some service" using h(3) p by (simp add: get_ai_service_by_id_def)
    moreover have "sensitivity (metadata body) \<le> fst found"
      using inspect_result_le conjunct1 [OF i] by blast
    moreover have "t_ai_requests db' = t_ai_requests db3" using a sc by simp
    ultimately show ?thesis using p i a sc h(2) rs by (simp add: pf t_def)
  qed
qed

text \<open>C2. No provider is called unless every gate is open: a pre-flight that succeeds had a permission
  row of the tenant for the resolved service, visible to the session and granted; quota left; a
  service that exists; a policy decision that allows the context with the final sensitivity, which
  is at least the declared one; and a scan that does not block. The tracking record is then in the
  table as received, with the final sensitivity.\<close>

theorem pre_flight_gatekeeping:
  assumes "run_pre_flight gw dr user body store db = (db', Inr pf)"
  shows "let t = tenant_or_default user; sid = pf_resolved_service_id pf in
    (\<exists>p \<in> set (t_permissions db). tp_tenant_id p = t \<and> tp_service_id p = sid \<and> tp_allowed p = Some True
       \<and> tenant_visible (scope_of_user user) t)
    \<and> check_quota (gw_quota gw) (gw_redis gw) (dr_check_day dr) t store = Inr True
    \<and> resolve_intent (gw_intents gw) (id_name (pf_intent pf)) = Inr sid
    \<and> get_ai_service_by_id sid db = Some (pf_service pf)
    \<and> sensitivity (metadata body) \<le> pf_final_sensitivity pf
    \<and> (\<exists>results. evaluate_async (gw_float_repr gw) (gw_opa gw) (gw_opa_post gw) (gw_policy gw)
         (policy_context_of (pf_final_sensitivity pf) t (pf_service pf)) = Inr results)
    \<and> \<not> is_blocked (scan_messages (gw_security gw) (pf_messages pf))
    \<and> pf_tenant_id pf = t \<and> pf_request_id pf = dr_request_id dr
    \<and> (\<exists>r \<in> set (t_ai_requests db'). ar_request_id r = dr_request_id dr \<and> ar_tenant_id r = t
         \<and> ar_status r = ''received''
         \<and> ar_resolved_sensitivity r = Some (sensitivity_value (pf_final_sensitivity pf)))"
  by (rule pre_flight_passed [OF assms])

section \<open>What refusing leaves behind\<close>

lemma resolve_intent_error: "resolve_intent c nm = Inl e \<Longrightarrow> \<exists>i v. e = IntentNotFoundError i v"
  by (auto simp: resolve_intent_def split: option.splits list.splits)

lemma check_permission_Inl:
  assumes "check_permission sc t s i db = (db', Inl e)"
  shows "e = Domain (TenantNotAuthorizedError t s) \<and> t_ai_requests db' = t_ai_requests db
    \<and> (\<exists>a. t_permission_audit db' = t_permission_audit db @ [a] \<and> pal_action a = ''DENY''
         \<and> pal_tenant_id a = t \<and> pal_service_id a = s)"
  using assms by (auto simp: check_permission_def check_tenant_service_permission_and_audit_def Let_def split: if_splits)

lemma require_quota_Inl:
  "require_quota gw d t st db = (db', Inl e) \<Longrightarrow> db' = db \<and> (e = Domain (QuotaExceededError t) \<or> (\<exists>x. e = Runtime x))"
  by (auto simp: require_quota_def split: sum.splits if_splits)

lemma find_service_Inl:
  "find_service s db = (db', Inl e) \<Longrightarrow> db' = db \<and> e = Domain (ServiceNotFoundError s)"
  by (auto simp: find_service_def split: option.splits)

lemma persist_record_Inl:
  "persist_record dr t i s body db = (db', Inl e) \<Longrightarrow> db' = db \<and> (\<exists>m. e = Domain (ProviderError m))"
  by (auto simp: persist_record_def split: option.splits)

lemma inspect_request_never_fails: "inspect_request gw dr body db \<noteq> (db', Inl e)"
  using inspect_content_shape [of "gw_nlp gw" "gw_allowed_intents gw" body]
  by (auto simp: inspect_request_def split: sum.splits)

lemma apply_policies_Inl:
  assumes "apply_policies gw dr t sv found db = (db', Inl (Domain e))"
  shows "(\<exists>pid desc results. e = PolicyViolationError pid desc results (Some (snd (snd found))) (Some (fst (snd found)))
        \<and> db' = audit_results (dr_request_id dr) (audit_context (fst found) t sv) results db)
      \<or> (\<exists>r d. e = PolicyEvaluationError r d) \<and> db' = db"
proof -
  obtain lvl tys n where f: "found = (lvl, tys, n)" by (cases found)
  define r where "r = evaluate_async (gw_float_repr gw) (gw_opa gw) (gw_opa_post gw) (gw_policy gw)
    \<lparr>ctx_sensitivity = Some (sensitivity_value lvl), ctx_tenant = Some t, ctx_service_type = sv_service_type sv\<rparr>"
  from assms obtain x where x: "r = Inl x"
    by (cases r) (auto simp: apply_policies_def f r_def Let_def)
  from evaluate_async_errors [OF x [unfolded r_def]] assms x show ?thesis
    by (auto simp: apply_policies_def f r_def Let_def)
qed

lemma run_scan_Inl:
  assumes "run_prompt_security_scan gw dr t ms n tys db = (db', Inl (Domain e))"
  shows "let sr = scan_messages (gw_security gw) ms in
    is_blocked sr \<and> e = SecurityViolationError (prompt_hash sr) (matched_patterns sr) (total_score sr) n tys
    \<and> db' = update_ai_request_status (dr_request_id dr) ''blocked'' (Some (dr_completed_at dr))
        (Some (''Prompt injection detected: '' @ repr_list (matched_patterns sr)))
        (injection_event t (dr_request_id dr) sr ''blocked'' db)"
  using assms by (auto simp: run_prompt_security_scan_def Let_def split: if_splits)

lemma run_checks_Inl:
  assumes "run_checks gw dr user body store t decision sid db = (db', Inl e)"
  obtains (permission) "check_permission (scope_of_user user) t sid (id_name decision) db = (db', Inl e)"
  | (quota) x where "check_permission (scope_of_user user) t sid (id_name decision) db = (db', Inr x)"
      "e = Domain (QuotaExceededError t) \<or> (\<exists>y. e = Runtime y)"
  | (service) x where "check_permission (scope_of_user user) t sid (id_name decision) db = (db', Inr x)"
      "e = Domain (ServiceNotFoundError sid)"
  | (persist) m where "e = Domain (ProviderError m)"
  | (policies) db2 db3 service found x where
      "persist_record dr t (id_name decision) sid body db2 = (db3, Inr x)"
      "\<exists>db4. inspect_request gw dr body db3 = (db4, Inr found)
         \<and> apply_policies gw dr t service found db4 = (db', Inl e)"
  | (scan) db2 db3 db4 db5 service found x where
      "persist_record dr t (id_name decision) sid body db2 = (db3, Inr x)"
      "inspect_request gw dr body db3 = (db4, Inr found)"
      "apply_policies gw dr t service found db4 = (db5, Inr x)"
      "run_prompt_security_scan gw dr t (outbound_messages body)
         (Some (snd (snd found))) (Some (fst (snd found))) db5 = (db', Inl e)"
  using assms unfolding run_checks_def then_act_Inl_iff return_act_def
  by (auto dest!: require_quota_Inr find_service_Inr require_quota_Inl find_service_Inl
      persist_record_Inl simp: inspect_request_never_fails)

definition audit_row :: "string \<Rightarrow> json \<Rightarrow> policy_evaluation_result \<Rightarrow> policy_audit_log" where
  "audit_row rid ctx res = \<lparr>pol_request_id = rid, pol_policy_id = per_policy_id res,
     pol_effect = effect_value (per_effect res), pol_decision = per_decision res, pol_context = ctx\<rparr>"

lemma audit_results_rows:
  "t_policy_audit (audit_results rid ctx rs db) = t_policy_audit db @ map (audit_row rid ctx) rs"
proof (induction rs arbitrary: db)
  case Nil
  then show ?case by (simp add: audit_results_def)
next
  case (Cons res rs)
  let ?db = "create_policy_audit_log rid (per_policy_id res) (effect_value (per_effect res)) (per_decision res) ctx db"
  have "audit_results rid ctx (res # rs) db = audit_results rid ctx rs ?db" by (simp add: audit_results_def)
  with Cons.IH [of ?db] show ?case by (simp add: create_policy_audit_log_def audit_row_def)
qed

text \<open>What a scan that blocks leaves behind.\<close>

lemma scan_refused:
  assumes r: "has_record (dr_request_id dr) t ''received'' db"
    and s: "run_prompt_security_scan gw dr t msgs n tys db = (db', Inl (Domain e))"
  shows "\<exists>h pats sc m us. e = SecurityViolationError h pats sc m us \<and> has_record (dr_request_id dr) t ''blocked'' db'
    \<and> (\<exists>ev. t_security_events db' \<noteq> [] \<and> last (t_security_events db') = ev
         \<and> se_event_type ev = ''prompt_injection'' \<and> se_decision ev = ''blocked''
         \<and> se_prompt_hash ev = Some h \<and> se_score ev = Some sc
         \<and> se_request_id ev = Some (dr_request_id dr) \<and> se_tenant_id ev = t)"
proof -
  define sr where "sr = scan_messages (gw_security gw) msgs"
  let ?ev = "injection_event t (dr_request_id dr) sr ''blocked'' db"
  from run_scan_Inl [OF s] have e: "e = SecurityViolationError (prompt_hash sr) (matched_patterns sr) (total_score sr) n tys"
    and db': "db' = update_ai_request_status (dr_request_id dr) ''blocked'' (Some (dr_completed_at dr))
      (Some (''Prompt injection detected: '' @ repr_list (matched_patterns sr))) ?ev"
    unfolding sr_def Let_def by blast+
  from r have "has_record (dr_request_id dr) t ''received'' ?ev"
    by (simp add: has_record_def injection_event_def create_security_event_def)
  from has_record_update [OF this, where st' = "''blocked''"] have "has_record (dr_request_id dr) t ''blocked'' db'"
    by (simp add: db' update_ai_request_status_def)
  moreover have "t_security_events db' = t_security_events ?ev"
    unfolding db' update_ai_request_status_def update_requests_def by simp
  ultimately show ?thesis unfolding e by (simp add: injection_event_def create_security_event_def)
qed


section \<open>Witnesses\<close>

text \<open>A gateway with an embedded evaluator, no policies, the sample quota, and a scanner.\<close>

definition sample_gateway :: "prompt_security_service \<Rightarrow> (string \<Rightarrow> string option) gateway" where
  "sample_gateway scanner = \<lparr>gw_intents = \<lparr>ic_cache = [(''chat'', ''llm'')], ic_version = ''1''\<rparr>,
     gw_nlp = (\<lambda>_. []), gw_allowed_intents = [],
     gw_opa = \<lparr>opa_enabled = False, opa_strict_sync = True, opa_allow_local_fallback = True, opa_fail_closed = False\<rparr>,
     gw_opa_post = (\<lambda>_. Opa_Error []), gw_policy = init_policy_service, gw_quota = sample_quotas,
     gw_redis = map_redis, gw_security = scanner, gw_classifier = \<lparr>cc_base = [], cc_enabled = False\<rparr>,
     gw_classify_post = (\<lambda>_. None), gw_taxonomy = Inl ValueError, gw_auto_token = ''auto'',
     gw_shadow = False, gw_float_text = (\<lambda>_. Inl ValueError), gw_float_repr = (\<lambda>_. []),
     gw_exc_text = (\<lambda>_. [])\<rparr>"

definition sample_draws :: draws where
  "sample_draws = \<lparr>dr_request_id = ''r1'', dr_started_at = 1, dr_completed_at = 2,
     dr_check_day = sample_day, dr_charge_day = sample_day, dr_report_day = sample_day\<rparr>"

definition sample_body :: ai_request_schema where
  "sample_body = \<lparr>intent = ''chat'', messages = [\<lparr>role = ''user'', content = ''hi''\<rparr>],
     metadata = \<lparr>sensitivity = HIGH, environment = ''dev''\<rparr>\<rparr>"

definition sample_world :: database where
  "sample_world = sample_routing
     \<lparr>t_permissions := [\<lparr>tp_tenant_id = ''tenant-a'', tp_service_id = ''llm'', tp_allowed = Some True\<rparr>]\<rparr>"

definition quiet_scanner :: prompt_security_service where
  "quiet_scanner = \<lparr>ps_threshold = 1, ps_patterns = []\<rparr>"

definition strict_scanner :: prompt_security_service where
  "strict_scanner = \<lparr>ps_threshold = 1, ps_patterns =
     [\<lparr>ip_name = ''greeting'', ip_search = (\<lambda>t. contains ''hi'' t), ip_weight = 1, ip_description = []\<rparr>]\<rparr>"

lemmas sample_run = run_pre_flight_def run_checks_def then_act_def raise_act_def return_act_def
  sample_gateway_def sample_admin_def sample_body_def sample_draws_def tenant_or_default_def
  classify_intent_def Let_def resolve_intent_def check_permission_def
  check_tenant_service_permission_and_audit_def sample_world_def sample_routing_def empty_database_def
  tenant_visible_def scope_of_user_def require_quota_def find_service_def get_ai_service_by_id_def
  sample_service_def persist_record_def create_ai_request_def service_exists_def inspect_request_def
  inspect_content_def update_resolved_sensitivity_def update_requests_def apply_policies_def
  evaluate_async_def init_policy_service_def audit_results_def run_prompt_security_scan_def
  scan_messages_def scan_def outbound_messages_def dict_get_default_def

lemma sample_quota_left: "check_quota sample_quotas map_redis sample_day ''tenant-a'' Map.empty = Inr True"
  by (simp add: check_quota_def sample_quotas_def load_quotas_def json_iter_def dict_get_default_def
      jobj_get_def hashable_def get_tenant_config_def config_for_def max_tokens_of_def num_of_def map_redis_def)

lemma sample_passes:
  "\<exists>db' pf. run_pre_flight (sample_gateway quiet_scanner) sample_draws sample_admin sample_body Map.empty
      sample_world = (db', Inr pf) \<and> pf_tenant_id pf = ''tenant-a'' \<and> pf_service pf = sample_service"
  by (simp add: sample_run quiet_scanner_def sample_quota_left)

theorem pre_flight_gatekeeping_witness:
  "\<exists>db' pf. run_pre_flight (sample_gateway quiet_scanner) sample_draws sample_admin sample_body Map.empty
      sample_world = (db', Inr pf)
    \<and> (\<exists>r \<in> set (t_ai_requests db'). ar_request_id r = ''r1'' \<and> ar_status r = ''received'')"
proof -
  obtain db' pf where p: "run_pre_flight (sample_gateway quiet_scanner) sample_draws sample_admin sample_body
      Map.empty sample_world = (db', Inr pf)" using sample_passes by blast
  from pre_flight_gatekeeping [OF p] p show ?thesis by (auto simp: Let_def sample_draws_def)
qed

lemma sample_refused:
  "\<exists>db' h ps sc n tys. run_pre_flight (sample_gateway strict_scanner) sample_draws sample_admin
      sample_body Map.empty sample_world = (db', Inl (Domain (SecurityViolationError h ps sc n tys)))"
  by (simp add: sample_run strict_scanner_def sample_quota_left fadd_def)


end
