(* ===== verification/Providers.thy ===== *)
theory Providers
  imports Exceptions Py_Num Py_Hash
begin

text \<open>
  The providers of answers: the calls to an Ollama server
  (src/fastapi\_backend/app/infrastructure/ai\_provider/ollama\_client.py) and to Gemini (the helpers
  of services/ai\_request\_service.py), each as a function of what the HTTP exchange gives. The
  exchange is a parameter: an exception of the client, or status and body, or for a stream the
  lines that arrive and the exception that ends them, if one does. \<open>json.loads\<close> is the
  parameter \<open>loads\<close> (\<open>None\<close>: the text does not parse).
\<close>

datatype http_exchange = Http_Error exn | Http_Answer nat string

section \<open>Text helpers\<close>

text \<open>\<open>s.replace(old, '')\<close> for a non-empty \<open>old\<close>, and \<open>s.splitlines()\<close>.\<close>

function remove_all :: "string \<Rightarrow> string \<Rightarrow> string" where
  "remove_all old s =
     (if old = [] then s
      else case s of [] \<Rightarrow> []
        | c # t \<Rightarrow> (if starts_with old s then remove_all old (drop (length old) s) else c # remove_all old t))"
  by pat_completeness auto

termination
  by (relation "measure (\<lambda>(old, s). length s)") auto

declare remove_all.simps [simp del]

definition is_line_break :: "char \<Rightarrow> bool" where
  "is_line_break c = (cp c \<in> {10, 11, 12, 13, 28, 29, 30, 133})"

function splitlines_from :: "string \<Rightarrow> string \<Rightarrow> string list" where
  "splitlines_from acc [] = (if acc = [] then [] else [acc])"
| "splitlines_from acc (c # s) =
     (if is_line_break c
      then acc # splitlines_from [] (if c = CHR 0x0D \<and> s \<noteq> [] \<and> hd s = CHR 0x0A then tl s else s)
      else splitlines_from (acc @ [c]) s)"
  by pat_completeness auto

termination
  by (relation "measure (\<lambda>(acc, s). length s)") auto

text \<open>\<open>urllib.parse.quote_plus\<close>.\<close>

definition hex_upper :: "nat \<Rightarrow> char" where
  "hex_upper n = (if n < 10 then char_of (48 + n) else char_of (55 + n))"

definition is_unreserved :: "nat \<Rightarrow> bool" where
  "is_unreserved n = (48 \<le> n \<and> n \<le> 57 \<or> 65 \<le> n \<and> n \<le> 90 \<or> 97 \<le> n \<and> n \<le> 122 \<or> n \<in> {45, 46, 95, 126})"

definition quote_byte :: "byte \<Rightarrow> string" where
  "quote_byte b = (let n = unat b in
     if n = 32 then ''+'' else if is_unreserved n then [char_of n]
     else [CHR ''%'', hex_upper (n div 16), hex_upper (n mod 16)])"

definition quote_plus :: "string \<Rightarrow> string" where
  "quote_plus s = concat (map quote_byte (utf8_encode s))"

section \<open>Gemini\<close>

text \<open>A message is a dictionary of texts, as the request service builds it.\<close>

definition gemini_prompt :: "(string \<times> string) list list \<Rightarrow> string" where
  "gemini_prompt msgs = strip (join_str [CHR 0x0A]
     (map (\<lambda>m. strip (dict_get_default m ''content'' []))
       (filter (\<lambda>m. dict_get m ''content'' \<noteq> None \<and> dict_get m ''content'' \<noteq> Some []) msgs)))"

definition no_floats :: dump_style where
  "no_floats = default_style (\<lambda>_. [])"

definition build_gemini_payload :: "(string \<times> string) list list \<Rightarrow> string" where
  "build_gemini_payload msgs =
     (let inner = JArr
        [JArr [JStr (gemini_prompt msgs), JInt 0, JNull, JNull, JNull, JNull, JInt 0],
         JArr [JStr ''en-US''],
         JArr [JStr '''', JStr '''', JStr '''', JNull, JNull, JNull, JNull, JNull, JNull, JStr ''''],
         JStr '''', JStr '''', JNull, JArr [JInt 0], JInt 1, JNull, JNull, JInt 1, JInt 0,
         JNull, JNull, JNull, JNull, JNull, JArr [JArr [JInt 0]], JInt 0];
          outer = JArr [JNull, JStr (dumps no_floats inner)]
      in quote_plus ''f.req'' @ ''='' @ quote_plus (dumps no_floats outer) @ ''&'')"

text \<open>The parts of \<open>_parse_gemini_response\<close>: the entries of a line, the texts of an entry (an
  exception skips the entry), and the longest text.\<close>

definition is_wrb :: "json \<Rightarrow> bool" where
  "is_wrb v = (case v of JArr (x # _) \<Rightarrow> x = JStr ''wrb.fr'' | _ \<Rightarrow> False)"

definition line_entries :: "json \<Rightarrow> json list" where
  "line_entries data = (case data of JArr xs \<Rightarrow> (if is_wrb data then [data] else filter is_wrb xs) | _ \<Rightarrow> [])"

definition json_texts :: "json list \<Rightarrow> string list" where
  "json_texts xs = map (\<lambda>v. case v of JStr s \<Rightarrow> s | _ \<Rightarrow> []) (filter (\<lambda>v. case v of JStr _ \<Rightarrow> True | _ \<Rightarrow> False) xs)"

definition chunk_texts :: "json list \<Rightarrow> string list" where
  "chunk_texts xs = concat (map (\<lambda>v. case v of JArr (_ # JArr tokens # _) \<Rightarrow> [concat (json_texts tokens)]
     | _ \<Rightarrow> []) xs)"

definition entry_texts :: "(string \<Rightarrow> json option) \<Rightarrow> json \<Rightarrow> string list" where
  "entry_texts loads e =
     (case e of
        JArr (_ # _ # JStr t # _) \<Rightarrow>
          (case loads t of
             Some (JArr (_ # _ # _ # _ # JArr cs # _)) \<Rightarrow> chunk_texts cs
           | _ \<Rightarrow> [])
      | _ \<Rightarrow> [])"

definition line_texts :: "(string \<Rightarrow> json option) \<Rightarrow> string \<Rightarrow> string list" where
  "line_texts loads l =
     (if contains ''wrb.fr'' l
      then (case loads l of None \<Rightarrow> [] | Some data \<Rightarrow> concat (map (entry_texts loads) (line_entries data)))
      else [])"

definition longer :: "string \<Rightarrow> string \<Rightarrow> string" where
  "longer best txt = (if length best < length txt then txt else best)"

definition parse_gemini_response :: "(string \<Rightarrow> json option) \<Rightarrow> string \<Rightarrow> string" where
  "parse_gemini_response loads t =
     strip (foldl longer [] (concat (map (line_texts loads)
       (splitlines_from [] (remove_all ('')]}'' @ [CHR 0x27]) t)))))"

text \<open>\<open>_call_gemini_json\<close>: the answer as the provider data of the request service.\<close>

definition provider_error :: "string \<Rightarrow> exn" where
  "provider_error m = Domain (ProviderError m)"

definition call_gemini_json :: "(string \<Rightarrow> json option) \<Rightarrow> http_exchange \<Rightarrow> exn + json" where
  "call_gemini_json loads reply =
     (case reply of
        Http_Error e \<Rightarrow> Inl e
      | Http_Answer code body \<Rightarrow>
          (if code \<noteq> 200
           then Inl (provider_error (''Gemini provider returned HTTP '' @ str_nat code))
           else (let t = parse_gemini_response loads body
                 in if t = [] then Inl (provider_error ''Gemini provider returned empty/unsupported response format'')
                    else Inr (JObj [(''message'', JObj [(''role'', JStr ''assistant''), (''content'', JStr t)]),
                                    (''usage'', JObj [])]))))"

text \<open>A stream is the list of the chunks it yields and the exception that ends it, if any.\<close>

type_synonym provider_stream = "json list \<times> exn option"

function slices :: "nat \<Rightarrow> string \<Rightarrow> string list" where
  "slices k s = (if s = [] \<or> k = 0 then [] else take k s # slices k (drop k s))"
  by pat_completeness auto

termination
  by (relation "measure (\<lambda>(k, s). length s)") auto

declare slices.simps [simp del]

definition chunk :: "string \<Rightarrow> bool \<Rightarrow> (string \<times> json) list \<Rightarrow> json" where
  "chunk token is_done extra = JObj ([(''token'', JStr token), (''done'', JBool is_done)] @ extra)"

definition message_content :: "json \<Rightarrow> string" where
  "message_content data =
     (case jobj_get data ''message'' of
        Some m \<Rightarrow> (case jobj_get m ''content'' of Some (JStr t) \<Rightarrow> t | _ \<Rightarrow> [])
      | None \<Rightarrow> [])"

definition call_gemini_stream :: "(string \<Rightarrow> json option) \<Rightarrow> http_exchange \<Rightarrow> provider_stream" where
  "call_gemini_stream loads reply =
     (case call_gemini_json loads reply of
        Inl e \<Rightarrow> ([], Some e)
      | Inr data \<Rightarrow>
          (let t = message_content data
           in if t = [] then ([chunk [] True [(''usage'', JObj [])]], None)
              else (map (\<lambda>x. chunk x False []) (slices 48 t)
                    @ [chunk [] True [(''usage'', JObj [])]], None)))"

section \<open>Ollama\<close>

definition ollama_body :: "string option \<Rightarrow> json list \<Rightarrow> bool \<Rightarrow> json" where
  "ollama_body model msgs streaming =
     JObj ([(''messages'', JArr msgs)] @
       (case model of None \<Rightarrow> [] | Some m \<Rightarrow> [(''model'', JStr m)]) @
       (if streaming then [(''stream'', JBool True)]
        else (case model of None \<Rightarrow> [] | Some _ \<Rightarrow> [(''stream'', JBool False)])))"

definition usage_of_chunk :: "(string \<times> json) list \<Rightarrow> json" where
  "usage_of_chunk d = JObj
     [(''prompt_eval_count'', dict_get_default d ''prompt_eval_count'' (JInt 0)),
      (''eval_count'', dict_get_default d ''eval_count'' (JInt 0))]"

text \<open>\<open>chat(..., stream=False)\<close>; \<open>raise_for_status\<close> accepts the statuses 200 to 299.\<close>

definition status_error :: "nat \<Rightarrow> exn" where
  "status_error code = Runtime (RuntimeError (''HTTP status '' @ str_nat code))"

definition ollama_chat_json :: "(string \<Rightarrow> json option) \<Rightarrow> http_exchange \<Rightarrow> exn + json" where
  "ollama_chat_json loads reply =
     (case reply of
        Http_Error e \<Rightarrow> Inl e
      | Http_Answer code body \<Rightarrow>
          (if code < 200 \<or> 300 \<le> code then Inl (status_error code)
           else (case loads body of
               None \<Rightarrow> Inl (Runtime ValueError)
             | Some (JObj d) \<Rightarrow> Inr (JObj [(''response'', JObj d), (''usage'', usage_of_chunk d)])
             | Some _ \<Rightarrow> Inl (Runtime AttributeError))))"

text \<open>\<open>chat(..., stream=True)\<close>: one line of the body. \<open>None\<close> means the line is skipped.\<close>

definition or_text :: "json \<Rightarrow> json" where
  "or_text v = (if truthy v then v else JStr [])"

definition ollama_line :: "(string \<Rightarrow> json option) \<Rightarrow> string \<Rightarrow> (py_exc + json) option" where
  "ollama_line loads l =
     (if strip l = [] then None
      else case loads l of
          None \<Rightarrow> None
        | Some (JObj d) \<Rightarrow>
            (case dict_get_default d ''message'' (JObj []) of
               JObj m \<Rightarrow>
                 (let token = or_text (dict_get_default m ''content'' (JStr []));
                      is_done = truthy (dict_get_default d ''done'' (JBool False));
                      usage = (if is_done then usage_of_chunk d else JNull)
                  in Some (Inr (JObj [(''token'', token), (''done'', JBool is_done), (''usage'', usage)])))
             | _ \<Rightarrow> Some (Inl AttributeError))
        | Some _ \<Rightarrow> Some (Inl AttributeError))"

fun ollama_stream :: "(string \<Rightarrow> json option) \<Rightarrow> string list \<Rightarrow> exn option \<Rightarrow> provider_stream" where
  "ollama_stream loads [] broken = ([], broken)"
| "ollama_stream loads (l # ls) broken =
     (case ollama_line loads l of
        None \<Rightarrow> ollama_stream loads ls broken
      | Some (Inl e) \<Rightarrow> ([], Some (Runtime e))
      | Some (Inr c) \<Rightarrow> (let (cs, e) = ollama_stream loads ls broken in (c # cs, e)))"

section \<open>Facts\<close>

lemma concat_slices: "0 < k \<Longrightarrow> concat (slices k s) = s"
proof (induction k s rule: slices.induct)
  case (1 k s)
  then show ?case by (simp add: slices.simps [of k s])
qed

lemma slices_length: "x \<in> set (slices k s) \<Longrightarrow> x \<noteq> [] \<and> length x \<le> k"
proof (induction k s rule: slices.induct)
  case (1 k s)
  then show ?case by (subst (asm) slices.simps) (auto split: if_splits)
qed

lemma foldl_longer:
  "foldl longer best ts \<in> insert best (set ts)
   \<and> (\<forall>t \<in> insert best (set ts). length t \<le> length (foldl longer best ts))"
proof (induction ts arbitrary: best)
  case Nil
  then show ?case by simp
next
  case (Cons t ts)
  from Cons.IH [of "longer best t"] show ?case by (auto simp: longer_def split: if_splits)
qed

text \<open>The text of a chunk.\<close>

definition chunk_token :: "json \<Rightarrow> string" where
  "chunk_token c = (case jobj_get c ''token'' of Some (JStr t) \<Rightarrow> t | _ \<Rightarrow> [])"

text \<open>The Gemini stream is a chunking of the JSON answer: when the call gives an answer, the
  tokens of the stream put together are its text, no chunk is longer than 48 characters, the last
  chunk and only the last is marked done, and the stream ends without an exception; when it
  fails, the stream yields nothing and fails with the same exception.\<close>

theorem gemini_stream_is_json_answer:
  "case (call_gemini_json loads reply, call_gemini_stream loads reply) of
     (Inl e, cs, x) \<Rightarrow> cs = [] \<and> x = Some e
   | (Inr data, cs, x) \<Rightarrow> x = None \<and> cs \<noteq> []
       \<and> concat (map chunk_token cs) = message_content data
       \<and> list_all (\<lambda>c. length (chunk_token c) \<le> 48) cs
       \<and> list_all (\<lambda>c. jobj_get c ''done'' = Some (JBool False)) (butlast cs)
       \<and> jobj_get (last cs) ''done'' = Some (JBool True)"
proof -
  have tok: "chunk_token (chunk t b e) = t" "jobj_get (chunk t b e) ''done'' = Some (JBool b)" for t b e
    by (simp_all add: chunk_token_def chunk_def jobj_get_def)
  have m: "map (chunk_token \<circ> (\<lambda>x. chunk x False [])) xs = xs" for xs
    by (induction xs) (simp_all add: tok)
  show ?thesis
    using slices_length [of _ 48] concat_slices [of 48]
    by (auto simp: call_gemini_stream_def Let_def tok m list_all_iff split: sum.split)
qed

end
