(* ===== verification/AI_Request.thy ===== *)
theory AI_Request
  imports Pre_Flight Providers
begin

text \<open>
  The two ways to submit a request (\<open>submit_stream\<close> and \<open>submit_json\<close> of
  src/fastapi\_backend/app/services/ai\_request\_service.py) and the endpoint that calls them
  (api/ai.py). The state is the database and the store of the counters (\<open>world\<close>). A stream
  is the list of the JSON frames it sends, with the state at its end; the provider's chunks are a
  finite list that ends normally or with an exception (theory Providers).
\<close>

record 's world =
  w_db :: database
  w_store :: 's

section \<open>Shared steps\<close>

text \<open>\<open>_update_status_in_new_session\<close>.\<close>

definition set_status :: "draws \<Rightarrow> string \<Rightarrow> bool \<Rightarrow> string option \<Rightarrow> 's world \<Rightarrow> 's world" where
  "set_status dr status finished detail w =
     w\<lparr>w_db := update_ai_request_status (dr_request_id dr) status
         (if finished then Some (dr_completed_at dr) else None) detail (w_db w)\<rparr>"

text \<open>The usage row and the counter, from a usage dictionary. A count that is no integer is refused
  by the addition or by the column; what was committed before an exception stays.\<close>

definition charge :: "'s gateway \<Rightarrow> draws \<Rightarrow> pre_flight_result \<Rightarrow> json \<Rightarrow> 's world \<Rightarrow> 's world \<times> (exn + unit)" where
  "charge gw dr pf usage w =
     (case usage of
        JObj u \<Rightarrow>
          (case (int_value (dict_get_default u ''prompt_eval_count'' (JInt 0)),
                 int_value (dict_get_default u ''eval_count'' (JInt 0))) of
             (Some prompt_tokens, Some eval_tokens) \<Rightarrow>
               (case create_usage_log (pf_request_id pf) (pf_tenant_id pf) (pf_resolved_service_id pf)
                   (sv_model_name (pf_service pf)) prompt_tokens eval_tokens (w_db w) of
                  None \<Rightarrow> (w, Inl integrity_error)
                | Some db' \<Rightarrow>
                    (case increment_usage (gw_redis gw) (dr_charge_day dr) (pf_tenant_id pf)
                        (prompt_tokens + eval_tokens) (w_store w) of
                       Inl e \<Rightarrow> (w\<lparr>w_db := db'\<rparr>, Inl (Runtime e))
                     | Inr s' \<Rightarrow> (w\<lparr>w_db := db', w_store := s'\<rparr>, Inr ())))
           | _ \<Rightarrow> (w, Inl (Runtime TypeError)))
      | _ \<Rightarrow> (w, Inl (Runtime AttributeError)))"

definition quota_json :: "quota_status \<Rightarrow> json" where
  "quota_json st = JObj
     [(''tenant_id'', qs_tenant_id st), (''max_tokens'', qs_max_tokens st),
      (''used_tokens'', JInt (qs_used_tokens st)), (''remaining_tokens'', qs_remaining_tokens st),
      (''percent_used'', qs_percent_used st), (''reset_period'', qs_reset_period st)]"

definition latest_quota :: "'s gateway \<Rightarrow> draws \<Rightarrow> pre_flight_result \<Rightarrow> 's world \<Rightarrow> exn + json" where
  "latest_quota gw dr pf w =
     (case get_quota_status (gw_quota gw) (gw_redis gw) (dr_report_day dr) (pf_tenant_id pf) (w_store w) of
        Inl e \<Rightarrow> Inl (Runtime e) | Inr st \<Rightarrow> Inr (quota_json st))"

definition redaction_event :: "pre_flight_result \<Rightarrow> redaction_result \<Rightarrow> database \<Rightarrow> database" where
  "redaction_event pf r =
     create_security_event ''pii_redaction'' (pf_tenant_id pf) (Some (pf_request_id pf)) None None None
       ''redacted'' (Some (redacted_types r)) (redaction_count r) JNull"

text \<open>Redaction of a whole text, with its event when something was replaced.\<close>

definition redact_logged :: "pre_flight_result \<Rightarrow> string \<Rightarrow> 's world \<Rightarrow> 's world \<times> (exn + string)" where
  "redact_logged pf txt w =
     (case redact txt of
        Inl e \<Rightarrow> (w, Inl (Runtime e))
      | Inr r \<Rightarrow> (if 0 < redaction_count r then w\<lparr>w_db := redaction_event pf r (w_db w)\<rparr> else w,
                Inr (redacted_text r)))"

section \<open>Streaming\<close>

definition token_frame :: "string \<Rightarrow> json" where
  "token_frame t = JObj [(''token'', JStr t), (''done'', JBool False)]"

definition opt_float :: "rat option \<Rightarrow> json" where
  "opt_float x = (case x of None \<Rightarrow> JNull | Some r \<Rightarrow> JFloat r)"

definition final_frame :: "pre_flight_result \<Rightarrow> json \<Rightarrow> json \<Rightarrow> json" where
  "final_frame pf usage quota = JObj
     [(''token'', JStr []), (''done'', JBool True), (''request_id'', JStr (pf_request_id pf)),
      (''resolved_service'', JStr (pf_resolved_service_id pf)),
      (''intent'', JStr (id_name (pf_intent pf))), (''provided_intent'', JStr (pf_provided_intent pf)),
      (''intent_mode'', JStr (id_mode (pf_intent pf))),
      (''intent_confidence'', opt_float (id_confidence (pf_intent pf))),
      (''intent_source'', opt_str (id_source (pf_intent pf))),
      (''intent_taxonomy_version'', opt_str (id_taxonomy_version (pf_intent pf))),
      (''resolved_sensitivity'', JStr (sensitivity_value (pf_final_sensitivity pf))),
      (''detected_pii_types'', JArr (map JStr (pf_detected_pii_types pf))),
      (''pii_count'', JInt (int (pf_pii_count pf))), (''usage'', usage), (''quota'', quota)]"

definition error_frame :: "string \<Rightarrow> json" where
  "error_frame m = JObj [(''error'', JStr (''Stream interrupted: '' @ m)), (''done'', JBool True)]"

text \<open>The text of a frame on the wire.\<close>

definition sse :: "(rat \<Rightarrow> string) \<Rightarrow> json \<Rightarrow> string" where
  "sse fr frame = ''data: '' @ dumps (default_style fr) frame @ [CHR 0x0A, CHR 0x0A]"

text \<open>The branch \<open>if done\<close>: the frames it sends, the state, and the exception that ends it, if
  any.\<close>

definition finish_stream :: "'s gateway \<Rightarrow> draws \<Rightarrow> pre_flight_result \<Rightarrow> (string \<times> json) list \<Rightarrow> json
    \<Rightarrow> string \<Rightarrow> 's world \<Rightarrow> json list \<times> 's world \<times> exn option" where
  "finish_stream gw dr pf c token carry w =
     (let usage = dict_get_default c ''usage'' JNull in
      case (if truthy usage then charge gw dr pf usage w else (w, Inr ())) of
        (w1, Inl e) \<Rightarrow> ([], w1, Some e)
      | (w1, Inr _) \<Rightarrow>
          (case latest_quota gw dr pf w1 of
             Inl e \<Rightarrow> ([], w1, Some e)
           | Inr quota \<Rightarrow>
               (case token of
                  JStr t \<Rightarrow>
                    (if carry @ t = []
                     then ([final_frame pf usage quota], set_status dr ''completed'' True None w1, None)
                     else case redact_logged pf (carry @ t) w1 of
                         (w2, Inl e) \<Rightarrow> ([], w2, Some e)
                       | (w2, Inr txt) \<Rightarrow> ([token_frame txt, final_frame pf usage quota],
                           set_status dr ''completed'' True None w2, None))
                | _ \<Rightarrow> ([], w1, Some (Runtime TypeError)))))"

fun stream_loop :: "'s gateway \<Rightarrow> draws \<Rightarrow> pre_flight_result \<Rightarrow> json list \<Rightarrow> exn option \<Rightarrow> bool \<Rightarrow> string
    \<Rightarrow> 's world \<Rightarrow> json list \<times> 's world \<times> exn option" where
  "stream_loop gw dr pf [] broken first_token carry w = ([], w, broken)"
| "stream_loop gw dr pf (v # cs) broken first_token carry w =
     (case v of
        JObj c \<Rightarrow>
          (let token = or_text (dict_get_default c ''token'' (JStr []));
               is_done = truthy (dict_get_default c ''done'' (JBool False))
           in if is_done then finish_stream gw dr pf c token carry w
              else if truthy token then
                (let w1 = (if first_token then set_status dr ''streaming'' False None w else w)
                 in case token of
                      JStr t \<Rightarrow>
                        (case redact_stream_chunk t carry of
                           Inl e \<Rightarrow> ([], w1, Some (Runtime e))
                         | Inr (safe_text, carry') \<Rightarrow>
                             (case stream_loop gw dr pf cs broken False carry' w1 of
                                (fs, w', e) \<Rightarrow> ((if safe_text \<noteq> [] then [token_frame safe_text] else []) @ fs, w', e)))
                    | _ \<Rightarrow> ([], w1, Some (Runtime TypeError)))
              else stream_loop gw dr pf cs broken first_token carry w)
      | _ \<Rightarrow> ([], w, Some (Runtime AttributeError)))"

definition event_stream :: "'s gateway \<Rightarrow> draws \<Rightarrow> pre_flight_result \<Rightarrow> provider_stream \<Rightarrow> 's world
    \<Rightarrow> json list \<times> 's world" where
  "event_stream gw dr pf stream w =
     (case stream_loop gw dr pf (fst stream) (snd stream) True [] w of
        (fs, w', None) \<Rightarrow> (token_frame [] # fs, w')
      | (fs, w', Some e) \<Rightarrow>
          (token_frame [] # fs @ [error_frame (gw_exc_text gw e)],
           set_status dr ''failed'' True (Some (gw_exc_text gw e)) w'))"

text \<open>What the provider sends: one exchange for the JSON interfaces, lines for a stream.\<close>

record provider_side =
  pv_loads :: "string \<Rightarrow> json option"
  pv_exchange :: http_exchange
  pv_lines :: "string list"
  pv_broken :: "exn option"

definition is_gemini :: "pre_flight_result \<Rightarrow> bool" where
  "is_gemini pf = (sv_provider_type (pf_service pf) = Some ''gemini'')"

definition provider_chunks :: "provider_side \<Rightarrow> pre_flight_result \<Rightarrow> provider_stream" where
  "provider_chunks pv pf =
     (if is_gemini pf then call_gemini_stream (pv_loads pv) (pv_exchange pv)
      else ollama_stream (pv_loads pv) (pv_lines pv) (pv_broken pv))"

definition pre_flight_in :: "'s gateway \<Rightarrow> draws \<Rightarrow> user_claims \<Rightarrow> ai_request_schema \<Rightarrow> 's world
    \<Rightarrow> 's world \<times> (exn + pre_flight_result)" where
  "pre_flight_in gw dr user body w =
     (case run_pre_flight gw dr user body (w_store w) (w_db w) of (db', r) \<Rightarrow> (w\<lparr>w_db := db'\<rparr>, r))"

text \<open>The id of the request and the frames the consumer of the stream receives.\<close>

definition submit_stream :: "'s gateway \<Rightarrow> draws \<Rightarrow> provider_side \<Rightarrow> user_claims \<Rightarrow> ai_request_schema
    \<Rightarrow> 's world \<Rightarrow> 's world \<times> (exn + string \<times> json list)" where
  "submit_stream gw dr pv user body w =
     (case pre_flight_in gw dr user body w of
        (w1, Inl e) \<Rightarrow> (w1, Inl e)
      | (w1, Inr pf) \<Rightarrow>
          (case event_stream gw dr pf (provider_chunks pv pf) w1 of
             (fs, w2) \<Rightarrow> (w2, Inr (pf_request_id pf, fs))))"

section \<open>JSON\<close>

definition provider_answer :: "provider_side \<Rightarrow> pre_flight_result \<Rightarrow> exn + json" where
  "provider_answer pv pf =
     (if is_gemini pf then call_gemini_json (pv_loads pv) (pv_exchange pv)
      else ollama_chat_json (pv_loads pv) (pv_exchange pv))"

text \<open>\<open>provider_data.get("message", {}).get("content", "")\<close> for what the providers return.\<close>

definition redact_answer :: "pre_flight_result \<Rightarrow> json \<Rightarrow> 's world \<Rightarrow> 's world \<times> (exn + json)" where
  "redact_answer pf provider_data w =
     (let response_text = message_content provider_data in
      if response_text = [] then (w, Inr provider_data)
      else case redact_logged pf response_text w of
          (w', Inl e) \<Rightarrow> (w', Inl e)
        | (w', Inr txt) \<Rightarrow> (w', Inr (case provider_data of
              JObj d \<Rightarrow> (case dict_get d ''message'' of
                 Some (JObj m) \<Rightarrow> JObj (dict_set d ''message'' (JObj (dict_set m ''content'' (JStr txt))))
               | _ \<Rightarrow> provider_data)
            | _ \<Rightarrow> provider_data)))"

text \<open>After the provider has answered. The dictionary of the response headers reads the name
  \<open>elapsed_ms\<close>, which is bound nowhere.\<close>

definition answer_json :: "'s gateway \<Rightarrow> draws \<Rightarrow> pre_flight_result \<Rightarrow> json \<Rightarrow> 's world \<Rightarrow> 's world \<times> (exn + json)" where
  "answer_json gw dr pf provider_data w =
     (case charge gw dr pf (case jobj_get provider_data ''usage'' of None \<Rightarrow> JObj [] | Some u \<Rightarrow> u) w of
        (w1, Inl e) \<Rightarrow> (w1, Inl e)
      | (w1, Inr _) \<Rightarrow>
          (case latest_quota gw dr pf w1 of
             Inl e \<Rightarrow> (w1, Inl e)
           | Inr quota \<Rightarrow>
               (case redact_answer pf provider_data (set_status dr ''completed'' True None w1) of
                  (w2, Inl e) \<Rightarrow> (w2, Inl e)
                | (w2, Inr _) \<Rightarrow> (w2, Inl (Runtime (NameError ''elapsed_ms''))))))"

definition submit_json :: "'s gateway \<Rightarrow> draws \<Rightarrow> provider_side \<Rightarrow> user_claims \<Rightarrow> ai_request_schema
    \<Rightarrow> 's world \<Rightarrow> 's world \<times> (exn + json)" where
  "submit_json gw dr pv user body w =
     (case pre_flight_in gw dr user body w of
        (w1, Inl e) \<Rightarrow> (w1, Inl e)
      | (w1, Inr pf) \<Rightarrow>
          (case provider_answer pv pf of
             Inl e \<Rightarrow> (set_status dr ''failed'' True (Some (gw_exc_text gw e)) w1,
                       Inl (Domain (ProviderError (''Failed to connect to AI provider: '' @ gw_exc_text gw e))))
           | Inr provider_data \<Rightarrow> answer_json gw dr pf provider_data w1))"

section \<open>The endpoint\<close>

definition opt_strs :: "string list option \<Rightarrow> json" where
  "opt_strs tys = (case tys of None \<Rightarrow> JNull | Some ts \<Rightarrow> JArr (map JStr ts))"

definition router_error :: "(rat \<Rightarrow> string) \<Rightarrow> exn \<Rightarrow> exn" where
  "router_error fr e =
     (case e of
        Domain d \<Rightarrow>
          (let msg = JStr (exc_str fr d) in
           case d of
             IntentNotFoundError _ _ \<Rightarrow> HTTPException 422 msg
           | ServiceNotFoundError _ \<Rightarrow> HTTPException 404 msg
           | TenantIdMissingError \<Rightarrow> HTTPException 401 msg
           | TenantNotAuthorizedError _ _ \<Rightarrow> HTTPException 403 msg
           | PolicyViolationError pid desc _ n tys \<Rightarrow> HTTPException 403 (JObj
               [(''message'', msg), (''policy_id'', JStr pid), (''description'', JStr desc),
                (''pii_count'', opt_nat n), (''detected_pii_types'', opt_strs tys)])
           | SecurityViolationError _ _ _ n _ \<Rightarrow> HTTPException 403 (JObj
               [(''message'', msg), (''pii_count'', opt_nat n)])
           | QuotaExceededError _ \<Rightarrow> HTTPException 429 msg
           | ProviderError _ \<Rightarrow> HTTPException 502 msg
           | _ \<Rightarrow> e)
      | _ \<Rightarrow> e)"

datatype api_reply = Event_Stream string "json list" | Json_Reply json | Failed exn

definition submit_ai_request :: "'s gateway \<Rightarrow> draws \<Rightarrow> provider_side \<Rightarrow> string \<Rightarrow> user_claims
    \<Rightarrow> ai_request_schema \<Rightarrow> 's world \<Rightarrow> 's world \<times> api_reply" where
  "submit_ai_request gw dr pv accept user body w =
     (if contains ''text/event-stream'' accept then
        (case submit_stream gw dr pv user body w of
           (w', Inl e) \<Rightarrow> (w', Failed (router_error (gw_float_repr gw) e))
         | (w', Inr (rid, fs)) \<Rightarrow> (w', Event_Stream rid fs))
      else (case submit_json gw dr pv user body w of
           (w', Inl e) \<Rightarrow> (w', Failed (router_error (gw_float_repr gw) e))
         | (w', Inr data) \<Rightarrow> (w', Json_Reply data)))"

text \<open>The status a client sees for an exception, by the handlers of the application.\<close>

definition client_status :: "exn \<Rightarrow> nat" where
  "client_status e = (case e of HTTPException s _ \<Rightarrow> s | Domain d \<Rightarrow> fst (exception_map d) | Runtime _ \<Rightarrow> 500)"

section \<open>Facts about the steps\<close>

lemma touches_set_status [request_steps]: "st \<in> set request_statuses \<Longrightarrow> request_touches (dr_request_id dr) (w_db w) (w_db (set_status dr st f d w))"
  by (simp add: set_status_def touches_status)

lemma touches_charge:
  "charge gw dr pf usage w = (w', r) \<Longrightarrow> request_touches rid (w_db w) (w_db w')"
  by (auto simp: charge_def dest: touches_usage split: json.splits option.splits sum.splits)

lemma touches_redact:
  "redact_logged pf txt w = (w', r) \<Longrightarrow> request_touches rid (w_db w) (w_db w')"
  by (auto simp: redact_logged_def redaction_event_def touches_event split: sum.splits if_splits)

text \<open>Requests a step leaves alone.\<close>

lemma charge_requests: "charge gw dr pf usage w = (w', r) \<Longrightarrow> t_ai_requests (w_db w') = t_ai_requests (w_db w)"
  by (auto simp: charge_def create_usage_log_def Let_def split: json.splits option.splits sum.splits if_splits)

lemma redact_requests: "redact_logged pf txt w = (w', r) \<Longrightarrow> t_ai_requests (w_db w') = t_ai_requests (w_db w)"
  by (auto simp: redact_logged_def redaction_event_def create_security_event_def split: sum.splits if_splits)

lemma redact_logged_total: "\<exists>w' txt'. redact_logged pf txt w = (w', Inr txt')"
  using redact_total [of "txt"] by (auto simp: redact_logged_def)

lemma set_status_record:
  "has_record (dr_request_id dr) t st (w_db w) \<Longrightarrow> has_record (dr_request_id dr) t st' (w_db (set_status dr st' f d w))"
  by (auto simp: set_status_def update_ai_request_status_def intro: has_record_update)

lemma has_record_cong:
  "t_ai_requests db' = t_ai_requests db \<Longrightarrow> has_record rid t st db' = has_record rid t st db"
  by (simp add: has_record_def)

definition frame_done :: "json \<Rightarrow> bool" where
  "frame_done f = (jobj_get f ''done'' = Some (JBool True))"

lemma frame_done_simps [simp]:
  "\<not> frame_done (token_frame t)" "frame_done (final_frame pf u q)" "frame_done (error_frame m)"
  by (simp_all add: frame_done_def token_frame_def final_frame_def error_frame_def jobj_get_def)

text \<open>A chunk as the providers yield them, and whether it says that the answer is complete.\<close>

definition chunk_done :: "json \<Rightarrow> bool" where
  "chunk_done v = (case jobj_get v ''done'' of Some d \<Rightarrow> truthy d | None \<Rightarrow> False)"

text \<open>The outcomes of the branch \<open>if done\<close>.\<close>

lemma finish_stream_cases:
  assumes "finish_stream gw dr pf c token carry w = (fs, w', e)"
  obtains (raised) x where "e = Some x" "fs = []" "t_ai_requests (w_db w') = t_ai_requests (w_db w)"
  | (finished) body u q w1 where "e = None" "fs = body @ [final_frame pf u q]" "\<forall>f \<in> set body. \<exists>t. f = token_frame t"
      "w' = set_status dr ''completed'' True None w1" "t_ai_requests (w_db w1) = t_ai_requests (w_db w)"
proof -
  define usage where "usage = dict_get_default c ''usage'' JNull"
  obtain w1 r1 where ch: "(if truthy usage then charge gw dr pf usage w else (w, Inr ())) = (w1, r1)"
    by (cases "if truthy usage then charge gw dr pf usage w else (w, Inr ())")
  have rq: "t_ai_requests (w_db w1) = t_ai_requests (w_db w)"
    using ch charge_requests by (auto split: if_splits)
  show ?thesis
  proof (cases "\<exists>x. e = Some x")
    case True
    with assms ch rq redact_logged_total [of pf _ w1] raised show ?thesis
      by (auto simp: finish_stream_def Let_def usage_def [symmetric] dest: redact_requests
          split: sum.splits json.splits if_splits prod.splits)
  next
    case False
    with assms ch obtain quota t where q: "r1 = Inr ()" "latest_quota gw dr pf w1 = Inr quota" "token = JStr t"
      by (auto simp: finish_stream_def Let_def usage_def [symmetric] split: sum.splits json.splits)
    show ?thesis
    proof (cases "carry @ t = []")
      case True
      with q assms ch rq finished [of "[]"] show ?thesis
        by (auto simp: finish_stream_def Let_def usage_def [symmetric])
    next
      case ne: False
      obtain w2 out where rl: "redact_logged pf (carry @ t) w1 = (w2, Inr out)" using redact_logged_total by blast
      from redact_requests [OF rl] rq have "t_ai_requests (w_db w2) = t_ai_requests (w_db w)" by simp
      with q assms ch rl ne finished [of "[token_frame out]"] show ?thesis
        by (auto simp: finish_stream_def Let_def usage_def [symmetric] simp del: append_is_Nil_conv)
    qed
  qed
qed

text \<open>The outcomes of the loop: it stops with an exception, or with the final frame after a chunk
  that is done, or silently when the provider's stream ends without one. The status of a record
  follows.\<close>

lemma stream_loop_cases:
  assumes "stream_loop gw dr pf cs broken first_token carry w = (fs, w', e)"
    and "has_record (dr_request_id dr) t st (w_db w)"
  shows "(\<exists>x. e = Some x) \<and> (\<forall>f \<in> set fs. \<exists>u. f = token_frame u)
        \<and> (\<exists>st'. has_record (dr_request_id dr) t st' (w_db w'))
    \<or> e = None \<and> (\<exists>body u q. fs = body @ [final_frame pf u q] \<and> (\<forall>f \<in> set body. \<exists>u. f = token_frame u))
        \<and> has_record (dr_request_id dr) t ''completed'' (w_db w')
    \<or> e = None \<and> (\<forall>f \<in> set fs. \<exists>u. f = token_frame u) \<and> broken = None \<and> \<not> list_ex chunk_done cs
        \<and> (has_record (dr_request_id dr) t st (w_db w') \<or> has_record (dr_request_id dr) t ''streaming'' (w_db w'))"
  using assms
proof (induction cs arbitrary: first_token carry w fs st)
  case Nil
  then show ?case by (cases broken) auto
next
  case (Cons v cs)
  show ?case
  proof (cases "\<exists>c. v = JObj c")
    case False
    with Cons.prems show ?thesis by (auto split: json.splits)
  next
    case True
    then obtain c where v: "v = JObj c" by blast
    define token where "token = or_text (dict_get_default c ''token'' (JStr []))"
    define is_done where "is_done = truthy (dict_get_default c ''done'' (JBool False))"
    have cd: "chunk_done v = is_done"
      by (simp add: chunk_done_def v jobj_get_def is_done_def dict_get_default_def split: option.split)
    show ?thesis
    proof (cases is_done)
      case True
      with Cons.prems(1) have "finish_stream gw dr pf c token carry w = (fs, w', e)"
        by (simp add: v token_def is_done_def Let_def)
      then show ?thesis
      proof (cases rule: finish_stream_cases)
        case (raised x)
        with Cons.prems(2) show ?thesis by (auto simp: has_record_def)
      next
        case (finished body u q w1)
        from has_record_cong [OF finished(5)] Cons.prems(2) have "has_record (dr_request_id dr) t st (w_db w1)"
          by simp
        from set_status_record [OF this] finished(4)
        have "has_record (dr_request_id dr) t ''completed'' (w_db w')" by simp
        with finished show ?thesis by blast
      qed
    next
      case nd: False
      show ?thesis
      proof (cases "truthy token")
        case False
        with nd Cons.prems(1) have "stream_loop gw dr pf cs broken first_token carry w = (fs, w', e)"
          by (simp add: v token_def is_done_def Let_def)
        from Cons.IH [OF this Cons.prems(2)] cd nd show ?thesis by simp
      next
        case tr: True
        define w1 where "w1 = (if first_token then set_status dr ''streaming'' False None w else w)"
        have rec: "has_record (dr_request_id dr) t (if first_token then ''streaming'' else st) (w_db w1)"
          using Cons.prems(2) by (simp add: w1_def set_status_record)
        show ?thesis
        proof (cases "\<exists>s. token = JStr s")
          case False
          with nd tr Cons.prems(1) have "fs = []" "w' = w1" "\<exists>x. e = Some x"
            by (auto simp: v token_def [symmetric] is_done_def [symmetric] w1_def Let_def split: json.splits)
          with rec show ?thesis by auto
        next
          case True
          then obtain s where s: "token = JStr s" by blast
          obtain safe carry' where g: "redact_stream_chunk s carry = Inr (safe, carry')"
            using stream_chunk_spec [of carry s] by blast
          obtain fs' where lp: "stream_loop gw dr pf cs broken False carry' w1 = (fs', w', e)"
            and fs: "fs = (if safe \<noteq> [] then [token_frame safe] else []) @ fs'"
            using nd tr Cons.prems(1)
            by (auto simp: v token_def [symmetric] is_done_def [symmetric] s g w1_def Let_def split: prod.splits)
          have pre: "\<forall>f \<in> set (if safe \<noteq> [] then [token_frame safe] else []). \<exists>u. f = token_frame u" by auto
          from Cons.IH [OF lp rec] show ?thesis
          proof (elim disjE conjE exE)
            fix body u q assume "e = None" "fs' = body @ [final_frame pf u q]" "\<forall>f \<in> set body. \<exists>u. f = token_frame u"
              "has_record (dr_request_id dr) t ''completed'' (w_db w')"
            moreover from this have "fs = ((if safe \<noteq> [] then [token_frame safe] else []) @ body) @ [final_frame pf u q]"
              by (simp add: fs)
            moreover from calculation(3) pre
            have "\<forall>f \<in> set ((if safe \<noteq> [] then [token_frame safe] else []) @ body). \<exists>u. f = token_frame u"
              by (simp only: set_append ball_Un)
            ultimately show ?thesis by blast
          qed (use pre cd nd in \<open>auto simp: fs split: if_splits\<close>)
        qed
      qed
    qed
  qed
qed

section \<open>Streams\<close>


text \<open>A provider that stops without a chunk marked done leaves the client without a terminal frame,
  and the text held back is lost.\<close>

lemma cut_stream_has_no_terminal_frame:
  "event_stream gw dr pf ([JObj [(''token'', JStr ''abc''), (''done'', JBool False)]], None) w
     = ([token_frame []], set_status dr ''streaming'' False None w)"
proof -
  have "redact_stream_chunk ''abc'' [] = Inr ([], ''abc'')"
    using redact_lacks [of "''abc''"]
    by (simp add: redact_stream_chunk_def carry_size_def Let_def lacks_def in_class_def is_decimal_def
        in_range_def cp_def drop_last_def take_last_def)
  then show ?thesis by (simp add: event_stream_def or_text_def dict_get_default_def)
qed

section \<open>The text of a stream\<close>

text \<open>The text the provider sends, up to and with the first chunk that is done.\<close>

fun answer_text :: "json list \<Rightarrow> string" where
  "answer_text [] = []"
| "answer_text (v # cs) = chunk_token v @ (if chunk_done v then [] else answer_text cs)"

lemma chunk_token_frame [simp]: "chunk_token (token_frame u) = u" "chunk_token (final_frame pf v q) = []"
  by (simp_all add: chunk_token_def token_frame_def final_frame_def jobj_get_def)

lemma token_of_chunk:
  "or_text (dict_get_default c ''token'' (JStr [])) = JStr s \<Longrightarrow> chunk_token (JObj c) = s"
  by (auto simp: or_text_def dict_get_default_def chunk_token_def jobj_get_def split: if_splits option.splits json.splits)

lemma loop_text:
  assumes "stream_loop gw dr pf cs broken first_token carry w = (fs, w', None)"
    and "list_ex chunk_done cs" and "lacks False pii_chars (carry @ answer_text cs)"
  shows "concat (map chunk_token fs) = carry @ answer_text cs"
  using assms
proof (induction cs arbitrary: first_token carry w fs)
  case Nil
  then show ?case by simp
next
  case (Cons v cs)
  then obtain c where v: "v = JObj c" by (auto split: json.splits)
  define token where "token = or_text (dict_get_default c ''token'' (JStr []))"
  define is_done where "is_done = truthy (dict_get_default c ''done'' (JBool False))"
  have cd: "chunk_done v = is_done"
    by (simp add: chunk_done_def v jobj_get_def is_done_def dict_get_default_def split: option.split)
  show ?case
  proof (cases is_done)
    case True
    with Cons.prems(1) have f: "finish_stream gw dr pf c token carry w = (fs, w', None)"
      by (simp add: v token_def is_done_def Let_def)
    then obtain s where s: "token = JStr s"
      by (auto simp: finish_stream_def Let_def split: prod.splits sum.splits json.splits)
    have tx: "answer_text (v # cs) = s" using True cd token_of_chunk s by (simp add: v token_def)
    from redact_lacks [OF Cons.prems(3) [unfolded tx]]
    have "redact (carry @ s) = Inr \<lparr>redacted_text = carry @ s, redaction_count = 0, redacted_types = []\<rparr>" by simp
    then have "redact_logged pf (carry @ s) x = (x, Inr (carry @ s))" for x :: "'a world"
      by (simp add: redact_logged_def)
    with f s tx show ?thesis
      by (auto simp: finish_stream_def Let_def split: prod.splits sum.splits if_splits)
  next
    case nd: False
    show ?thesis
    proof (cases "truthy token")
      case False
      then have z: "chunk_token v = []"
        by (auto simp: v token_def or_text_def chunk_token_def jobj_get_def dict_get_default_def
            split: option.splits json.splits if_splits)
      from False nd Cons.prems(1) have "stream_loop gw dr pf cs broken first_token carry w = (fs, w', None)"
        by (simp add: v token_def is_done_def Let_def)
      from Cons.IH [OF this] Cons.prems(2,3) cd nd z show ?thesis by simp
    next
      case tr: True
      from nd tr Cons.prems(1) obtain s where s: "token = JStr s"
        by (auto simp: v token_def [symmetric] is_done_def [symmetric] Let_def split: json.splits)
      have tx: "answer_text (v # cs) = s @ answer_text cs" using nd cd token_of_chunk s by (simp add: v token_def)
      have "lacks False pii_chars (carry @ s)" using Cons.prems(3) [unfolded tx] by simp
      from redact_lacks [OF this] stream_chunk_spec [of carry s] obtain safe carry' where
        g: "redact_stream_chunk s carry = Inr (safe, carry')" and sc: "safe @ carry' = carry @ s" by auto
      obtain fs' w1 where lp: "stream_loop gw dr pf cs broken False carry' w1 = (fs', w', None)"
        and fs: "fs = (if safe \<noteq> [] then [token_frame safe] else []) @ fs'"
        using nd tr Cons.prems(1)
        by (auto simp: v token_def [symmetric] is_done_def [symmetric] s g Let_def split: prod.splits)
      have all: "safe @ carry' @ answer_text cs = carry @ answer_text (v # cs)"
        using tx sc by (metis append.assoc)
      with Cons.prems(3) have "lacks False pii_chars (carry' @ answer_text cs)" by (metis lacks_append)
      with Cons.IH [OF lp] Cons.prems(2) cd nd have "concat (map chunk_token fs') = carry' @ answer_text cs" by simp
      then have "concat (map chunk_token fs) = safe @ carry' @ answer_text cs" by (simp add: fs)
      with all show ?thesis by simp
    qed
  qed
qed

lemma event_stream_cases:
  assumes "event_stream gw dr pf stream w = (frames, w')"
  obtains (clean) fs where "stream_loop gw dr pf (fst stream) (snd stream) True [] w = (fs, w', None)"
      "frames = token_frame [] # fs"
    | (failed) m where "last frames = error_frame m"
proof -
  obtain fs w1 e where l: "stream_loop gw dr pf (fst stream) (snd stream) True [] w = (fs, w1, e)"
    by (metis prod_cases3)
  show ?thesis
  proof (cases e)
    case None
    with assms l clean show ?thesis by (simp add: event_stream_def)
  next
    case (Some x)
    with assms l have "last frames = error_frame (gw_exc_text gw x)" by (auto simp: event_stream_def)
    then show ?thesis by (rule failed)
  qed
qed


section \<open>Charging\<close>

text \<open>The usage row of a request.\<close>

definition usage_row :: "pre_flight_result \<Rightarrow> int \<Rightarrow> int \<Rightarrow> usage_token_log \<Rightarrow> bool" where
  "usage_row pf i j u = (ut_request_id u = pf_request_id pf \<and> ut_tenant_id u = pf_tenant_id pf
     \<and> ut_service_id u = pf_resolved_service_id pf \<and> ut_input_tokens u = i \<and> ut_output_tokens u = j
     \<and> ut_total_tokens u = i + j)"

lemma charge_Inr:
  assumes "charge gw dr pf (JObj u) w = (w', Inr x)"
  shows "\<exists>i j. int_value (dict_get_default u ''prompt_eval_count'' (JInt 0)) = Some i
    \<and> int_value (dict_get_default u ''eval_count'' (JInt 0)) = Some j
    \<and> (\<exists>row. t_usage (w_db w') = t_usage (w_db w) @ [row] \<and> usage_row pf i j row)
    \<and> increment_usage (gw_redis gw) (dr_charge_day dr) (pf_tenant_id pf) (i + j) (w_store w) = Inr (w_store w')"
  using assms by (auto simp: charge_def create_usage_log_def Let_def usage_row_def
      split: option.splits sum.splits if_splits)

lemma redact_store:
  "redact_logged pf out w = (w', r) \<Longrightarrow> w_store w' = w_store w \<and> t_usage (w_db w') = t_usage (w_db w)"
  by (auto simp: redact_logged_def redaction_event_def create_security_event_def split: sum.splits if_splits)

lemma set_status_store [simp]:
  "w_store (set_status dr st f d w) = w_store w" "t_usage (w_db (set_status dr st f d w)) = t_usage (w_db w)"
  by (simp_all add: set_status_def update_ai_request_status_def update_requests_def)

text \<open>The chunk that ends a completed stream.\<close>

fun done_chunk :: "json list \<Rightarrow> (string \<times> json) list option" where
  "done_chunk [] = None"
| "done_chunk (v # cs) = (case v of JObj c \<Rightarrow> (if chunk_done v then Some c else done_chunk cs) | _ \<Rightarrow> None)"

lemma loop_charges:
  assumes "stream_loop gw dr pf cs broken first_token carry w = (fs, w', None)"
    and "done_chunk cs = Some c" and "dict_get_default c ''usage'' JNull = JObj u" and "u \<noteq> []"
  shows "\<exists>w0 w1. charge gw dr pf (JObj u) w0 = (w1, Inr ()) \<and> w_store w0 = w_store w
    \<and> t_usage (w_db w0) = t_usage (w_db w) \<and> w_store w' = w_store w1 \<and> t_usage (w_db w') = t_usage (w_db w1)
    \<and> (\<exists>st body. get_quota_status (gw_quota gw) (gw_redis gw) (dr_report_day dr) (pf_tenant_id pf) (w_store w') = Inr st
        \<and> fs = body @ [final_frame pf (JObj u) (quota_json st)])"
  using assms(1,2)
proof (induction cs arbitrary: first_token carry w fs)
  case Nil
  then show ?case by simp
next
  case (Cons v cs)
  then obtain c' where v: "v = JObj c'" by (auto split: json.splits)
  define token where "token = or_text (dict_get_default c' ''token'' (JStr []))"
  define is_done where "is_done = truthy (dict_get_default c' ''done'' (JBool False))"
  have cd: "chunk_done v = is_done"
    by (simp add: chunk_done_def v jobj_get_def is_done_def dict_get_default_def split: option.split)
  show ?case
  proof (cases is_done)
    case True
    with Cons.prems cd have c: "c' = c" and f: "finish_stream gw dr pf c token carry w = (fs, w', None)"
      by (auto simp: v token_def is_done_def Let_def)
    obtain w1 r where ch: "charge gw dr pf (JObj u) w = (w1, r)" by fastforce
    from f ch assms(3,4) obtain st t where r: "r = Inr ()"
      and st: "get_quota_status (gw_quota gw) (gw_redis gw) (dr_report_day dr) (pf_tenant_id pf) (w_store w1) = Inr st"
      and t: "token = JStr t"
      by (auto simp: finish_stream_def Let_def latest_quota_def split: sum.splits json.splits)
    obtain w2 out where rl: "redact_logged pf (carry @ t) w1 = (w2, Inr out)" using redact_logged_total by blast
    have q: "latest_quota gw dr pf w1 = Inr (quota_json st)" using st by (simp add: latest_quota_def)
    have eq: "finish_stream gw dr pf c token carry w =
      (if carry @ t = [] then ([final_frame pf (JObj u) (quota_json st)], set_status dr ''completed'' True None w1, None)
       else ([token_frame out, final_frame pf (JObj u) (quota_json st)], set_status dr ''completed'' True None w2, None))"
      using assms(3,4) by (simp add: finish_stream_def Let_def ch r q t rl del: append_is_Nil_conv)
    show ?thesis
    proof (cases "carry @ t = []")
      case True
      with f eq have "fs = [] @ [final_frame pf (JObj u) (quota_json st)]" "w' = set_status dr ''completed'' True None w1"
        by simp_all
      with ch r st show ?thesis by (metis set_status_store)
    next
      case False
      with f eq have "fs = [token_frame out] @ [final_frame pf (JObj u) (quota_json st)]"
        "w' = set_status dr ''completed'' True None w2" by auto
      with ch r st redact_store [OF rl] show ?thesis by (metis set_status_store)
    qed
  next
    case nd: False
    show ?thesis
    proof (cases "truthy token")
      case False
      with nd Cons.prems(1) have "stream_loop gw dr pf cs broken first_token carry w = (fs, w', None)"
        by (simp add: v token_def is_done_def Let_def)
      from Cons.IH [OF this] Cons.prems(2) cd nd v show ?thesis by simp
    next
      case tr: True
      define w1 where "w1 = (if first_token then set_status dr ''streaming'' False None w else w)"
      have same: "w_store w1 = w_store w" "t_usage (w_db w1) = t_usage (w_db w)" by (simp_all add: w1_def)
      from nd tr Cons.prems(1) obtain s where s: "token = JStr s"
        by (auto simp: v token_def [symmetric] is_done_def [symmetric] Let_def split: json.splits)
      obtain safe carry' where g: "redact_stream_chunk s carry = Inr (safe, carry')"
        using stream_chunk_spec [of carry s] by blast
      obtain fs' where lp: "stream_loop gw dr pf cs broken False carry' w1 = (fs', w', None)"
        and fs: "fs = (if safe \<noteq> [] then [token_frame safe] else []) @ fs'"
        using nd tr Cons.prems(1)
        by (auto simp: v token_def [symmetric] is_done_def [symmetric] s g w1_def Let_def split: prod.splits)
      from Cons.prems(2) cd nd v have "done_chunk cs = Some c" by simp
      from Cons.IH [OF lp this] same fs show ?thesis by (metis append.assoc)
    qed
  qed
qed

text \<open>C5. A completed stream is charged, once, for what the provider reports: when the chunk that is
  done carries a usage dictionary, the usage log has exactly one new row, for this request, tenant
  and service, with the two counts and their sum; the tenant's counter of the day was raised by
  the sum; and the quota in the last frame is the one after the charge, so that on the same day,
  with Redis behaving as documented, it shows the old usage plus the sum.\<close>

theorem completed_stream_is_charged:
  assumes "event_stream gw dr pf stream w = (frames, w')" and "last frames = final_frame pf usage quota"
    and "done_chunk (fst stream) = Some c" and "dict_get_default c ''usage'' JNull = JObj u" and "u \<noteq> []"
  shows "\<exists>i j st row. int_value (dict_get_default u ''prompt_eval_count'' (JInt 0)) = Some i
    \<and> int_value (dict_get_default u ''eval_count'' (JInt 0)) = Some j
    \<and> t_usage (w_db w') = t_usage (w_db w) @ [row] \<and> usage_row pf i j row
    \<and> increment_usage (gw_redis gw) (dr_charge_day dr) (pf_tenant_id pf) (i + j) (w_store w) = Inr (w_store w')
    \<and> last frames = final_frame pf (JObj u) (quota_json st)
    \<and> (redis_ok (gw_redis gw) \<and> dr_report_day dr = dr_charge_day dr \<longrightarrow>
        (\<forall>st0. get_quota_status (gw_quota gw) (gw_redis gw) (dr_report_day dr) (pf_tenant_id pf) (w_store w) = Inr st0
          \<longrightarrow> qs_used_tokens st = qs_used_tokens st0 + (i + j)))"
proof -
  from assms(1,2) obtain fs where l: "stream_loop gw dr pf (fst stream) (snd stream) True [] w = (fs, w', None)"
    and fr: "frames = token_frame [] # fs"
    by (cases rule: event_stream_cases) (auto simp: final_frame_def error_frame_def)
  from loop_charges [OF l assms(3-5)] obtain wa wb st body where
    h: "charge gw dr pf (JObj u) wa = (wb, Inr ())" "w_store wa = w_store w" "t_usage (w_db wa) = t_usage (w_db w)"
      "w_store w' = w_store wb" "t_usage (w_db w') = t_usage (w_db wb)"
      "get_quota_status (gw_quota gw) (gw_redis gw) (dr_report_day dr) (pf_tenant_id pf) (w_store w') = Inr st"
      "fs = body @ [final_frame pf (JObj u) (quota_json st)]" by blast
  from charge_Inr [OF h(1)] h(2-5) obtain i j row where c:
    "int_value (dict_get_default u ''prompt_eval_count'' (JInt 0)) = Some i"
    "int_value (dict_get_default u ''eval_count'' (JInt 0)) = Some j"
    "t_usage (w_db w') = t_usage (w_db w) @ [row]" "usage_row pf i j row"
    "increment_usage (gw_redis gw) (dr_charge_day dr) (pf_tenant_id pf) (i + j) (w_store w) = Inr (w_store w')"
    by auto
  have "last frames = final_frame pf (JObj u) (quota_json st)" by (simp add: fr h(7))
  moreover have "qs_used_tokens st = qs_used_tokens st0 + (i + j)"
    if "redis_ok (gw_redis gw)" "dr_report_day dr = dr_charge_day dr"
      "get_quota_status (gw_quota gw) (gw_redis gw) (dr_report_day dr) (pf_tenant_id pf) (w_store w) = Inr st0" for st0
    using quota_status_used [OF that(3)] quota_status_used [OF h(6)]
      increment_usage_reads [OF that(1) c(5), of "pf_tenant_id pf"] that(2) by force
  ultimately show ?thesis using c by blast
qed

end
