(* ===== verification/Request_Effects.thy ===== *)
theory Request_Effects
  imports AI_Request
begin

text \<open>
  What a submitted request does to the state, whatever its outcome: requests that are refused, the
  isolation of requests and tenants from each other, and the JSON path to its end. The program is
  modelled in theories Pre\_Flight and AI\_Request (services/ai\_request\_service.py, api/ai.py).
\<close>

section \<open>Refused requests\<close>

text \<open>No stage of the pre-flight writes to the usage log.\<close>

named_theorems usage_steps "steps that leave the usage log alone"

lemma usage_then:
  assumes "\<And>db. t_usage (fst (m db)) = t_usage db" and "\<And>x db. t_usage (fst (k x db)) = t_usage db"
  shows "t_usage (fst (then_act m k db)) = t_usage db"
proof (cases "m db")
  case (Pair db1 r)
  with assms(1) [of db] have "t_usage db1 = t_usage db" by simp
  with assms(2) [where db = db1] Pair show ?thesis by (cases r) (simp_all add: then_act_def)
qed

lemma usage_permission [usage_steps]: "t_usage (fst (check_permission sc t s i db)) = t_usage db"
  by (simp add: check_permission_def check_tenant_service_permission_and_audit_def Let_def)

lemma usage_quota [usage_steps]: "t_usage (fst (require_quota gw d t st db)) = t_usage db"
  by (simp add: require_quota_def)

lemma usage_find [usage_steps]: "t_usage (fst (find_service s db)) = t_usage db"
  by (simp add: find_service_def)

lemma usage_persist [usage_steps]: "t_usage (fst (persist_record dr t i s body db)) = t_usage db"
  by (auto simp: persist_record_def create_ai_request_def split: option.split)

lemma usage_inspect [usage_steps]: "t_usage (fst (inspect_request gw dr body db)) = t_usage db"
  by (auto simp: inspect_request_def update_resolved_sensitivity_def update_requests_def split: sum.split)

lemma audit_results_usage [simp]: "t_usage (audit_results rid c rs db) = t_usage db"
  unfolding audit_results_def by (induction rs arbitrary: db) (simp_all add: create_policy_audit_log_def)

lemma usage_policies [usage_steps]: "t_usage (fst (apply_policies gw dr t sv found db)) = t_usage db"
  by (auto simp: apply_policies_def Let_def split: prod.split sum.split exn.split domain_error.split)

lemma usage_scan [usage_steps]: "t_usage (fst (run_prompt_security_scan gw dr t ms n tys db)) = t_usage db"
  by (simp add: run_prompt_security_scan_def injection_event_def create_security_event_def
      update_ai_request_status_def update_requests_def Let_def)

lemma usage_checks [usage_steps]: "t_usage (fst (run_checks gw dr user body store t d s db)) = t_usage db"
  unfolding run_checks_def by (intro usage_then usage_steps) (simp add: return_act_def)

lemma usage_pre_flight: "t_usage (fst (run_pre_flight gw dr user body store db)) = t_usage db"
  by (simp add: run_pre_flight_def Let_def raise_act_def usage_checks split: sum.split)

text \<open>C13. A refused request reaches no provider and costs nothing: when the pre-flight raises, the
  answer is that exception as the router converts it, whatever any provider would have sent and in
  whichever format the answer was asked for; neither the counters nor the usage log change.\<close>

theorem refused_request_is_not_charged:
  assumes "run_pre_flight gw dr user body (w_store w) (w_db w) = (db', Inl e)"
  shows "submit_ai_request gw dr pv accept user body w
      = (w\<lparr>w_db := db'\<rparr>, Failed (router_error (gw_float_repr gw) e))
    \<and> t_usage db' = t_usage (w_db w)"
  using assms usage_pre_flight [of gw dr user body "w_store w" "w_db w"]
  by (simp add: submit_ai_request_def submit_stream_def submit_json_def pre_flight_in_def)

section \<open>Isolation\<close>

text \<open>A state reached by a request of a tenant, seen from outside: the request stays within its own
  record, and of the counters only the tenant's own changes.\<close>

definition counters_kept :: "'s gateway \<Rightarrow> string \<Rightarrow> 's \<Rightarrow> 's \<Rightarrow> bool" where
  "counters_kept gw key s s' = (\<forall>k. k \<noteq> key \<longrightarrow> r_get (gw_redis gw) k s' = r_get (gw_redis gw) k s)"

definition own_effects :: "'s gateway \<Rightarrow> draws \<Rightarrow> string \<Rightarrow> 's world \<Rightarrow> 's world \<Rightarrow> bool" where
  "own_effects gw dr t w w' \<longleftrightarrow> request_touches (dr_request_id dr) (w_db w) (w_db w')
     \<and> (redis_ok (gw_redis gw) \<longrightarrow> counters_kept gw (quota_key t (dr_charge_day dr)) (w_store w) (w_store w'))"

lemma own_effects_refl [simp, intro!]: "own_effects gw dr t w w"
  by (simp add: own_effects_def counters_kept_def)

lemma own_effects_trans [trans]:
  "own_effects gw dr t w w1 \<Longrightarrow> own_effects gw dr t w1 w2 \<Longrightarrow> own_effects gw dr t w w2"
  by (auto simp: own_effects_def counters_kept_def intro: request_touches_trans)

lemma own_status: "st \<in> set request_statuses \<Longrightarrow> own_effects gw dr t w (set_status dr st f d w)"
  by (simp add: own_effects_def counters_kept_def touches_set_status)

lemma own_set_status:
  "own_effects gw dr t w (set_status dr ''streaming'' f d w)"
  "own_effects gw dr t w (set_status dr ''completed'' f d w)"
  "own_effects gw dr t w (set_status dr ''failed'' f d w)"
  by (simp_all add: own_status request_statuses_def)

lemma own_charge:
  assumes "charge gw dr pf usage w = (w', r)"
  shows "own_effects gw dr (pf_tenant_id pf) w w'"
proof -
  have "counters_kept gw (quota_key (pf_tenant_id pf) (dr_charge_day dr)) (w_store w) (w_store w')"
    if ok: "redis_ok (gw_redis gw)"
  proof -
    from assms consider "w_store w' = w_store w"
      | n where "increment_usage (gw_redis gw) (dr_charge_day dr) (pf_tenant_id pf) n (w_store w) = Inr (w_store w')"
      by (auto simp: charge_def split: json.splits option.splits sum.splits)
    then show ?thesis
    proof cases
      case 2
      from redis_okD(1) [OF ok 2 [unfolded increment_usage_def]] show ?thesis by (simp add: counters_kept_def)
    qed (simp add: counters_kept_def)
  qed
  with touches_charge [OF assms] show ?thesis by (simp add: own_effects_def)
qed

lemma own_redact:
  assumes "redact_logged pf txt w = (w', r)"
  shows "own_effects gw dr t w w'"
  using touches_redact [OF assms] redact_store [OF assms] by (simp add: own_effects_def counters_kept_def)

lemma own_finish:
  assumes "finish_stream gw dr pf c token carry w = (fs, w', e)"
  shows "own_effects gw dr (pf_tenant_id pf) w w'"
proof -
  define usage where "usage = dict_get_default c ''usage'' JNull"
  obtain w1 r1 where ch: "(if truthy usage then charge gw dr pf usage w else (w, Inr ())) = (w1, r1)"
    by (cases "if truthy usage then charge gw dr pf usage w else (w, Inr ())")
  have o1: "own_effects gw dr (pf_tenant_id pf) w w1" using ch own_charge by (auto split: if_splits)
  from assms ch consider "w' = w1" | "w' = set_status dr ''completed'' True None w1"
    | w2 out r where "redact_logged pf out w1 = (w2, r)" "w' = set_status dr ''completed'' True None w2"
    | w2 out r where "redact_logged pf out w1 = (w2, r)" "w' = w2"
    by (auto simp: finish_stream_def Let_def usage_def [symmetric] simp del: append_is_Nil_conv
        split: sum.splits json.splits if_splits prod.splits)
  then show ?thesis
  proof cases
    case 2
    with own_effects_trans [OF o1 own_set_status(2)] show ?thesis by simp
  next
    case 3
    with own_effects_trans [OF own_effects_trans [OF o1 own_redact] own_set_status(2)] show ?thesis by metis
  next
    case 4
    with own_effects_trans [OF o1 own_redact] show ?thesis by metis
  qed (use o1 in simp)
qed

lemma own_loop:
  assumes "stream_loop gw dr pf cs broken first_token carry w = (fs, w', e)"
  shows "own_effects gw dr (pf_tenant_id pf) w w'"
  using assms
proof (induction cs arbitrary: first_token carry w fs)
  case Nil
  then show ?case by simp
next
  case (Cons v cs)
  show ?case
  proof (cases v)
    case (JObj c)
    define token where "token = or_text (dict_get_default c ''token'' (JStr []))"
    define is_done where "is_done = truthy (dict_get_default c ''done'' (JBool False))"
    define w1 where "w1 = (if first_token then set_status dr ''streaming'' False None w else w)"
    have o1: "own_effects gw dr (pf_tenant_id pf) w w1" by (simp add: w1_def own_set_status)
    note step = Cons.prems [unfolded JObj stream_loop.simps json.case, folded token_def is_done_def, folded w1_def,
        unfolded Let_def]
    consider (finished) "is_done" | (silent) "\<not> is_done" "\<not> truthy token" | (bad) "w' = w1"
      | (more) carry' fs' where "stream_loop gw dr pf cs broken False carry' w1 = (fs', w', e)"
      using step by (auto simp: w1_def split: json.splits sum.splits prod.splits if_splits)
    then show ?thesis
    proof cases
      case finished
      with step show ?thesis by (auto intro: own_finish)
    next
      case silent
      with step show ?thesis by (auto intro: Cons.IH)
    next
      case bad
      with o1 show ?thesis by simp
    next
      case more
      from own_effects_trans [OF o1 Cons.IH [OF more]] show ?thesis .
    qed
  qed (use Cons.prems in auto)
qed

lemma own_stream:
  assumes "event_stream gw dr pf stream w = (fs, w')"
  shows "own_effects gw dr (pf_tenant_id pf) w w'"
proof -
  obtain gs w1 e where l: "stream_loop gw dr pf (fst stream) (snd stream) True [] w = (gs, w1, e)"
    by (metis prod_cases3)
  note o1 = own_loop [OF l]
  from assms l have "w' = w1 \<or> (\<exists>d. w' = set_status dr ''failed'' True d w1)"
    by (auto simp: event_stream_def split: option.splits)
  with o1 own_effects_trans [OF o1 own_set_status(3)] show ?thesis by auto
qed

lemma redact_answer_logged:
  "redact_answer pf data w = (w', r) \<Longrightarrow> w' = w \<or> (\<exists>out r'. redact_logged pf out w = (w', r'))"
  by (auto simp: redact_answer_def Let_def split: if_splits sum.splits prod.splits)

lemma own_answer:
  assumes "answer_json gw dr pf data w = (w', r)"
  shows "own_effects gw dr (pf_tenant_id pf) w w'"
proof -
  define usage where "usage = (case jobj_get data ''usage'' of None \<Rightarrow> JObj [] | Some u \<Rightarrow> u)"
  obtain w1 r1 where ch: "charge gw dr pf usage w = (w1, r1)" by fastforce
  note o1 = own_charge [OF ch]
  obtain w2 r2 where ra: "redact_answer pf data (set_status dr ''completed'' True None w1) = (w2, r2)" by fastforce
  have "own_effects gw dr (pf_tenant_id pf) (set_status dr ''completed'' True None w1) w2"
    using redact_answer_logged [OF ra] own_redact by auto
  note o2 = own_effects_trans [OF own_effects_trans [OF o1 own_set_status(2)] this]
  from assms ch ra have "w' = w1 \<or> w' = w2"
    by (auto simp: answer_json_def usage_def [symmetric] split: sum.splits)
  with o1 o2 show ?thesis by auto
qed

lemma pre_flight_tenant:
  assumes "pre_flight_in gw dr user body w = (w1, Inr pf)"
  shows "pf_tenant_id pf = tenant_or_default user" and "pf_request_id pf = dr_request_id dr"
    and "has_record (dr_request_id dr) (tenant_or_default user) ''received'' (w_db w1)"
proof -
  from assms obtain db' where r: "run_pre_flight gw dr user body (w_store w) (w_db w) = (db', Inr pf)"
    and w1: "w1 = w\<lparr>w_db := db'\<rparr>"
    by (auto simp: pre_flight_in_def split: prod.splits)
  from pre_flight_passed [OF r] w1
  show "pf_tenant_id pf = tenant_or_default user" and "pf_request_id pf = dr_request_id dr"
    and "has_record (dr_request_id dr) (tenant_or_default user) ''received'' (w_db w1)"
    by (auto simp: Let_def has_record_def)
qed

lemma own_pre_flight:
  assumes "pre_flight_in gw dr user body w = (w1, r)"
  shows "own_effects gw dr t w w1"
proof -
  from assms have "w1 = w\<lparr>w_db := fst (run_pre_flight gw dr user body (w_store w) (w_db w))\<rparr>"
    by (auto simp: pre_flight_in_def split: prod.splits)
  then show ?thesis by (simp add: own_effects_def counters_kept_def touches_pre_flight)
qed

lemma submit_own_effects:
  assumes "submit_ai_request gw dr pv accept user body w = (w', reply)"
  shows "own_effects gw dr (tenant_or_default user) w w'"
proof -
  obtain w1 r where p: "pre_flight_in gw dr user body w = (w1, r)" by fastforce
  have "own_effects gw dr (tenant_or_default user) w1 w'"
  proof (cases r)
    case (Inl e)
    with assms p show ?thesis
      by (auto simp: submit_ai_request_def submit_stream_def submit_json_def split: if_splits)
  next
    case (Inr pf)
    note t = pre_flight_tenant(1) [OF p [unfolded Inr]]
    obtain fs w2 where st: "event_stream gw dr pf (provider_chunks pv pf) w1 = (fs, w2)" by fastforce
    from assms p consider "w' = w2" | d where "w' = set_status dr ''failed'' True d w1"
      | data a where "answer_json gw dr pf data w1 = (w', a)"
      by (auto simp: submit_ai_request_def submit_stream_def submit_json_def Inr st
          split: if_splits sum.splits prod.splits)
    then show ?thesis
    proof cases
      case 1
      with own_stream [OF st] t show ?thesis by simp
    next
      case 2
      then show ?thesis by (simp add: own_set_status)
    next
      case 3
      from own_answer [OF this] t show ?thesis by simp
    qed
  qed
  from own_effects_trans [OF own_pre_flight [OF p] this] show ?thesis .
qed

text \<open>C3. Requests do not disturb each other: whatever a request carries, whoever sends it, whatever
  OPA, the classifier, Redis and the provider answer, and however it ends, no other request's
  record changes, the tables of services, permissions, mappings, policies and patterns are as
  before, the audit trails, security events and usage log only grow at their ends, and with Redis
  behaving as documented no counter but the tenant's own of the day changes. The record of the
  request itself only ever gets one of the five statuses of a request.\<close>

theorem request_isolation:
  assumes "submit_ai_request gw dr pv accept user body w = (w', reply)" and "redis_ok (gw_redis gw)"
  shows "request_touches (dr_request_id dr) (w_db w) (w_db w')
    \<and> (\<forall>k. k \<noteq> quota_key (tenant_or_default user) (dr_charge_day dr)
         \<longrightarrow> r_get (gw_redis gw) k (w_store w') = r_get (gw_redis gw) k (w_store w))"
  using submit_own_effects [OF assms(1)] assms(2) by (simp add: own_effects_def counters_kept_def)

section \<open>The JSON path\<close>

text \<open>The reply of the JSON path is never reached: the headers it builds name a variable that is
  bound nowhere.\<close>

lemma no_json_reply: "snd (submit_ai_request gw dr pv accept user body w) \<noteq> Json_Reply d"
proof -
  have "\<exists>w' e. answer_json gw dr pf data w0 = (w', Inl e)" for pf data and w0 :: "'a world"
    by (auto simp: answer_json_def split: prod.splits sum.splits)
  then have "\<exists>w' e. submit_json gw dr pv user body w = (w', Inl e)"
    by (auto simp: submit_json_def split: prod.splits sum.splits)
  then show ?thesis by (auto simp: submit_ai_request_def split: prod.splits sum.splits)
qed

text \<open>C14. A JSON request that goes through every step is charged and recorded as completed, and still
  the client gets the status 500: when the pre-flight passes, the provider answers, and the charge
  and the quota report succeed, the answer is lost to a \<open>NameError\<close>.\<close>

theorem json_request_charged_but_lost:
  assumes "\<not> contains ''text/event-stream'' accept"
    and "pre_flight_in gw dr user body w = (w1, Inr pf)" and "provider_answer pv pf = Inr data"
    and "charge gw dr pf (case jobj_get data ''usage'' of None \<Rightarrow> JObj [] | Some u \<Rightarrow> u) w1 = (w2, Inr ())"
    and "latest_quota gw dr pf w2 = Inr q"
  shows "\<exists>w3. submit_ai_request gw dr pv accept user body w = (w3, Failed (Runtime (NameError ''elapsed_ms'')))
    \<and> client_status (Runtime (NameError ''elapsed_ms'')) = 500
    \<and> has_record (dr_request_id dr) (tenant_or_default user) ''completed'' (w_db w3)
    \<and> w_store w3 = w_store w2 \<and> t_usage (w_db w3) = t_usage (w_db w2)"
proof -
  let ?wc = "set_status dr ''completed'' True None w2"
  from pre_flight_tenant(3) [OF assms(2)] charge_requests [OF assms(4)]
  have "has_record (dr_request_id dr) (tenant_or_default user) ''received'' (w_db w2)"
    by (simp add: has_record_def)
  from set_status_record [OF this]
  have c: "has_record (dr_request_id dr) (tenant_or_default user) ''completed'' (w_db ?wc)" .
  have "\<exists>w3 out. redact_answer pf data ?wc = (w3, Inr out)"
    using redact_logged_total [of pf "message_content data" ?wc]
    by (auto simp: redact_answer_def Let_def)
  then obtain w3 out where ra: "redact_answer pf data ?wc = (w3, Inr out)" by blast
  from redact_answer_logged [OF ra] redact_store redact_requests
  have same: "w_store w3 = w_store ?wc" "t_usage (w_db w3) = t_usage (w_db ?wc)"
    "t_ai_requests (w_db w3) = t_ai_requests (w_db ?wc)" by fastforce+
  from c same(3) have "has_record (dr_request_id dr) (tenant_or_default user) ''completed'' (w_db w3)"
    by (simp add: has_record_def)
  moreover have "submit_ai_request gw dr pv accept user body w
      = (w3, Failed (Runtime (NameError ''elapsed_ms'')))"
    using assms ra by (simp add: submit_ai_request_def submit_json_def answer_json_def router_error_def)
  ultimately show ?thesis using same by (simp add: client_status_def)
qed

section \<open>Witnesses\<close>

text \<open>A request of the sample tenant that has passed, its world, and two streams for it.\<close>

definition sample_pre_flight :: pre_flight_result where
  "sample_pre_flight = \<lparr>pf_request_id = ''r1'', pf_tenant_id = ''tenant-a'', pf_provided_intent = ''chat'',
     pf_intent = \<lparr>id_name = ''chat'', id_mode = ''manual'', id_confidence = None, id_source = None,
       id_taxonomy_version = None\<rparr>,
     pf_resolved_service_id = ''llm'', pf_service = sample_service, pf_final_sensitivity = HIGH,
     pf_detected_pii_types = [], pf_pii_count = 0, pf_messages = outbound_messages sample_body\<rparr>"

definition sample_state :: "(string \<Rightarrow> string option) world" where
  "sample_state = \<lparr>w_db = sample_world\<lparr>t_ai_requests := [\<lparr>ar_request_id = ''r1'', ar_tenant_id = ''tenant-a'',
       ar_intent = ''chat'', ar_service_id = ''llm'', ar_sensitivity = ''HIGH'', ar_resolved_sensitivity = Some ''HIGH'',
       ar_environment = ''dev'', ar_status = ''received'', ar_started_at = 1, ar_completed_at = None,
       ar_error_detail = None\<rparr>]\<rparr>, w_store = Map.empty\<rparr>"

definition sample_usage :: "(string \<times> json) list" where
  "sample_usage = [(''prompt_eval_count'', JInt 3), (''eval_count'', JInt 4)]"

definition sample_chunk :: "(string \<times> json) list" where
  "sample_chunk = [(''token'', JStr ''ok''), (''done'', JBool True), (''usage'', JObj sample_usage)]"

lemma sample_redact: "redact_logged pf ''ok'' w = (w, Inr ''ok'')"
  using redact_lacks [of "''ok''"]
  by (simp add: redact_logged_def lacks_def in_class_def is_decimal_def in_range_def cp_def)

lemma sample_charge:
  assumes "pf_tenant_id pf = ''tenant-a''"
  shows "\<exists>db st. charge (sample_gateway sc) sample_draws pf (JObj sample_usage) \<lparr>w_db = d, w_store = Map.empty\<rparr>
      = (\<lparr>w_db = db, w_store = Map.empty(quota_key ''tenant-a'' sample_day \<mapsto> str_int 7)\<rparr>, Inr ())
    \<and> latest_quota (sample_gateway sc) sample_draws pf
       \<lparr>w_db = db, w_store = Map.empty(quota_key ''tenant-a'' sample_day \<mapsto> str_int 7)\<rparr> = Inr (quota_json st)"
proof -
  have u: "usage_of (Some (str_int 7)) = Inr 7"
    by (cases "str_int 7") (simp_all add: usage_of_def, metis int_of_str_str_int)
  then obtain st where "get_quota_status sample_quotas map_redis sample_day ''tenant-a''
      (Map.empty(quota_key ''tenant-a'' sample_day \<mapsto> str_int 7)) = Inr st"
    by (simp add: get_quota_status_def quota_status_for_def sample_quotas_def load_quotas_def
        json_iter_def dict_get_default_def jobj_get_def hashable_def config_for_def max_tokens_of_def
        map_redis_def remaining_tokens_def percent_used_def num_of_def)
  moreover obtain db where "create_usage_log (pf_request_id pf) ''tenant-a'' (pf_resolved_service_id pf)
      (sv_model_name (pf_service pf)) 3 4 d = Some db"
    by (simp add: create_usage_log_def fits_integer_def)
  moreover have "increment_usage map_redis sample_day ''tenant-a'' 7 Map.empty
      = Inr (Map.empty(quota_key ''tenant-a'' sample_day \<mapsto> str_int 7))"
    by (simp add: increment_usage_def map_redis_def counter_value_def)
  ultimately show ?thesis
    using assms by (auto simp: charge_def sample_usage_def dict_get_default_def int_value_def
        sample_gateway_def sample_draws_def latest_quota_def)
qed

lemma sample_stream:
  "\<exists>st w'. event_stream (sample_gateway quiet_scanner) sample_draws sample_pre_flight ([JObj sample_chunk], None)
      sample_state
     = ([token_frame [], token_frame ''ok'', final_frame sample_pre_flight (JObj sample_usage) (quota_json st)], w')"
proof -
  obtain db st where c: "charge (sample_gateway quiet_scanner) sample_draws sample_pre_flight (JObj sample_usage) sample_state
      = (\<lparr>w_db = db, w_store = Map.empty(quota_key ''tenant-a'' sample_day \<mapsto> str_int 7)\<rparr>, Inr ())"
    and q: "latest_quota (sample_gateway quiet_scanner) sample_draws sample_pre_flight
       \<lparr>w_db = db, w_store = Map.empty(quota_key ''tenant-a'' sample_day \<mapsto> str_int 7)\<rparr> = Inr (quota_json st)"
    using sample_charge [of sample_pre_flight quiet_scanner "w_db sample_state"]
    by (auto simp: sample_state_def sample_pre_flight_def)
  have "truthy (JObj sample_usage)" by (simp add: sample_usage_def)
  with c q show ?thesis
    by (auto simp: event_stream_def finish_stream_def sample_chunk_def dict_get_default_def or_text_def Let_def
        sample_redact)
qed

lemma final_not_error: "final_frame pf u q \<noteq> error_frame m"
  by (simp add: final_frame_def error_frame_def)



theorem completed_stream_is_charged_witness:
  "\<exists>frames w' row. event_stream (sample_gateway quiet_scanner) sample_draws sample_pre_flight
      ([JObj sample_chunk], None) sample_state = (frames, w')
    \<and> t_usage (w_db w') = [row] \<and> ut_total_tokens row = 7
    \<and> (\<exists>st. last frames = final_frame sample_pre_flight (JObj sample_usage) (quota_json st) \<and> qs_used_tokens st = 7)"
proof -
  obtain st w' where e: "event_stream (sample_gateway quiet_scanner) sample_draws sample_pre_flight
      ([JObj sample_chunk], None) sample_state
     = ([token_frame [], token_frame ''ok'', final_frame sample_pre_flight (JObj sample_usage) (quota_json st)], w')"
    using sample_stream by blast
  have d: "done_chunk (fst ([JObj sample_chunk], None)) = Some sample_chunk"
    "dict_get_default sample_chunk ''usage'' JNull = JObj sample_usage" "sample_usage \<noteq> []"
    by (simp_all add: sample_chunk_def chunk_done_def jobj_get_def dict_get_default_def sample_usage_def)
  have i: "int_value (dict_get_default sample_usage ''prompt_eval_count'' (JInt 0)) = Some 3"
    "int_value (dict_get_default sample_usage ''eval_count'' (JInt 0)) = Some 4"
    by (simp_all add: sample_usage_def dict_get_default_def int_value_def)
  have g: "redis_ok (gw_redis (sample_gateway quiet_scanner)) \<and> dr_report_day sample_draws = dr_charge_day sample_draws"
    by (simp add: sample_gateway_def sample_draws_def map_redis_ok)
  have s0: "\<exists>st0. get_quota_status (gw_quota (sample_gateway quiet_scanner)) (gw_redis (sample_gateway quiet_scanner))
      (dr_report_day sample_draws) (pf_tenant_id sample_pre_flight) (w_store sample_state) = Inr st0
      \<and> qs_used_tokens st0 = 0"
    by (simp add: sample_gateway_def sample_draws_def sample_pre_flight_def sample_state_def sample_status)
  have t0: "t_usage (w_db sample_state) = []"
    by (simp add: sample_state_def sample_world_def sample_routing_def empty_database_def)
  from completed_stream_is_charged [OF e _ d] e i g s0 t0 show ?thesis by (force simp: usage_row_def)
qed


text \<open>A provider that answers every JSON request with the sample usage.\<close>

definition sample_side :: provider_side where
  "sample_side = \<lparr>pv_loads = (\<lambda>_. Some (JObj sample_usage)), pv_exchange = Http_Answer 200 [], pv_lines = [],
     pv_broken = None\<rparr>"

definition sample_start :: "(string \<Rightarrow> string option) world" where
  "sample_start = \<lparr>w_db = sample_world, w_store = Map.empty\<rparr>"

theorem refused_request_is_not_charged_witness:
  "\<exists>db' e. submit_ai_request (sample_gateway strict_scanner) sample_draws sample_side [] sample_admin sample_body
      sample_start = (sample_start\<lparr>w_db := db'\<rparr>, Failed e) \<and> t_usage db' = [] \<and> client_status e = 403"
proof -
  obtain db' h ps sc n tys where p: "run_pre_flight (sample_gateway strict_scanner) sample_draws sample_admin
      sample_body (w_store sample_start) (w_db sample_start) = (db', Inl (Domain (SecurityViolationError h ps sc n tys)))"
    using sample_refused by (auto simp: sample_start_def)
  have "t_usage (w_db sample_start) = []"
    by (simp add: sample_start_def sample_world_def sample_routing_def empty_database_def)
  with refused_request_is_not_charged [OF p, of sample_side "[]"]
  have "submit_ai_request (sample_gateway strict_scanner) sample_draws sample_side [] sample_admin sample_body
      sample_start = (sample_start\<lparr>w_db := db'\<rparr>, Failed (router_error (gw_float_repr (sample_gateway strict_scanner))
        (Domain (SecurityViolationError h ps sc n tys)))) \<and> t_usage db' = []" by simp
  moreover have "client_status (router_error fr (Domain (SecurityViolationError h ps sc n tys))) = 403" for fr
    by (simp add: router_error_def client_status_def Let_def)
  ultimately show ?thesis by blast
qed

theorem request_isolation_witness:
  "t_permissions (w_db (fst (submit_ai_request (sample_gateway quiet_scanner) sample_draws sample_side [] sample_admin
     sample_body sample_start))) = t_permissions sample_world"
proof -
  obtain w' reply where r: "submit_ai_request (sample_gateway quiet_scanner) sample_draws sample_side [] sample_admin
     sample_body sample_start = (w', reply)" by fastforce
  have "redis_ok (gw_redis (sample_gateway quiet_scanner))" by (simp add: sample_gateway_def map_redis_ok)
  from request_isolation [OF r this] r show ?thesis
    by (simp add: request_touches_def static_tables_def sample_start_def)
qed

theorem json_request_charged_but_lost_witness:
  "\<exists>w'. submit_ai_request (sample_gateway quiet_scanner) sample_draws sample_side [] sample_admin sample_body
      sample_start = (w', Failed (Runtime (NameError ''elapsed_ms'')))
    \<and> w_store w' (quota_key ''tenant-a'' sample_day) = Some (str_int 7)"
proof -
  obtain db' pf where p: "run_pre_flight (sample_gateway quiet_scanner) sample_draws sample_admin sample_body
      Map.empty sample_world = (db', Inr pf)" "pf_tenant_id pf = ''tenant-a''" "pf_service pf = sample_service"
    using sample_passes by blast
  have q: "pre_flight_in (sample_gateway quiet_scanner) sample_draws sample_admin sample_body sample_start
      = (\<lparr>w_db = db', w_store = Map.empty\<rparr>, Inr pf)"
    using p(1) by (simp add: pre_flight_in_def sample_start_def)
  have a: "provider_answer sample_side pf
      = Inr (JObj [(''response'', JObj sample_usage), (''usage'', JObj sample_usage)])"
    using p(3) by (simp add: provider_answer_def is_gemini_def sample_service_def sample_side_def
        ollama_chat_json_def usage_of_chunk_def sample_usage_def dict_get_default_def)
  have u: "(case jobj_get (JObj [(''response'', JObj sample_usage), (''usage'', JObj sample_usage)]) ''usage'' of
      None \<Rightarrow> JObj [] | Some u \<Rightarrow> u) = JObj sample_usage" by (simp add: jobj_get_def)
  from sample_charge [OF p(2), of quiet_scanner db'] obtain db st where
    c: "charge (sample_gateway quiet_scanner) sample_draws pf (JObj sample_usage) \<lparr>w_db = db', w_store = Map.empty\<rparr>
      = (\<lparr>w_db = db, w_store = Map.empty(quota_key ''tenant-a'' sample_day \<mapsto> str_int 7)\<rparr>, Inr ())"
    and l: "latest_quota (sample_gateway quiet_scanner) sample_draws pf
       \<lparr>w_db = db, w_store = Map.empty(quota_key ''tenant-a'' sample_day \<mapsto> str_int 7)\<rparr> = Inr (quota_json st)"
    by blast
  have "\<not> contains ''text/event-stream'' []" by (simp add: contains_def)
  from json_request_charged_but_lost [OF this q a trans [OF arg_cong [where f = "\<lambda>x. charge _ _ _ x _", OF u] c] l] obtain w3 where
    "submit_ai_request (sample_gateway quiet_scanner) sample_draws sample_side [] sample_admin sample_body
      sample_start = (w3, Failed (Runtime (NameError ''elapsed_ms'')))"
    and "w_store w3 = Map.empty(quota_key ''tenant-a'' sample_day \<mapsto> str_int 7)" by auto
  then show ?thesis by (intro exI [of _ w3]) (simp only: fun_upd_same simp_thms)
qed

end
