(* ===== verification/Access.thy ===== *)
theory Access
  imports Intent_Routing Quota Actions
begin

text \<open>
  Who may call what: the header that shows a request came through Kong, the correlation id and the
  security headers (src/fastapi\_backend/app/core/middleware.py), the verification of tokens with
  the key set of the identity provider (core/security.py), the endpoint that reports a tenant's
  quota (api/governance.py) and the composition of these guards with a handler. The library that
  decodes tokens and the exchange that fetches the keys are parameters; so is the text of an
  exception.
\<close>

section \<open>Requests through Kong\<close>

definition not_from_kong :: exn where
  "not_from_kong = HTTPException 403 (JStr ''all requests should come from kong gateway'')"

definition verify_kong_header :: "string option \<Rightarrow> string \<Rightarrow> string option \<Rightarrow> exn + unit" where
  "verify_kong_header kong_header_value http_method header_value =
     (if http_method = ''OPTIONS'' then Inr ()
      else case header_value of
          None \<Rightarrow> Inl not_from_kong
        | Some h \<Rightarrow>
            (case kong_header_value of
               Some v \<Rightarrow> (if v \<noteq> ''true'' \<and> h \<noteq> v then Inl not_from_kong else Inr ())
             | None \<Rightarrow> Inr ()))"

section \<open>Middleware\<close>

text \<open>The headers of a response; a handler returns them or raises, and may read the correlation id
  of its context.\<close>

type_synonym http_headers = "(string \<times> string) list"

definition correlation_id_of :: "string option \<Rightarrow> string \<Rightarrow> string" where
  "correlation_id_of header fresh = (case header of Some (c # s) \<Rightarrow> c # s | _ \<Rightarrow> fresh)"

text \<open>\<open>CorrelationIdMiddleware.dispatch\<close>: the new value of the context variable and the
  response.\<close>

definition correlation_dispatch :: "string option \<Rightarrow> string \<Rightarrow> (string \<Rightarrow> exn + http_headers) \<Rightarrow> string
    \<Rightarrow> string \<times> (exn + http_headers)" where
  "correlation_dispatch header fresh call_next ctx =
     (let cid = correlation_id_of header fresh
      in (ctx, case call_next cid of
            Inl e \<Rightarrow> Inl e
          | Inr response \<Rightarrow> Inr (dict_set response ''X-Correlation-ID'' cid)))"

definition security_headers :: http_headers where
  "security_headers =
     [(''X-Content-Type-Options'', ''nosniff''), (''X-Frame-Options'', ''DENY''),
      (''X-XSS-Protection'', ''1; mode=block''),
      (''Strict-Transport-Security'', ''max-age=31536000; includeSubDomains''),
      (''Referrer-Policy'', ''strict-origin-when-cross-origin''),
      (''Permissions-Policy'', ''camera=(), microphone=(), geolocation=()'')]"

definition security_dispatch :: "(string \<Rightarrow> exn + http_headers) \<Rightarrow> string \<Rightarrow> exn + http_headers" where
  "security_dispatch call_next ctx =
     (case call_next ctx of
        Inl e \<Rightarrow> Inl e
      | Inr response \<Rightarrow> Inr (foldl (\<lambda>r (h, v). dict_set r h v) response security_headers))"

text \<open>The stack of \<open>create_app\<close> below CORS: a middleware added later is further out.\<close>

definition middleware_stack :: "string option \<Rightarrow> string \<Rightarrow> (string \<Rightarrow> exn + http_headers) \<Rightarrow> string
    \<Rightarrow> string \<times> (exn + http_headers)" where
  "middleware_stack header fresh handler ctx =
     correlation_dispatch header fresh (security_dispatch handler) ctx"

section \<open>Tokens\<close>

record jwt_library =
  jwt_kid :: "string \<Rightarrow> exn + string option"
  jwt_decode :: "string \<Rightarrow> (string \<times> json) list \<Rightarrow> exn + user_claims"

definition get_jwks :: "exn + json \<Rightarrow> json option \<Rightarrow> json option \<times> (exn + json)" where
  "get_jwks fetched jwks_cache =
     (case jwks_cache of
        Some keys \<Rightarrow> (jwks_cache, Inr keys)
      | None \<Rightarrow> (case fetched of Inl e \<Rightarrow> (None, Inl e) | Inr keys \<Rightarrow> (Some keys, Inr keys)))"

text \<open>Iterating over \<open>jwks.get("keys", [])\<close> with \<open>key.get\<close> on each element.\<close>

definition jwks_keys :: "json \<Rightarrow> json list py" where
  "jwks_keys jwks =
     bind_py (as_dict jwks) (\<lambda>d. items_of AttributeError (dict_get_default d ''keys'' (JArr [])))"

definition rsa_key_of :: "(string \<times> json) list \<Rightarrow> (string \<times> json) list" where
  "rsa_key_of d = map (\<lambda>k. (k, dict_get_default d k JNull)) [''kty'', ''kid'', ''use'', ''n'', ''e'']"

fun find_rsa_key :: "string option \<Rightarrow> json list \<Rightarrow> (string \<times> json) list py" where
  "find_rsa_key kid [] = Inr []"
| "find_rsa_key kid (k # ks) =
     (case k of
        JObj d \<Rightarrow> (if dict_get_default d ''kid'' JNull = opt_str kid then Inr (rsa_key_of d)
                    else find_rsa_key kid ks)
      | _ \<Rightarrow> Inl AttributeError)"

text \<open>The body of the \<open>try\<close>, once the key set is there.\<close>

definition verify_token :: "jwt_library \<Rightarrow> string \<Rightarrow> json \<Rightarrow> exn + user_claims" where
  "verify_token lib token jwks =
     (case jwt_kid lib token of
        Inl e \<Rightarrow> Inl e
      | Inr kid \<Rightarrow>
          (case jwks_keys jwks of
             Inl e \<Rightarrow> Inl (Runtime e)
           | Inr ks \<Rightarrow>
               (case find_rsa_key kid ks of
                  Inl e \<Rightarrow> Inl (Runtime e)
                | Inr rsa_key \<Rightarrow>
                    (if rsa_key = []
                     then Inl (Runtime (RuntimeError (''No matching JWKS key found for token '' @ [CHR 0x27] @ ''kid'' @ [CHR 0x27])))
                     else jwt_decode lib token rsa_key))))"

text \<open>\<open>get_current_user\<close>, with the cache of the key set as its state.\<close>

definition get_current_user :: "(exn \<Rightarrow> string) \<Rightarrow> exn + json \<Rightarrow> jwt_library \<Rightarrow> string \<Rightarrow> json option
    \<Rightarrow> json option \<times> (exn + user_claims)" where
  "get_current_user exc_text fetched lib token jwks_cache =
     (case get_jwks fetched jwks_cache of
        (_, Inl e) \<Rightarrow> (None, Inl (HTTPException 401 (JStr (''Invalid token: '' @ exc_text e))))
      | (jwks_cache', Inr jwks) \<Rightarrow>
          (case verify_token lib token jwks of
             Inl e \<Rightarrow> (None, Inl (HTTPException 401 (JStr (''Invalid token: '' @ exc_text e))))
           | Inr payload \<Rightarrow> (jwks_cache', Inr payload)))"

section \<open>Guarded endpoints\<close>

record call =
  call_method :: string
  call_kong_header :: "string option"
  call_token :: "exn + string"

text \<open>What the guards read: the configured value of the Kong header, what fetching the keys gives
  now, the library and the texts of exceptions.\<close>

record edge =
  edge_kong_value :: "string option"
  edge_fetched :: "exn + json"
  edge_jwt :: jwt_library
  edge_exc_text :: "exn \<Rightarrow> string"

text \<open>The dependencies of a route run before its handler: the header, the bearer token (the scheme
  of the library gives it or raises), the user, and for some routes the role.\<close>

definition as_user :: "edge \<Rightarrow> call \<Rightarrow> (user_claims \<Rightarrow> 'd \<Rightarrow> 'd \<times> (exn + 'a)) \<Rightarrow> json option \<Rightarrow> 'd
    \<Rightarrow> json option \<times> 'd \<times> (exn + 'a)" where
  "as_user ed c handler jwks_cache d =
     (case verify_kong_header (edge_kong_value ed) (call_method c) (call_kong_header c) of
        Inl e \<Rightarrow> (jwks_cache, d, Inl e)
      | Inr _ \<Rightarrow>
          (case call_token c of
             Inl e \<Rightarrow> (jwks_cache, d, Inl e)
           | Inr token \<Rightarrow>
               (case get_current_user (edge_exc_text ed) (edge_fetched ed) (edge_jwt ed) token jwks_cache of
                  (jwks_cache', Inl e) \<Rightarrow> (jwks_cache', d, Inl e)
                | (jwks_cache', Inr u) \<Rightarrow> (jwks_cache', handler u d))))"

definition as_admin :: "edge \<Rightarrow> call \<Rightarrow> (user_claims \<Rightarrow> 'd \<Rightarrow> 'd \<times> (exn + 'a)) \<Rightarrow> json option \<Rightarrow> 'd
    \<Rightarrow> json option \<times> 'd \<times> (exn + 'a)" where
  "as_admin ed c handler =
     as_user ed c (\<lambda>u d. case require_admin u of Inl e \<Rightarrow> (d, Inl e) | Inr admin \<Rightarrow> handler admin d)"

text \<open>The routes that change mappings, as the router declares them.\<close>

definition create_mapping_route :: "edge \<Rightarrow> call \<Rightarrow> string \<Rightarrow> mapping_create \<Rightarrow> json option \<Rightarrow> database
    \<Rightarrow> json option \<times> database \<times> (exn + intent_routing)" where
  "create_mapping_route ed c new_id payload =
     as_admin ed c (\<lambda>u. create_mapping_endpoint new_id u payload)"

definition update_mapping_route :: "edge \<Rightarrow> call \<Rightarrow> string \<Rightarrow> mapping_update \<Rightarrow> json option \<Rightarrow> database
    \<Rightarrow> json option \<times> database \<times> (exn + intent_routing)" where
  "update_mapping_route ed c i payload = as_admin ed c (\<lambda>u. update_mapping_endpoint i u payload)"

definition delete_mapping_route :: "edge \<Rightarrow> call \<Rightarrow> string \<Rightarrow> json option \<Rightarrow> database
    \<Rightarrow> json option \<times> database \<times> (exn + intent_routing)" where
  "delete_mapping_route ed c i = as_admin ed c (delete_mapping_endpoint i)"

text \<open>\<open>GET /governance/quota-status\<close>.\<close>

definition quota_status_endpoint :: "quota_service \<Rightarrow> 's redis \<Rightarrow> utc_date \<Rightarrow> user_claims \<Rightarrow> 's
    \<Rightarrow> 's \<times> (exn + quota_status)" where
  "quota_status_endpoint q R today user store =
     (store, case get_quota_status q R today (tenant_or_default user) store of
        Inl e \<Rightarrow> Inl (Runtime e) | Inr st \<Rightarrow> Inr st)"

text \<open>The two example routes of \<open>create_app\<close>; both ask for a user only.\<close>

definition documents_reply :: "string \<Rightarrow> string \<Rightarrow> user_claims \<Rightarrow> 'd \<Rightarrow> 'd \<times> (exn + json)" where
  "documents_reply message kind user d =
     (let email = (case acting_user user of None \<Rightarrow> JNull | Some e \<Rightarrow> JStr e);
          shown = (case acting_user user of None \<Rightarrow> ''None'' | Some e \<Rightarrow> e)
      in (d, Inr (JObj [(''message'', JStr message), (''client'', email),
           (''data'', JArr (map (\<lambda>i. JObj [(''id'', JInt (int i)),
              (''name'', JStr (shown @ '' '' @ kind @ '' Document '' @ str_nat i))]) [1, 2, 3]))])))"

definition get_documents :: "user_claims \<Rightarrow> 'd \<Rightarrow> 'd \<times> (exn + json)" where
  "get_documents = documents_reply ''Documents'' ''user''"

definition get_admin :: "user_claims \<Rightarrow> 'd \<Rightarrow> 'd \<times> (exn + json)" where
  "get_admin = documents_reply ''admin documents'' ''admin''"

section \<open>Properties\<close>

text \<open>The key found is one of the set, with the token's key id.\<close>

lemma find_rsa_key_Some:
  "find_rsa_key kid ks = Inr r \<Longrightarrow> r \<noteq> [] \<Longrightarrow>
     \<exists>d. JObj d \<in> set ks \<and> dict_get_default d ''kid'' JNull = opt_str kid \<and> r = rsa_key_of d"
  by (induction kid ks rule: find_rsa_key.induct) (auto split: json.splits if_splits)

lemma verify_token_Inr:
  assumes "verify_token lib token jwks = Inr u"
  obtains kid ks d where "jwt_kid lib token = Inr kid" "jwks_keys jwks = Inr ks" "JObj d \<in> set ks"
    "dict_get_default d ''kid'' JNull = opt_str kid" "jwt_decode lib token (rsa_key_of d) = Inr u"
proof -
  from assms obtain kid ks r where h: "jwt_kid lib token = Inr kid" "jwks_keys jwks = Inr ks"
    "find_rsa_key kid ks = Inr r" "r \<noteq> []" "jwt_decode lib token r = Inr u"
    by (auto simp: verify_token_def split: sum.splits if_splits)
  from find_rsa_key_Some [OF h(3,4)] h that show ?thesis by blast
qed

text \<open>C8. A user is never made up: the claims \<open>get_current_user\<close> returns are what the library
  decodes from the token under a key of the key set that carries the token's key id, and the key
  set is the cached one or, with an empty cache, the one just fetched, which is then cached. Every
  failure, of the fetch, the key set or the token, is the status 401 and empties the cache.\<close>

theorem current_user_is_verified:
  "case get_current_user exc_text fetched lib token jwks_cache of
     (cache', Inr u) \<Rightarrow> (\<exists>jwks kid ks d. cache' = Some jwks
         \<and> (jwks_cache = Some jwks \<or> jwks_cache = None \<and> fetched = Inr jwks)
         \<and> jwt_kid lib token = Inr kid \<and> jwks_keys jwks = Inr ks \<and> JObj d \<in> set ks
         \<and> dict_get_default d ''kid'' JNull = opt_str kid \<and> jwt_decode lib token (rsa_key_of d) = Inr u)
   | (cache', Inl e) \<Rightarrow> cache' = None \<and> (\<exists>m. e = HTTPException 401 (JStr m))"
proof -
  obtain c r where g: "get_jwks fetched jwks_cache = (c, r)" by fastforce
  show ?thesis
  proof (cases r)
    case (Inl e)
    with g show ?thesis by (simp add: get_current_user_def)
  next
    case (Inr jwks)
    from g [unfolded Inr] have c: "c = Some jwks" "jwks_cache = Some jwks \<or> jwks_cache = None \<and> fetched = Inr jwks"
      by (auto simp: get_jwks_def split: option.splits sum.splits)
    show ?thesis
    proof (cases "verify_token lib token jwks")
      case (Inl e)
      with g Inr show ?thesis by (simp add: get_current_user_def)
    next
      case v: (Inr u)
      from v obtain kid ks d where "jwt_kid lib token = Inr kid" "jwks_keys jwks = Inr ks" "JObj d \<in> set ks"
        "dict_get_default d ''kid'' JNull = opt_str kid" "jwt_decode lib token (rsa_key_of d) = Inr u"
        by (rule verify_token_Inr)
      with g Inr v c show ?thesis by (simp add: get_current_user_def) blast
    qed
  qed
qed

text \<open>The result of a guarded call: the handler ran for a verified user, or nothing changed.\<close>

lemma as_user_cases:
  assumes "as_user ed c h k d = (k', d', r)"
  obtains (ran) token u where "call_token c = Inr token"
      "get_current_user (edge_exc_text ed) (edge_fetched ed) (edge_jwt ed) token k = (k', Inr u)"
      "verify_kong_header (edge_kong_value ed) (call_method c) (call_kong_header c) = Inr ()" "h u d = (d', r)"
    | (refused) e where "d' = d" "r = Inl e"
proof -
  obtain v where v: "verify_kong_header (edge_kong_value ed) (call_method c) (call_kong_header c) = v" by simp
  show ?thesis
  proof (cases v)
    case (Inl e)
    with v assms refused [of e] show ?thesis by (auto simp: as_user_def)
  next
    case vr: (Inr x)
    show ?thesis
    proof (cases "call_token c")
      case (Inl e)
      with v vr assms refused [of e] show ?thesis by (auto simp: as_user_def)
    next
      case (Inr token)
      obtain k1 g where g: "get_current_user (edge_exc_text ed) (edge_fetched ed) (edge_jwt ed) token k = (k1, g)"
        by fastforce
      show ?thesis
      proof (cases g)
        case (Inl e)
        with g Inr v vr assms refused [of e] show ?thesis by (auto simp: as_user_def)
      next
        case u: (Inr u)
        with g Inr v vr assms ran show ?thesis by (simp add: as_user_def)
      qed
    qed
  qed
qed

text \<open>Only administrators change the routing: a call of a route for mappings leaves the database
  as it was unless it came with a Kong header, carried a token that verifies, and the claims of
  that token name the role admin.\<close>

theorem mapping_routes_need_admin:
  assumes "route \<in> {create_mapping_route ed c i p, update_mapping_route ed c i q, delete_mapping_route ed c i}"
    and "route k db = (k', db', r)" and "db' \<noteq> db"
  shows "\<exists>token u. call_token c = Inr token
    \<and> snd (get_current_user (edge_exc_text ed) (edge_fetched ed) (edge_jwt ed) token k) = Inr u
    \<and> ''admin'' \<in> set (claim_roles u)
    \<and> (call_method c \<noteq> ''OPTIONS'' \<longrightarrow> call_kong_header c \<noteq> None)"
proof -
  from assms(1) obtain h where "route = as_admin ed c h"
    by (auto simp: create_mapping_route_def update_mapping_route_def delete_mapping_route_def)
  with assms(2) have "as_user ed c (\<lambda>u d. case require_admin u of Inl e \<Rightarrow> (d, Inl e) | Inr admin \<Rightarrow> h admin d) k db
      = (k', db', r)" by (simp add: as_admin_def)
  then show ?thesis
  proof (cases rule: as_user_cases)
    case (ran token u)
    with assms(3) have "''admin'' \<in> set (claim_roles u)"
      by (auto simp: require_admin_def split: if_splits)
    moreover have "call_method c \<noteq> ''OPTIONS'' \<longrightarrow> call_kong_header c \<noteq> None"
      using ran(3) by (auto simp: verify_kong_header_def split: option.splits if_splits)
    ultimately show ?thesis using ran by auto
  qed (use assms(3) in simp)
qed

text \<open>The route \<open>/api/admin\<close> asks for a user only: a verified user without any role gets its
  answer.\<close>

lemma admin_route_needs_no_role:
  assumes "verify_kong_header (edge_kong_value ed) (call_method c) (call_kong_header c) = Inr ()"
    and "call_token c = Inr token"
    and "get_current_user (edge_exc_text ed) (edge_fetched ed) (edge_jwt ed) token k = (k', Inr u)"
  shows "\<exists>reply. as_user ed c get_admin k d = (k', d, Inr reply)"
  using assms by (simp add: as_user_def get_admin_def documents_reply_def Let_def)

lemma foldl_dict_set:
  "dict_get (foldl (\<lambda>r (h, v). dict_set r h v) r hs) k =
     (case map_of (rev hs) k of None \<Rightarrow> dict_get r k | Some v \<Rightarrow> Some v)"
proof (induction hs arbitrary: r)
  case Nil
  then show ?case by simp
next
  case (Cons p hs)
  obtain h v where p: "p = (h, v)" by (cases p)
  show ?case by (simp add: Cons.IH p dict_get_set map_add_def split: option.split)
qed

text \<open>Every response of the application leaves with its correlation id and all six security
  headers, whatever the handler set itself, and the context variable is back at its old value, also
  when the handler raises; the id is the client's when it sent one that is not empty.\<close>

theorem responses_carry_headers:
  "case middleware_stack header fresh handler ctx of (ctx', r) \<Rightarrow> ctx' = ctx \<and>
     (case r of
        Inl e \<Rightarrow> handler (correlation_id_of header fresh) = Inl e
      | Inr hs \<Rightarrow> dict_get hs ''X-Correlation-ID'' = Some (correlation_id_of header fresh)
          \<and> list_all (\<lambda>(h, v). dict_get hs h = Some v) security_headers)"
  by (auto simp: middleware_stack_def correlation_dispatch_def security_dispatch_def Let_def foldl_dict_set
      dict_get_set security_headers_def split: sum.split)

section \<open>Witnesses\<close>

definition sample_edge :: edge where
  "sample_edge = \<lparr>edge_kong_value = Some ''secret'',
     edge_fetched = Inr (JObj [(''keys'', JArr [JObj [(''kid'', JStr ''k1'')]])]),
     edge_jwt = \<lparr>jwt_kid = (\<lambda>_. Inr (Some ''k1'')), jwt_decode = (\<lambda>_ _. Inr sample_admin)\<rparr>,
     edge_exc_text = (\<lambda>_. [])\<rparr>"

definition sample_call :: call where
  "sample_call = \<lparr>call_method = ''DELETE'', call_kong_header = Some ''secret'', call_token = Inr ''t''\<rparr>"

lemma sample_find: "find_rsa_key (Some ''k1'') [JObj [(''kid'', JStr ''k1'')]] = Inr (rsa_key_of [(''kid'', JStr ''k1'')])"
  by (simp add: dict_get_default_def opt_str_def)

lemma sample_user:
  "get_current_user (edge_exc_text sample_edge) (edge_fetched sample_edge) (edge_jwt sample_edge) ''t'' None
     = (Some (JObj [(''keys'', JArr [JObj [(''kid'', JStr ''k1'')]])]), Inr sample_admin)"
  by (simp add: get_current_user_def get_jwks_def verify_token_def sample_edge_def jwks_keys_def as_dict_def items_of_def
      dict_get_default_def opt_str_def rsa_key_of_def)

lemma sample_delete_route:
  obtains k db' m where "delete_mapping_route sample_edge sample_call ''i1'' None sample_routing = (k, db', Inr m)"
    and "db' \<noteq> sample_routing"
proof -
  obtain db' m where d: "delete_mapping_endpoint ''i1'' sample_admin sample_routing = (db', Inr m)"
    using sample_delete by blast
  have "db' \<noteq> sample_routing"
    using d by (auto simp: delete_mapping_endpoint_def delete_mapping_def get_intent_mapping_by_id_def
        sample_routing_def soft_delete_intent_mapping_def acting_user_def sample_admin_def Let_def
        committed_def answer_def replace_mapping_def empty_database_def)
  moreover have "delete_mapping_route sample_edge sample_call ''i1'' None sample_routing
      = (Some (JObj [(''keys'', JArr [JObj [(''kid'', JStr ''k1'')]])]), db', Inr m)"
    using d sample_user
    by (simp add: delete_mapping_route_def as_admin_def as_user_def sample_call_def verify_kong_header_def
        require_admin_def sample_admin_def) (simp add: sample_edge_def)
  ultimately show thesis using that by blast
qed

theorem mapping_routes_need_admin_witness:
  "\<exists>u. snd (get_current_user (edge_exc_text sample_edge) (edge_fetched sample_edge) (edge_jwt sample_edge) ''t'' None)
       = Inr u \<and> ''admin'' \<in> set (claim_roles u)"
proof -
  obtain k db' m where "delete_mapping_route sample_edge sample_call ''i1'' None sample_routing = (k, db', Inr m)"
    "db' \<noteq> sample_routing" using sample_delete_route .
  then show ?thesis
    using mapping_routes_need_admin [of "delete_mapping_route sample_edge sample_call ''i1''" sample_edge sample_call
        "''i1''" sample_mapping "\<lparr>mu_service_id = None, mu_is_active = None, mu_taxonomy_version = None\<rparr>"]
    by (simp add: sample_call_def)
qed

end
