(* ===== verification/Routes.thy ===== *)
theory Routes
  imports Access
begin

text \<open>
  The routes of the backend and what guards them: the routers of src/fastapi\_backend/app/api with their
  prefixes and dependencies, their order in \<open>create_app\<close> (app/main.py), and how the framework answers a
  call, by its documented rules: the first route that fits method and path is taken, its dependencies run
  in order (those of the router and the decorator before those of the parameters), and the handler runs
  when none of them raised. A session with the scope of the user (\<open>get_db_with_user\<close>) depends on the user.
  The pages the framework adds (documentation, metrics) are left out.
\<close>

section \<open>Templates\<close>

datatype segment = Lit string | Param

datatype guard = Kong_Header | Bearer_User | Admin_Role

record route =
  rt_method :: string
  rt_template :: "segment list"
  rt_guards :: "guard list"
  rt_handler :: string

definition path_segments :: "string \<Rightarrow> string list" where
  "path_segments path = split_char (CHR 0x2F) path"

text \<open>A segment in braces stands for any text without a slash that is not empty.\<close>

definition segment_of :: "string \<Rightarrow> segment" where
  "segment_of s = (case s of c # _ \<Rightarrow> (if c = CHR 0x7B then Param else Lit s) | [] \<Rightarrow> Lit s)"

definition route_at :: "string \<Rightarrow> guard list \<Rightarrow> string \<times> string \<times> guard list \<times> string \<Rightarrow> route" where
  "route_at prefix common r = (case r of (http_method, path, guards, handler) \<Rightarrow>
     \<lparr>rt_method = http_method, rt_template = map segment_of (path_segments (prefix @ path)),
      rt_guards = common @ guards, rt_handler = handler\<rparr>)"

fun path_matches :: "segment list \<Rightarrow> string list \<Rightarrow> bool" where
  "path_matches [] [] = True"
| "path_matches (Lit s # ts) (p # ps) = (p = s \<and> path_matches ts ps)"
| "path_matches (Param # ts) (p # ps) = (p \<noteq> [] \<and> path_matches ts ps)"
| "path_matches _ _ = False"

section \<open>The routers\<close>

definition ai_routes :: "route list" where
  "ai_routes = map (route_at ''/api/v1/ai'' [])
     [(''POST'', ''/request'', [Kong_Header, Bearer_User], ''submit_ai_request'')]"

definition intent_mapping_routes :: "route list" where
  "intent_mapping_routes = map (route_at ''/api/v1/admin/intent-mappings'' [])
     [(''GET'', [], [Kong_Header, Bearer_User], ''list_mappings''),
      (''GET'', ''/{mapping_id}'', [Kong_Header, Bearer_User], ''get_mapping''),
      (''POST'', [], [Kong_Header, Bearer_User, Admin_Role], ''create_mapping''),
      (''PUT'', ''/{mapping_id}'', [Kong_Header, Bearer_User, Admin_Role], ''update_mapping''),
      (''DELETE'', ''/{mapping_id}'', [Kong_Header, Bearer_User, Admin_Role], ''delete_mapping''),
      (''POST'', ''/reload'', [Kong_Header, Admin_Role, Bearer_User], ''reload_cache'')]"

definition service_routes :: "route list" where
  "service_routes = map (route_at ''/api/v1/service-governance'' [])
     [(''GET'', [], [Kong_Header, Bearer_User, Admin_Role], ''get_services''),
      (''PATCH'', ''/{service_id}'', [Kong_Header, Bearer_User, Admin_Role], ''update_service'')]"

definition policy_routes :: "route list" where
  "policy_routes = map (route_at ''/api/v1/admin/policies'' [])
     [(''GET'', [], [Kong_Header, Bearer_User, Admin_Role], ''list_governance_policies''),
      (''GET'', ''/status'', [Kong_Header, Admin_Role], ''policy_sync_status''),
      (''GET'', ''/{policy_id}'', [Kong_Header, Bearer_User, Admin_Role], ''get_governance_policy''),
      (''POST'', [], [Kong_Header, Bearer_User, Admin_Role], ''create_governance_policy''),
      (''PUT'', ''/{policy_id}'', [Kong_Header, Bearer_User, Admin_Role], ''update_governance_policy''),
      (''DELETE'', ''/{policy_id}'', [Kong_Header, Bearer_User, Admin_Role], ''delete_governance_policy''),
      (''POST'', ''/reload'', [Kong_Header, Admin_Role], ''reload_policies'')]"

definition metrics_routes :: "route list" where
  "metrics_routes = map (route_at ''/api/v1/admin/metrics'' [Kong_Header, Bearer_User])
     [(''GET'', [], [Bearer_User], ''get_dashboard_metrics'')]"

definition pattern_routes :: "route list" where
  "pattern_routes = map (route_at ''/api/v1/admin/security-patterns'' [Kong_Header])
     [(''GET'', [], [Bearer_User], ''list_patterns''), (''POST'', [], [Bearer_User], ''create_pattern''),
      (''DELETE'', ''/{pattern_id}'', [Bearer_User], ''delete_pattern''),
      (''POST'', ''/reload'', [Bearer_User], ''reload_patterns'')]"

definition gateway_routes :: "route list" where
  "gateway_routes = map (route_at ''/api/v1/admin/gateway'' [Kong_Header])
     [(''GET'', ''/routes'', [], ''list_routes''), (''GET'', ''/plugins'', [], ''list_plugins''),
      (''POST'', ''/plugins'', [], ''apply_plugin''), (''PATCH'', ''/plugins/{plugin_id}'', [], ''update_plugin''),
      (''DELETE'', ''/plugins/{plugin_id}'', [], ''delete_plugin''), (''GET'', ''/plugin-catalog'', [], ''get_plugin_catalog''),
      (''GET'', ''/route-discovery'', [], ''route_discovery''), (''POST'', ''/auto-register'', [], ''auto_register'')]"

definition quota_routes :: "route list" where
  "quota_routes = map (route_at ''/api/v1/admin/quotas'' [Kong_Header, Bearer_User])
     [(''GET'', [], [], ''get_all_quotas''), (''PUT'', ''/{tenant_id}'', [], ''update_tenant_quota'')]"

definition security_event_routes :: "route list" where
  "security_event_routes = map (route_at ''/api/v1/admin/security'' [Kong_Header, Bearer_User])
     [(''GET'', ''/events'', [Bearer_User], ''list_security_events''), (''GET'', ''/score'', [Bearer_User], ''get_security_score'')]"

definition governance_routes :: "route list" where
  "governance_routes = map (route_at ''/api/v1/governance'' [])
     [(''GET'', ''/quota-status'', [Kong_Header, Bearer_User], ''get_quota_status'')]"

definition log_retention_routes :: "route list" where
  "log_retention_routes = map (route_at ''/api/v1/admin/log-retention'' [Kong_Header])
     [(''GET'', ''/table-stats'', [], ''get_table_stats''), (''GET'', ''/policy'', [], ''get_retention_policy''),
      (''POST'', ''/cleanup'', [], ''run_cleanup'')]"

definition health_routes :: "route list" where
  "health_routes = map (route_at ''/api'' []) [(''GET'', ''/health'', [], ''health_check'')]"

definition example_routes :: "route list" where
  "example_routes = map (route_at [] [])
     [(''GET'', ''/'', [], ''root''), (''GET'', ''/api/'', [], ''api_root''),
      (''GET'', ''/api/documents'', [Kong_Header, Bearer_User], ''get_documents''),
      (''GET'', ''/api/admin'', [Kong_Header, Bearer_User], ''get_admin'')]"

definition app_routes :: "route list" where
  "app_routes = ai_routes @ intent_mapping_routes @ service_routes @ policy_routes @ metrics_routes @ pattern_routes
     @ gateway_routes @ quota_routes @ security_event_routes @ governance_routes @ log_retention_routes
     @ health_routes @ example_routes"

section \<open>Answering a call\<close>

datatype dispatched = To_Route route | Method_Not_Allowed | Redirect_Slash | Not_Found

definition other_slash :: "string \<Rightarrow> string" where
  "other_slash path = (if path \<noteq> [] \<and> last path = CHR 0x2F then rstrip_char (CHR 0x2F) path else path @ ''/'')"

definition dispatch :: "route list \<Rightarrow> string \<Rightarrow> string \<Rightarrow> dispatched" where
  "dispatch routes http_method path =
     (case find (\<lambda>r. rt_method r = http_method \<and> path_matches (rt_template r) (path_segments path)) routes of
        Some r \<Rightarrow> To_Route r
      | None \<Rightarrow>
          (if list_ex (\<lambda>r. path_matches (rt_template r) (path_segments path)) routes then Method_Not_Allowed
           else if path \<noteq> ''/'' \<and> list_ex (\<lambda>r. path_matches (rt_template r) (path_segments (other_slash path))) routes
             then Redirect_Slash
           else Not_Found))"

text \<open>The user is looked up once per call.\<close>

definition the_user :: "edge \<Rightarrow> call \<Rightarrow> user_claims option \<Rightarrow> json option \<Rightarrow> json option \<times> (exn + user_claims)" where
  "the_user ed c known jwks_cache =
     (case known of
        Some u \<Rightarrow> (jwks_cache, Inr u)
      | None \<Rightarrow>
          (case call_token c of
             Inl e \<Rightarrow> (jwks_cache, Inl e)
           | Inr token \<Rightarrow> get_current_user (edge_exc_text ed) (edge_fetched ed) (edge_jwt ed) token jwks_cache))"

fun admit :: "edge \<Rightarrow> call \<Rightarrow> guard list \<Rightarrow> user_claims option \<Rightarrow> json option
    \<Rightarrow> json option \<times> (exn + user_claims option)" where
  "admit ed c [] known k = (k, Inr known)"
| "admit ed c (Kong_Header # gs) known k =
     (case verify_kong_header (edge_kong_value ed) (call_method c) (call_kong_header c) of
        Inl e \<Rightarrow> (k, Inl e) | Inr _ \<Rightarrow> admit ed c gs known k)"
| "admit ed c (Bearer_User # gs) known k =
     (case the_user ed c known k of
        (k', Inl e) \<Rightarrow> (k', Inl e) | (k', Inr u) \<Rightarrow> admit ed c gs (Some u) k')"
| "admit ed c (Admin_Role # gs) known k =
     (case the_user ed c known k of
        (k', Inl e) \<Rightarrow> (k', Inl e)
      | (k', Inr u) \<Rightarrow> (case require_admin u of Inl e \<Rightarrow> (k', Inl e) | Inr _ \<Rightarrow> admit ed c gs (Some u) k'))"

datatype 'a reply = Handled "exn + 'a" | Redirected string

text \<open>A call, with what the handlers do to the state \<open>d\<close>.\<close>

definition receive :: "edge \<Rightarrow> (route \<Rightarrow> string list \<Rightarrow> user_claims option \<Rightarrow> 'd \<Rightarrow> 'd \<times> (exn + 'a)) \<Rightarrow> call \<Rightarrow> string
    \<Rightarrow> json option \<Rightarrow> 'd \<Rightarrow> json option \<times> 'd \<times> 'a reply" where
  "receive ed handlers c path k d =
     (case dispatch app_routes (call_method c) path of
        Not_Found \<Rightarrow> (k, d, Handled (Inl (HTTPException 404 (JStr ''Not Found''))))
      | Method_Not_Allowed \<Rightarrow> (k, d, Handled (Inl (HTTPException 405 (JStr ''Method Not Allowed''))))
      | Redirect_Slash \<Rightarrow> (k, d, Redirected (other_slash path))
      | To_Route r \<Rightarrow>
          (case admit ed c (rt_guards r) None k of
             (k', Inl e) \<Rightarrow> (k', d, Handled (Inl e))
           | (k', Inr u) \<Rightarrow> (case handlers r (path_segments path) u d of (d', x) \<Rightarrow> (k', d', Handled x))))"

section \<open>What the guards establish\<close>

definition verified :: "edge \<Rightarrow> call \<Rightarrow> json option \<Rightarrow> user_claims \<Rightarrow> bool" where
  "verified ed c k u = (\<exists>token k'. call_token c = Inr token
     \<and> get_current_user (edge_exc_text ed) (edge_fetched ed) (edge_jwt ed) token k = (k', Inr u))"

lemma the_user_verified: "the_user ed c None k = (k', Inr u) \<Longrightarrow> verified ed c k u"
  by (auto simp: the_user_def verified_def split: sum.splits)

lemma admit_known:
  "admit ed c gs (Some u) k = (k', Inr v) \<Longrightarrow> v = Some u \<and> (Admin_Role \<in> set gs \<longrightarrow> ''admin'' \<in> set (claim_roles u))
   \<and> (Kong_Header \<in> set gs \<longrightarrow> verify_kong_header (edge_kong_value ed) (call_method c) (call_kong_header c) = Inr ())"
proof (induction gs arbitrary: k)
  case (Cons g gs)
  then show ?case by (cases g) (auto simp: the_user_def require_admin_def split: sum.splits if_splits)
qed simp

lemma admit_Inr:
  "admit ed c gs None k = (k', Inr v) \<Longrightarrow>
     (Kong_Header \<in> set gs \<longrightarrow> verify_kong_header (edge_kong_value ed) (call_method c) (call_kong_header c) = Inr ())
   \<and> (Bearer_User \<in> set gs \<or> Admin_Role \<in> set gs \<longrightarrow> (\<exists>u. v = Some u \<and> verified ed c k u
        \<and> (Admin_Role \<in> set gs \<longrightarrow> ''admin'' \<in> set (claim_roles u))))"
proof (induction gs arbitrary: k)
  case (Cons g gs)
  show ?case
  proof (cases g)
    case Kong_Header
    with Cons show ?thesis by (auto split: sum.splits)
  next
    case Bearer_User
    then obtain k1 u where "the_user ed c None k = (k1, Inr u)" "admit ed c gs (Some u) k1 = (k', Inr v)"
      using Cons.prems by (auto split: prod.splits sum.splits)
    from the_user_verified [OF this(1)] admit_known [OF this(2)] Bearer_User show ?thesis by auto
  next
    case Admin_Role
    then obtain k1 u where "the_user ed c None k = (k1, Inr u)" "''admin'' \<in> set (claim_roles u)"
        "admit ed c gs (Some u) k1 = (k', Inr v)"
      using Cons.prems by (auto simp: require_admin_def split: prod.splits sum.splits if_splits)
    from the_user_verified [OF this(1)] admit_known [OF this(3)] this(2) Admin_Role show ?thesis by auto
  qed
qed simp

section \<open>Areas of the API\<close>

definition under :: "string \<Rightarrow> string \<Rightarrow> bool" where
  "under area path = (take (length (path_segments area)) (path_segments path) = path_segments area)"

definition open_paths :: "string list" where
  "open_paths = [''/'', ''/api/'', ''/api/health'']"

text \<open>The areas only administrators change, and those that ask for no user.\<close>

definition admin_areas :: "string list" where
  "admin_areas = [''/api/v1/admin/policies'', ''/api/v1/service-governance'', ''/api/v1/admin/intent-mappings'']"

definition userless_areas :: "string list" where
  "userless_areas = [''/api/v1/admin/gateway'', ''/api/v1/admin/log-retention'']"

fun fits_prefix :: "segment list \<Rightarrow> string list \<Rightarrow> bool" where
  "fits_prefix ts [] = True"
| "fits_prefix (Lit s # ts) (p # ps) = (s = p \<and> fits_prefix ts ps)"
| "fits_prefix (Param # ts) (p # ps) = fits_prefix ts ps"
| "fits_prefix [] (p # ps) = False"

definition literal_prefix :: "segment list \<Rightarrow> string list \<Rightarrow> bool" where
  "literal_prefix ts ps = (take (length ps) ts = map Lit ps)"

lemma path_matches_fits: "path_matches ts segs \<Longrightarrow> take (length ps) segs = ps \<Longrightarrow> fits_prefix ts ps"
proof (induction ts ps arbitrary: segs rule: fits_prefix.induct)
  case (2 s ts p ps)
  then show ?case by (cases segs) auto
next
  case (3 ts p ps)
  then show ?case by (cases segs) auto
next
  case (4 p ps)
  then show ?case by (cases segs) auto
qed simp

lemma path_matches_literal: "path_matches ts segs \<Longrightarrow> literal_prefix ts ps \<Longrightarrow> take (length ps) segs = ps"
  unfolding literal_prefix_def
proof (induction ps arbitrary: ts segs)
  case (Cons p ps)
  then obtain ts' where "ts = Lit p # ts'" "take (length ps) ts' = map Lit ps" by (cases ts) auto
  with Cons show ?case by (cases segs) auto
qed simp

lemma path_matches_all_literal: "path_matches (map Lit ps) segs \<Longrightarrow> segs = ps"
proof (induction ps arbitrary: segs)
  case Nil
  then show ?case by (cases segs) auto
next
  case (Cons p ps)
  then show ?case by (cases segs) auto
qed

lemma path_segments_inj: "path_segments p = path_segments q \<Longrightarrow> p = q"
  unfolding path_segments_def by (metis join_split_char)

text \<open>What the declarations say, route by route.\<close>

definition well_guarded :: "route \<Rightarrow> bool" where
  "well_guarded r \<longleftrightarrow> rt_method r \<noteq> ''OPTIONS''
     \<and> (Kong_Header \<in> set (rt_guards r) \<or> list_ex (\<lambda>p. rt_template r = map Lit (path_segments p)) open_paths)
     \<and> (Bearer_User \<in> set (rt_guards r) \<or> Admin_Role \<in> set (rt_guards r)
        \<or> list_ex (\<lambda>p. rt_template r = map Lit (path_segments p)) open_paths
        \<or> list_ex (\<lambda>a. literal_prefix (rt_template r) (path_segments a)) userless_areas)
     \<and> (list_ex (\<lambda>a. fits_prefix (rt_template r) (path_segments a)) admin_areas \<and> rt_method r \<noteq> ''GET''
        \<longrightarrow> Admin_Role \<in> set (rt_guards r))"

lemma routes_well_guarded: "list_all well_guarded app_routes"
  by code_simp

lemma dispatch_To_Route:
  "dispatch routes m path = To_Route r \<Longrightarrow> r \<in> set routes \<and> rt_method r = m \<and> path_matches (rt_template r) (path_segments path)"
  by (auto simp: dispatch_def find_Some_iff split: option.splits if_splits)


section \<open>Single routes\<close>

text \<open>No route is hidden by an earlier one: each is found for its own template, filled with texts.\<close>

definition sample_path :: "route \<Rightarrow> string" where
  "sample_path r = join_str ''/'' (map (\<lambda>s. case s of Lit t \<Rightarrow> t | Param \<Rightarrow> ''x'') (rt_template r))"

lemma no_route_is_hidden: "list_all (\<lambda>r. dispatch app_routes (rt_method r) (sample_path r) = To_Route r) app_routes"
  by code_simp

text \<open>The guarded endpoints of theory Access are what a call to their path runs.\<close>

lemma segments_under:
  assumes "CHR 0x2F \<notin> set i"
  shows "path_segments (''/api/v1/admin/intent-mappings/'' @ i) = [[], ''api'', ''v1'', ''admin'', ''intent-mappings'', i]"
proof -
  have "''/api/v1/admin/intent-mappings/'' @ i = join_str ''/'' [[], ''api'', ''v1'', ''admin'', ''intent-mappings'', i]"
    by simp
  with assms show ?thesis unfolding path_segments_def by (simp only: split_join_char [where sep = "CHR 0x2F"])
    (simp add: split_char_no_sep)
qed

lemma dispatch_delete_mapping:
  assumes "CHR 0x2F \<notin> set i" and "i \<noteq> []"
  shows "dispatch app_routes ''DELETE'' (''/api/v1/admin/intent-mappings/'' @ i) = To_Route
    \<lparr>rt_method = ''DELETE'', rt_template = [Lit [], Lit ''api'', Lit ''v1'', Lit ''admin'', Lit ''intent-mappings'', Param],
     rt_guards = [Kong_Header, Bearer_User, Admin_Role], rt_handler = ''delete_mapping''\<rparr>"
  unfolding dispatch_def segments_under [OF assms(1)] using assms(2)
  by (simp add: app_routes_def ai_routes_def intent_mapping_routes_def route_at_def segment_of_def path_segments_def)

lemma received_by_admin:
  assumes "dispatch app_routes (call_method c) path = To_Route r"
    and "rt_guards r = [Kong_Header, Bearer_User, Admin_Role]"
    and "\<And>u d. handlers r (path_segments path) (Some u) d = h u d"
  shows "receive ed handlers c path k d = (case as_admin ed c h k d of (k', d', x) \<Rightarrow> (k', d', Handled x))"
  by (simp add: receive_def assms as_admin_def as_user_def the_user_def require_admin_def split: sum.split prod.split)

lemma delete_mapping_is_received:
  assumes "CHR 0x2F \<notin> set i" and "i \<noteq> []" and "call_method c = ''DELETE''"
    and "\<And>r segs u d. rt_handler r = ''delete_mapping'' \<Longrightarrow> handlers r segs (Some u) d = delete_mapping_endpoint (last segs) u d"
  shows "receive ed handlers c (''/api/v1/admin/intent-mappings/'' @ i) k db =
    (case delete_mapping_route ed c i k db of (k', db', x) \<Rightarrow> (k', db', Handled x))"
  unfolding delete_mapping_route_def
  by (rule received_by_admin [OF dispatch_delete_mapping [OF assms(1,2), folded assms(3)]])
    (simp_all only: route.simps assms(4) segments_under [OF assms(1)] last.simps list.simps if_True if_False simp_thms)

text \<open>The plugins of Kong are open to every call that came through Kong: its handler runs without a user.\<close>

lemma gateway_asks_for_no_user:
  assumes "verify_kong_header (edge_kong_value ed) ''POST'' (call_kong_header c) = Inr ()" and "call_method c = ''POST''"
  shows "\<exists>r. rt_handler r = ''apply_plugin'' \<and> receive ed handlers c ''/api/v1/admin/gateway/plugins'' k d =
    (case handlers r (path_segments ''/api/v1/admin/gateway/plugins'') None d of (d', x) \<Rightarrow> (k, d', Handled x))"
proof -
  define r where "r = route_at ''/api/v1/admin/gateway'' [Kong_Header] (''POST'', ''/plugins'', [], ''apply_plugin'')"
  have "dispatch app_routes ''POST'' ''/api/v1/admin/gateway/plugins'' = To_Route r" unfolding r_def by code_simp
  moreover have "rt_guards r = [Kong_Header]" "rt_handler r = ''apply_plugin''" by (simp_all add: r_def route_at_def)
  ultimately have "receive ed handlers c ''/api/v1/admin/gateway/plugins'' k d =
      (case handlers r (path_segments ''/api/v1/admin/gateway/plugins'') None d of (d', x) \<Rightarrow> (k, d', Handled x))"
    using assms by (simp add: receive_def)
  with \<open>rt_handler r = ''apply_plugin''\<close> show ?thesis by blast
qed

section \<open>Witness\<close>

definition sample_handlers :: "route \<Rightarrow> string list \<Rightarrow> user_claims option \<Rightarrow> database \<Rightarrow> database \<times> (exn + intent_routing)" where
  "sample_handlers r segs u db =
     (case u of
        Some v \<Rightarrow> if rt_handler r = ''delete_mapping'' then delete_mapping_endpoint (last segs) v db else (db, Inl (Runtime ValueError))
      | None \<Rightarrow> (db, Inl (Runtime ValueError)))"


end
