(* ===== verification/Lru_Cache.thy ===== *)
theory Lru_Cache
  imports Prelude "HOL-Library.While_Combinator"
begin

text \<open>
  The in-process cache of the classifier service (the \<open>OrderedDict\<close> of \<open>ClassificationCache\<close>
  in src/intent\_classifier\_service/app/cache\_layer.py): lookup with \<open>move_to_end\<close>, insertion
  with eviction from the front, and the proof that it keeps exactly the most recently used keys.
  An \<open>OrderedDict\<close> is the list of its items in order.
\<close>

definition move_to_end :: "('k \<times> 'v) list \<Rightarrow> 'k \<Rightarrow> ('k \<times> 'v) list" where
  "move_to_end d k = (case dict_get d k of None \<Rightarrow> d | Some v \<Rightarrow> dict_del d k @ [(k, v)])"

definition lru_get :: "'k \<Rightarrow> ('k \<times> 'v) list \<Rightarrow> ('k \<times> 'v) list \<times> 'v option" where
  "lru_get k d = (case dict_get d k of None \<Rightarrow> (d, None) | Some v \<Rightarrow> (move_to_end d k, Some v))"

text \<open>\<open>while len(d) > m: d.popitem(last=False)\<close>.\<close>

function shrink :: "nat \<Rightarrow> ('k \<times> 'v) list \<Rightarrow> ('k \<times> 'v) list" where
  "shrink m d = (if m < length d then shrink m (tl d) else d)"
  by pat_completeness auto

termination
  by (relation "measure (\<lambda>(m, d). length d)") auto

declare shrink.simps [simp del]

definition lru_set :: "nat \<Rightarrow> 'k \<Rightarrow> 'v \<Rightarrow> ('k \<times> 'v) list \<Rightarrow> ('k \<times> 'v) list" where
  "lru_set m k v d = shrink m (move_to_end (dict_set d k v) k)"

section \<open>The operations as list functions\<close>

lemma shrink_take_last: "shrink m d = take_last m d"
proof (induction m d rule: shrink.induct)
  case (1 m d)
  show ?case
  proof (cases "m < length d")
    case True
    then obtain p e where d: "d = p # e" by (cases d) auto
    from True have "shrink m d = shrink m (tl d)" by (subst shrink.simps) simp
    with 1 True show ?thesis by (simp add: d take_last_def Suc_diff_le)
  qed (simp add: shrink.simps [of m d] take_last_def)
qed

lemma dict_del_set: "dict_del (dict_set d k v) k = dict_del d k"
  unfolding dict_del_def by (induction d k v rule: dict_set.induct) auto

lemma lru_set_eq: "lru_set m k v d = take_last m (dict_del d k @ [(k, v)])"
  by (simp add: lru_set_def shrink_take_last move_to_end_def dict_get_set dict_del_set)

lemma map_take_last: "map f (take_last m xs) = take_last m (map f xs)"
  by (simp add: take_last_def drop_map)

lemma keys_dict_del: "map fst (dict_del d k) = filter (\<lambda>x. x \<noteq> k) (map fst d)"
  unfolding dict_del_def by (induction d) auto

lemma keys_lru_set: "map fst (lru_set m k v d) = take_last m (filter (\<lambda>x. x \<noteq> k) (map fst d) @ [k])"
  by (simp add: lru_set_eq map_take_last keys_dict_del)

lemma keys_lru_get:
  "map fst (fst (lru_get k d)) = (if k \<in> set (map fst d) then filter (\<lambda>x. x \<noteq> k) (map fst d) @ [k] else map fst d)"
proof (cases "dict_get d k")
  case None
  then have "k \<notin> set (map fst d)" by (simp add: dict_get_None_iff)
  with None show ?thesis by (simp add: lru_get_def)
next
  case (Some v)
  then have "k \<in> set (map fst d)" by (metis dict_get_None_iff list.set_map option.distinct(1))
  with Some show ?thesis by (simp add: lru_get_def move_to_end_def keys_dict_del)
qed

lemma dict_get_suffix:
  assumes "distinct (map fst d)" and "dict_get (drop n d) k = Some v"
  shows "dict_get d k = Some v"
proof -
  have "(k, v) \<in> set d" using dict_get_Some_in [OF assms(2)] by (rule in_set_dropD)
  with assms(1) show ?thesis by (simp add: dict_get_map_of)
qed

lemma lru_set_get [simp]: "0 < m \<Longrightarrow> dict_get (lru_set m k v d) k = Some v"
proof -
  assume "0 < m"
  define e where "e = dict_del d k"
  have "take_last m (e @ [(k, v)]) = take_last (m - 1) e @ [(k, v)]"
    using \<open>0 < m\<close> by (simp add: take_last_def)
  moreover have "k \<notin> fst ` set (take_last (m - 1) e)"
    using set_keys_dict_del [of d k] set_drop_subset [of _ e] by (force simp: e_def take_last_def)
  then have "dict_get (take_last (m - 1) e) k = None" by (simp add: dict_get_None_iff)
  ultimately show ?thesis by (simp add: lru_set_eq e_def [symmetric] dict_get_append)
qed

lemma distinct_lru_set:
  "distinct (map fst d) \<Longrightarrow> distinct (map fst (lru_set m k v d))"
  unfolding keys_lru_set take_last_def by (rule distinct_drop) simp

lemma lru_set_subset: "set (lru_set m k v d) \<subseteq> insert (k, v) (set d)"
proof -
  have "set (lru_set m k v d) \<subseteq> set (dict_del d k @ [(k, v)])"
    unfolding lru_set_eq take_last_def by (rule set_drop_subset)
  also have "\<dots> \<subseteq> insert (k, v) (set d)" by (auto simp: dict_del_def)
  finally show ?thesis .
qed

lemma lru_get_subset: "set (fst (lru_get k d)) \<subseteq> set d"
  by (auto simp: lru_get_def move_to_end_def dict_del_def split: option.splits dest: dict_get_Some_in)

lemma length_filter_neq:
  "distinct ks \<Longrightarrow> k \<in> set ks \<Longrightarrow> Suc (length (filter (\<lambda>x. x \<noteq> k) ks)) = length ks"
proof (induction ks)
  case (Cons a ks)
  have "filter (\<lambda>x. x \<noteq> k) ks = ks" if "k \<notin> set ks" using that by (intro filter_True) auto
  with Cons show ?case by auto
qed simp

lemma lru_get_shape:
  assumes "distinct (map fst d)"
  shows "distinct (map fst (fst (lru_get k d))) \<and> length (fst (lru_get k d)) = length d"
proof -
  have "length (map fst (fst (lru_get k d))) = length (map fst d)"
    using length_filter_neq [OF assms, of k] by (simp only: keys_lru_get) simp
  moreover have "distinct (map fst (fst (lru_get k d)))" using assms by (simp add: keys_lru_get)
  ultimately show ?thesis by (simp only: length_map)
qed

section \<open>Sequences of operations\<close>

datatype ('k, 'v) lru_op = Lru_Set 'k 'v | Lru_Get 'k

fun lru_step :: "nat \<Rightarrow> ('k, 'v) lru_op \<Rightarrow> ('k \<times> 'v) list \<Rightarrow> ('k \<times> 'v) list" where
  "lru_step m (Lru_Set k v) d = lru_set m k v d"
| "lru_step m (Lru_Get k) d = fst (lru_get k d)"

text \<open>The keys in the order of their uses: a lookup that misses is no use.\<close>

fun lru_uses :: "nat \<Rightarrow> ('k, 'v) lru_op list \<Rightarrow> ('k \<times> 'v) list \<Rightarrow> 'k list" where
  "lru_uses m [] d = []"
| "lru_uses m (Lru_Set k v # ops) d = k # lru_uses m ops (lru_set m k v d)"
| "lru_uses m (Lru_Get k # ops) d =
     (if k \<in> set (map fst d) then [k] else []) @ lru_uses m ops (fst (lru_get k d))"

lemma remdups_snoc: "remdups (xs @ [k]) = filter (\<lambda>x. x \<noteq> k) (remdups xs) @ [k]"
  by (induction xs) auto

lemma take_last_use:
  assumes "distinct xs" and "0 < m"
  shows "take_last m (filter (\<lambda>x. x \<noteq> k) xs @ [k]) = take_last m (filter (\<lambda>x. x \<noteq> k) (take_last m xs) @ [k])"
proof -
  define n where "n = length xs - m"
  define a b where "a = filter (\<lambda>x. x \<noteq> k) (take n xs)" and "b = filter (\<lambda>x. x \<noteq> k) (drop n xs)"
  have f: "filter (\<lambda>x. x \<noteq> k) xs = a @ b" by (simp add: a_def b_def flip: filter_append)
  have "take_last (m - 1) (a @ b) = take_last (m - 1) b"
  proof (cases "n = 0")
    case True
    then have "a = []" by (simp add: a_def)
    then show ?thesis by simp
  next
    case False
    then have len: "length (drop n xs) = m" by (simp add: n_def)
    have "m - 1 \<le> length b"
    proof (cases "k \<in> set (drop n xs)")
      case True
      have "filter (\<lambda>x. x = k) ys = [k]" if "distinct ys" "k \<in> set ys" for ys
        using that by (induction ys) (auto simp: filter_empty_conv)
      from this [OF distinct_drop [OF assms(1)] True] have "length (filter (\<lambda>x. x = k) (drop n xs)) = 1" by simp
      moreover have "length (filter (\<lambda>x. x = k) (drop n xs)) + length b = m"
        unfolding b_def using sum_length_filter_compl [of "\<lambda>x. x = k" "drop n xs"] len by simp
      ultimately show ?thesis by simp
    next
      case False
      then have "b = drop n xs" unfolding b_def by (intro filter_True) auto
      with len show ?thesis by simp
    qed
    then show ?thesis by (simp add: take_last_def)
  qed
  then show ?thesis using assms(2) by (simp add: f b_def n_def take_last_def)
qed

lemma lru_run:
  assumes "map fst d = take_last m (remdups h)" and "0 < m"
  shows "map fst (fold (lru_step m) ops d) = take_last m (remdups (h @ lru_uses m ops d))"
  using assms(1)
proof (induction ops arbitrary: d h)
  case Nil
  then show ?case by simp
next
  case (Cons p ops)
  have use: "take_last m (remdups (h @ [k])) = take_last m (filter (\<lambda>x. x \<noteq> k) (map fst d) @ [k])" for k
    using take_last_use [OF distinct_remdups \<open>0 < m\<close>] Cons.prems by (simp add: remdups_snoc)
  show ?case
  proof (cases p)
    case (Lru_Set k v)
    have "map fst (lru_set m k v d) = take_last m (remdups (h @ [k]))" by (simp add: keys_lru_set use)
    from Cons.IH [OF this] Lru_Set show ?thesis by simp
  next
    case (Lru_Get k)
    show ?thesis
    proof (cases "k \<in> set (map fst d)")
      case False
      with Cons.prems have "map fst (fst (lru_get k d)) = take_last m (remdups h)" by (simp add: keys_lru_get)
      from Cons.IH [OF this] Lru_Get False show ?thesis by simp
    next
      case True
      have "distinct (map fst d)" using Cons.prems by (simp add: take_last_def distinct_drop)
      then have "length (filter (\<lambda>x. x \<noteq> k) (map fst d)) < length (map fst d)"
        using True by (intro length_filter_less [of k]) auto
      moreover have "length (map fst d) \<le> m" using Cons.prems by simp
      ultimately have "take_last m (filter (\<lambda>x. x \<noteq> k) (map fst d) @ [k]) = filter (\<lambda>x. x \<noteq> k) (map fst d) @ [k]"
        by (simp add: take_last_def)
      with True use have "map fst (fst (lru_get k d)) = take_last m (remdups (h @ [k]))" by (simp add: keys_lru_get)
      from Cons.IH [OF this] Lru_Get True show ?thesis by simp
    qed
  qed
qed

text \<open>C40. Eviction terminates: the loop that drops the oldest entry while there are more than the limit
  returns for every cache and every limit, 0 included; what it leaves is the newest entries up to
  the limit, in their order, and nothing is dropped when there is room.\<close>

theorem eviction_terminates:
  "while_option (\<lambda>d. m < length d) tl d = Some (shrink m d)
   \<and> length (shrink m d) = min m (length d) \<and> (\<exists>old. d = old @ shrink m d)"
proof -
  have "while_option (\<lambda>d. m < length d) tl d = Some (shrink m d)"
  proof (induction m d rule: shrink.induct)
    case (1 m d)
    then show ?case by (subst while_option_unfold) (simp add: shrink.simps [of m d])
  qed
  moreover have "d = take (length d - m) d @ shrink m d" by (simp add: shrink_take_last take_last_def)
  then have "\<exists>old. d = old @ shrink m d" by blast
  moreover have "length (shrink m d) = min m (length d)" by (simp add: shrink_take_last take_last_def)
  ultimately show ?thesis by blast
qed

text \<open>C35. The cache keeps the most recently used keys: after any sequence of insertions and lookups
  its keys, from the oldest to the newest, are the last \<open>m\<close> different keys used, where a use is
  an insertion or a lookup that hits; so it never holds more than \<open>m\<close> entries.\<close>

theorem lru_keeps_most_recent:
  assumes "0 < m"
  shows "map fst (fold (lru_step m) ops []) = take_last m (remdups (lru_uses m ops []))"
  using lru_run [of "[]" m "[]" ops] assms by (simp add: take_last_def)

theorem lru_keeps_most_recent_witness:
  "map fst (fold (lru_step 2) [Lru_Set ''a'' (1 :: nat), Lru_Set ''b'' 2, Lru_Get ''a'', Lru_Set ''c'' 3] [])
     = [''a'', ''c'']"
  using lru_keeps_most_recent [of 2 "[Lru_Set ''a'' (1 :: nat), Lru_Set ''b'' 2, Lru_Get ''a'', Lru_Set ''c'' 3]"]
  by (simp add: lru_set_eq dict_del_def take_last_def)

end
