(* ===== verification/Classifier_Service.thy ===== *)
theory Classifier_Service
  imports Lru_Cache Intent_Classification Py_Hash
begin

text \<open>
  The classifier service (src/intent\_classifier\_service/app): its taxonomy (taxonomy.py), the call
  of the language model (llm\_classifier.py), the two-level cache of answers (cache\_layer.py) and the
  endpoint \<open>/classify\<close> (main.py). Parameters: the HTTP exchange with the model, one outcome per
  attempt; Redis, with the reading and writing of a stored answer (JSON and pydantic);
  \<open>json.loads\<close>; \<open>float\<close> of a text and \<open>repr\<close> of a float. Asking the model is modelled as a
  function of the text, so that a program point is one call.
\<close>

section \<open>The taxonomy\<close>

record taxonomy =
  tn_version :: string
  tn_confidence_threshold :: rat
  tn_candidate_labels :: "json list"
  tn_nli_phrases :: "string list"
  tn_hypothesis_template :: string

text \<open>\<open>dict(v or {})\<close> of a decoded value: a mapping, or a list of pairs with text keys.\<close>

definition pair_of :: "json \<Rightarrow> (string \<times> json) option" where
  "pair_of v = (case v of JArr [JStr k, x] \<Rightarrow> Some (k, x) | JStr [a, b] \<Rightarrow> Some ([a], JStr [b]) | _ \<Rightarrow> None)"

definition dict_or_empty :: "json option \<Rightarrow> (string \<times> json) list py" where
  "dict_or_empty v = (case v of
     None \<Rightarrow> Inr []
   | Some w \<Rightarrow> (if \<not> truthy w then Inr [] else case w of
         JObj d \<Rightarrow> Inr d
       | JArr xs \<Rightarrow> (if list_all (\<lambda>x. pair_of x \<noteq> None) xs
           then Inr (foldl (\<lambda>d (k, x). dict_set d k x) [] (map (the \<circ> pair_of) xs)) else Inl ValueError)
       | JStr s \<Rightarrow> Inl ValueError
       | _ \<Rightarrow> Inl TypeError))"

definition phrase_of :: "(string \<times> json) list \<Rightarrow> json \<Rightarrow> string py" where
  "phrase_of hypotheses lab =
     (case (case lab of JStr l \<Rightarrow> dict_get hypotheses l | _ \<Rightarrow> None) of
        Some (JStr ph) \<Rightarrow> (if strip ph \<noteq> [] then Inr (strip ph)
          else (case lab of JStr l \<Rightarrow> Inr (replace_char (CHR ''_'') '' '' l) | _ \<Rightarrow> Inl AttributeError))
      | _ \<Rightarrow> (case lab of JStr l \<Rightarrow> Inr (replace_char (CHR ''_'') '' '' l) | _ \<Rightarrow> Inl AttributeError))"

fun phrases_of :: "(string \<times> json) list \<Rightarrow> json list \<Rightarrow> string list py" where
  "phrases_of hypotheses [] = Inr []"
| "phrases_of hypotheses (lab # labs) =
     (case phrase_of hypotheses lab of
        Inl e \<Rightarrow> Inl e
      | Inr ph \<Rightarrow> (case phrases_of hypotheses labs of Inl e \<Rightarrow> Inl e | Inr phs \<Rightarrow> Inr (ph # phs)))"

definition default_template :: string where
  "default_template = ''The user is mainly looking for {}.''"

text \<open>\<open>load_taxonomy\<close> on the decoded document (\<open>yaml.safe_load(f) or {}\<close>).\<close>

definition load_taxonomy_file :: "(string \<Rightarrow> rat py) \<Rightarrow> (rat \<Rightarrow> string) \<Rightarrow> json \<Rightarrow> taxonomy py" where
  "load_taxonomy_file float_text fr doc =
     (case (if truthy doc then doc else JObj []) of
        JObj raw \<Rightarrow>
          (case (list_or_empty (dict_get raw ''candidate_labels''), dict_or_empty (dict_get raw ''label_hypotheses'')) of
             (Inl e, _) \<Rightarrow> Inl e
           | (_, Inl e) \<Rightarrow> Inl e
           | (Inr labels, Inr hypotheses) \<Rightarrow>
               (case phrases_of hypotheses labels of
                  Inl e \<Rightarrow> Inl e
                | Inr phrases \<Rightarrow>
                    (let tmpl_raw = dict_get_default raw ''hypothesis_template'' JNull;
                         hyp_tmpl = (if truthy tmpl_raw then json_str fr tmpl_raw else default_template);
                         hyp_tmpl = (if contains ''{}'' hyp_tmpl then hyp_tmpl else default_template)
                     in case json_float float_text (dict_get_default raw ''confidence_threshold'' (JFloat (fl (35/100)))) of
                          Inl e \<Rightarrow> Inl e
                        | Inr threshold \<Rightarrow> Inr
                            \<lparr>tn_version = json_str fr (dict_get_default raw ''version'' (JStr ''1'')),
                             tn_confidence_threshold = threshold, tn_candidate_labels = labels,
                             tn_nli_phrases = phrases, tn_hypothesis_template = hyp_tmpl\<rparr>)))
      | _ \<Rightarrow> Inl AttributeError)"

section \<open>The model\<close>

definition dquote :: "string \<Rightarrow> string" where
  "dquote s = [CHR 0x22] @ s @ [CHR 0x22]"

definition build_system_instruction :: "(rat \<Rightarrow> string) \<Rightarrow> taxonomy \<Rightarrow> string" where
  "build_system_instruction fr tx = join_str [CHR 0x0A]
     ([''Classify user text into one intent label from this taxonomy:'']
      @ map (\<lambda>(label, hint). ''- '' @ dquote (json_str fr label) @ '': '' @ hint)
          (zip (tn_candidate_labels tx) (tn_nli_phrases tx))
      @ [''- '' @ dquote unclassified_label @ '': use this when no intent clearly matches'', [], ''Rules:'',
         ''1) Output only taxonomy labels listed above. Never invent new labels. If uncertain, choose ''
           @ dquote unclassified_label @ ''.'',
         ''2) '' @ dquote ''confidence'' @ '' must be a float in [0.0, 1.0].'',
         ''3) '' @ dquote ''reasoning'' @ '' must be at most one sentence.'',
         ''4) '' @ dquote ''multi_intent''
           @ '' should contain labels only when multiple intents are clearly present; otherwise return [].''])"

record llm_result =
  lr_intent :: string
  lr_confidence :: rat
  lr_reasoning :: string
  lr_multi_intent :: "string list"

definition fallback_result :: llm_result where
  "fallback_result = \<lparr>lr_intent = unclassified_label, lr_confidence = 0, lr_reasoning = ''llm_error'',
     lr_multi_intent = []\<rparr>"

text \<open>One attempt: a timeout or an HTTP error, another exception, or an answer whose body decodes or
  does not.\<close>

datatype llm_attempt = Transient | Unexpected | Answered "json option"

fun llm_attempts :: "(nat \<Rightarrow> llm_attempt) \<Rightarrow> nat list \<Rightarrow> json option option" where
  "llm_attempts ask [] = None"
| "llm_attempts ask (i # is) =
     (case ask i of
        Answered body \<Rightarrow> Some body
      | Unexpected \<Rightarrow> None
      | Transient \<Rightarrow> (if i = 0 then llm_attempts ask is else None))"

definition model_labels :: "taxonomy \<Rightarrow> json list" where
  "model_labels tx = tn_candidate_labels tx @ [JStr unclassified_label]"

definition clamp_confidence :: "(string \<Rightarrow> rat py) \<Rightarrow> json \<Rightarrow> rat py" where
  "clamp_confidence float_text v =
     (case json_float float_text v of
        Inr x \<Rightarrow> Inr (max 0 (min 1 x))
      | Inl e \<Rightarrow> (if e = TypeError \<or> e = ValueError then Inr 0 else Inl e))"

text \<open>The reading of the decoded payload.\<close>

definition read_payload :: "(string \<Rightarrow> rat py) \<Rightarrow> (rat \<Rightarrow> string) \<Rightarrow> taxonomy \<Rightarrow> json \<Rightarrow> llm_result py" where
  "read_payload float_text fr tx payload =
     (case payload of
        JObj p \<Rightarrow>
          (let said = json_str fr (dict_get_default p ''intent'' (JStr unclassified_label));
               chosen = (if JStr said \<in> set (model_labels tx) then said else unclassified_label);
               reasoning = strip (json_str fr (dict_get_default p ''reasoning'' (JStr [])));
               multi = (case dict_get_default p ''multi_intent'' (JArr []) of
                  JArr vs \<Rightarrow> filter (\<lambda>v. JStr v \<in> set (model_labels tx) \<and> v \<noteq> chosen) (map (json_str fr) vs)
                | _ \<Rightarrow> [])
           in case clamp_confidence float_text (dict_get_default p ''confidence'' (JFloat 0)) of
                Inl e \<Rightarrow> Inl e
              | Inr conf \<Rightarrow> Inr \<lparr>lr_intent = chosen, lr_confidence = conf,
                  lr_reasoning = (if reasoning = [] then ''n/a'' else reasoning), lr_multi_intent = multi\<rparr>)
      | _ \<Rightarrow> Inl AttributeError)"

text \<open>\<open>str(((outer.get("message") or {}).get("content")) or "")\<close>.\<close>

definition raw_content :: "(rat \<Rightarrow> string) \<Rightarrow> json \<Rightarrow> string py" where
  "raw_content fr outer =
     (case outer of
        JObj d \<Rightarrow>
          (let message = dict_get_default d ''message'' JNull
           in case (if truthy message then message else JObj []) of
                JObj m \<Rightarrow> (let c = dict_get_default m ''content'' JNull
                           in Inr (if truthy c then json_str fr c else []))
              | _ \<Rightarrow> Inl AttributeError)
      | _ \<Rightarrow> Inl AttributeError)"

record llm_side =
  ll_taxonomy :: taxonomy
  ll_ask :: "string \<Rightarrow> nat \<Rightarrow> llm_attempt"
  ll_loads :: "string \<Rightarrow> json option"
  ll_float_text :: "string \<Rightarrow> rat py"
  ll_float_repr :: "rat \<Rightarrow> string"

definition llm_classify :: "llm_side \<Rightarrow> string \<Rightarrow> llm_result py" where
  "llm_classify L txt =
     (case llm_attempts (ll_ask L txt) [0, 1] of
        None \<Rightarrow> Inr fallback_result
      | Some None \<Rightarrow> Inr fallback_result
      | Some (Some outer) \<Rightarrow>
          (case raw_content (ll_float_repr L) outer of
             Inl e \<Rightarrow> Inl e
           | Inr raw \<Rightarrow>
               (case (if raw = [] then Some (JObj []) else ll_loads L raw) of
                  None \<Rightarrow> Inr fallback_result
                | Some payload \<Rightarrow> read_payload (ll_float_text L) (ll_float_repr L) (ll_taxonomy L) payload)))"

section \<open>The cache\<close>

record classify_response =
  cr_intent_label :: string
  cr_confidence :: rat
  cr_source :: string
  cr_taxonomy_version :: string
  cr_model_id :: string

record classification_cache =
  cc_fingerprint :: string
  cc_ttl :: int
  cc_lru :: "(string \<times> classify_response) list"
  cc_lru_max :: nat
  cc_connected :: bool

definition init_cache :: "string \<Rightarrow> string list \<Rightarrow> string \<Rightarrow> int \<Rightarrow> int \<Rightarrow> classification_cache" where
  "init_cache model_id labels system_instruction_hash ttl_seconds limit =
     (let labels_hash = sha256_hex (join_str '','' labels)
      in \<lparr>cc_fingerprint = sha256_hex (model_id @ '':'' @ labels_hash @ '':'' @ system_instruction_hash),
          cc_ttl = ttl_seconds, cc_lru = [], cc_lru_max = nat (max 1 limit), cc_connected = False\<rparr>)"

definition connect :: "classification_cache \<Rightarrow> classification_cache" where
  "connect c = c\<lparr>cc_connected := True\<rparr>"

definition tenant_part :: "string option \<Rightarrow> string" where
  "tenant_part tenant_id =
     (let t = strip (case tenant_id of Some (x # s) \<Rightarrow> x # s | _ \<Rightarrow> ''default'')
      in if t = [] then ''default'' else t)"

definition cache_key :: "classification_cache \<Rightarrow> string \<Rightarrow> string option \<Rightarrow> string" where
  "cache_key c text_norm tenant_id =
     ''intent:cls:v6:'' @ cc_fingerprint c @ '':'' @ tenant_part tenant_id @ '':'' @ sha256_hex text_norm"

text \<open>Redis, with the texts it stores: reading one gives an answer or nothing (any exception).\<close>

record 's answer_store =
  as_get :: "string \<Rightarrow> 's \<Rightarrow> exn + string option"
  as_setex :: "string \<Rightarrow> int \<Rightarrow> string \<Rightarrow> 's \<Rightarrow> exn + 's"
  as_read :: "string \<Rightarrow> classify_response option"
  as_write :: "classify_response \<Rightarrow> string"

definition from_cache :: "classify_response \<Rightarrow> classify_response" where
  "from_cache r = r\<lparr>cr_source := ''cache''\<rparr>"

definition cache_get :: "'s answer_store \<Rightarrow> string \<Rightarrow> string option \<Rightarrow> classification_cache \<Rightarrow> 's
    \<Rightarrow> classification_cache \<times> classify_response option" where
  "cache_get R text_norm tenant_id c s =
     (let ck = cache_key c text_norm tenant_id in
      case lru_get ck (cc_lru c) of
        (d, Some hit) \<Rightarrow> (c\<lparr>cc_lru := d\<rparr>, Some (from_cache hit))
      | (_, None) \<Rightarrow>
          (if \<not> cc_connected c then (c, None)
           else case as_get R ck s of
               Inr (Some (x # raw)) \<Rightarrow>
                 (case as_read R (x # raw) of
                    None \<Rightarrow> (c, None)
                  | Some resp \<Rightarrow> (c\<lparr>cc_lru := lru_set (cc_lru_max c) ck resp (cc_lru c)\<rparr>, Some (from_cache resp)))
             | _ \<Rightarrow> (c, None)))"

definition cache_set :: "'s answer_store \<Rightarrow> string \<Rightarrow> classify_response \<Rightarrow> string option
    \<Rightarrow> classification_cache \<Rightarrow> 's \<Rightarrow> classification_cache \<times> 's" where
  "cache_set R text_norm response tenant_id c s =
     (let ck = cache_key c text_norm tenant_id;
          c' = c\<lparr>cc_lru := lru_set (cc_lru_max c) ck response (cc_lru c)\<rparr>
      in if \<not> cc_connected c then (c', s)
         else case as_setex R ck (cc_ttl c) (as_write R response) s of
             Inl _ \<Rightarrow> (c', s) | Inr s' \<Rightarrow> (c', s'))"

section \<open>The endpoint\<close>

fun collapse_spaces :: "bool \<Rightarrow> string \<Rightarrow> string" where
  "collapse_spaces in_run [] = []"
| "collapse_spaces in_run (c # s) =
     (if is_space c then (if in_run then [] else '' '') @ collapse_spaces True s
      else c # collapse_spaces False s)"

definition normalize_text :: "string \<Rightarrow> string" where
  "normalize_text t = collapse_spaces False (lower (strip t))"

text \<open>\<open>_url_only_re.fullmatch\<close>.\<close>

definition url_only :: "string \<Rightarrow> bool" where
  "url_only t =
     (let tail_ok = (\<lambda>u. u \<noteq> [] \<and> list_all (\<lambda>c. \<not> is_space c) u)
      in starts_with ''http://'' t \<and> tail_ok (drop 7 t) \<or> starts_with ''https://'' t \<and> tail_ok (drop 8 t))"

definition fallback_response :: "string \<Rightarrow> string \<Rightarrow> classify_response" where
  "fallback_response version model = \<lparr>cr_intent_label = unclassified_label, cr_confidence = 0,
     cr_source = ''fallback'', cr_taxonomy_version = version, cr_model_id = model\<rparr>"

definition degenerate :: "string \<Rightarrow> bool" where
  "degenerate text_raw = (text_raw = [] \<or> length text_raw < 3 \<or> url_only text_raw)"

definition model_response :: "taxonomy \<Rightarrow> string \<Rightarrow> llm_result \<Rightarrow> classify_response" where
  "model_response tx model lr =
     \<lparr>cr_intent_label = (if JStr (lr_intent lr) \<in> set (model_labels tx) then lr_intent lr else unclassified_label),
      cr_confidence = lr_confidence lr, cr_source = ''model'', cr_taxonomy_version = tn_version tx,
      cr_model_id = model\<rparr>"

definition classify_endpoint :: "'s answer_store \<Rightarrow> llm_side \<Rightarrow> string \<Rightarrow> string \<Rightarrow> string option
    \<Rightarrow> classification_cache \<times> 's \<Rightarrow> (classification_cache \<times> 's) \<times> classify_response" where
  "classify_endpoint R L model txt tenant_id cs =
     (let text_raw = strip txt; text_norm = normalize_text txt; tx = ll_taxonomy L;
          fallback = fallback_response (tn_version tx) model
      in if degenerate text_raw then (cs, fallback)
         else case cache_get R text_norm tenant_id (fst cs) (snd cs) of
             (c', Some cached) \<Rightarrow> ((c', snd cs), cached)
           | (c', None) \<Rightarrow>
               (case llm_classify L text_raw of
                  Inl e \<Rightarrow> ((c', snd cs), fallback)
                | Inr lr \<Rightarrow>
                    (let response = model_response tx model lr
                     in (cache_set R text_norm response tenant_id c' (snd cs), response))))"

definition readyz :: "bool \<Rightarrow> exn + json" where
  "readyz loaded = (if loaded then Inr (JObj [(''status'', JStr ''ready'')])
     else Inl (HTTPException 503 (JStr ''model not loaded'')))"

text \<open>\<open>lifespan\<close>: the state the service starts with.\<close>

definition start_service :: "llm_side \<Rightarrow> string \<Rightarrow> int \<Rightarrow> int \<Rightarrow> classification_cache" where
  "start_service L model ttl_seconds limit =
     (let tx = ll_taxonomy L;
          cache_labels = map (json_str (ll_float_repr L)) (tn_candidate_labels tx) @ tn_nli_phrases tx
      in connect (init_cache model cache_labels (sha256_hex (build_system_instruction (ll_float_repr L) tx))
           ttl_seconds limit))"

section \<open>Keys\<close>

lemma append_same_length: "length v = length z \<Longrightarrow> u @ v = w @ z \<Longrightarrow> u = w \<and> v = z"
  by simp

text \<open>Tenants do not share answers: two requests have the same key in a service's cache exactly
  when their tenants, trimmed and with nothing standing for \<open>default\<close>, are the same and the
  normalised texts have the same hash; no choice of characters in a tenant's name makes it collide
  with another.\<close>

theorem cache_keys_separate_tenants:
  "cache_key c x a = cache_key c y b \<longleftrightarrow> tenant_part a = tenant_part b \<and> sha256_hex x = sha256_hex y"
proof
  assume "cache_key c x a = cache_key c y b"
  then have "tenant_part a @ '':'' @ sha256_hex x = tenant_part b @ '':'' @ sha256_hex y"
    by (simp add: cache_key_def)
  then have "(tenant_part a @ '':'') @ sha256_hex x = (tenant_part b @ '':'') @ sha256_hex y" by simp
  from append_same_length [OF _ this] show "tenant_part a = tenant_part b \<and> sha256_hex x = sha256_hex y" by simp
qed (simp add: cache_key_def)

section \<open>Repeated answers\<close>

lemma cache_set_lru:
  "fst (cache_set R x r t c s) = c\<lparr>cc_lru := lru_set (cc_lru_max c) (cache_key c x t) r (cc_lru c)\<rparr>"
  by (simp add: cache_set_def Let_def split: sum.split)

lemma cache_key_lru [simp]: "cache_key (c\<lparr>cc_lru := d\<rparr>) = cache_key c"
  by (simp add: cache_key_def fun_eq_iff)

lemma cache_get_params:
  assumes "cache_get R x t c s = (c', r)"
  shows "cc_lru_max c' = cc_lru_max c \<and> cache_key c' = cache_key c"
  using assms by (auto simp: cache_get_def Let_def split: prod.splits option.splits if_splits sum.splits list.splits)

lemma cache_get_source: "cache_get R x t c s = (c', Some r) \<Longrightarrow> cr_source r = ''cache''"
  by (auto simp: cache_get_def Let_def from_cache_def split: prod.splits option.splits if_splits sum.splits list.splits)

lemma cache_get_after_set:
  assumes "0 < cc_lru_max c" and "cache_key c x a = cache_key c y b"
  shows "snd (cache_get R y b (fst (cache_set R' x r a c s)) s') = Some (from_cache r)"
proof -
  define d where "d = lru_set (cc_lru_max c) (cache_key c y b) r (cc_lru c)"
  have c1: "fst (cache_set R' x r a c s) = c\<lparr>cc_lru := d\<rparr>" by (simp add: cache_set_lru assms(2) d_def)
  have "dict_get d (cache_key c y b) = Some r" using assms(1) by (simp add: d_def)
  then show ?thesis unfolding c1 by (simp add: cache_get_def lru_get_def Let_def)
qed

text \<open>An answer of the model is given once and then repeated: a request of the same tenant whose
  text normalises to the same text gets the same label, confidence, version and model, marked as
  coming from the cache, whatever the model, the taxonomy or Redis would say by then.\<close>

theorem model_answer_is_repeated:
  assumes "classify_endpoint R L model t a (c, s) = ((c1, s1), r)" and "cr_source r = ''model''"
    and "0 < cc_lru_max c"
    and "normalize_text u = normalize_text t" and "tenant_part b = tenant_part a" and "\<not> degenerate (strip u)"
  shows "snd (classify_endpoint R' L' model' u b (c1, s2)) = r\<lparr>cr_source := ''cache''\<rparr>"
proof -
  obtain c0 g where g: "cache_get R (normalize_text t) a c s = (c0, g)" by fastforce
  note par = cache_get_params [OF g]
  have nd: "\<not> degenerate (strip t)"
    using assms(1,2) by (auto simp: classify_endpoint_def Let_def fallback_response_def)
  have "g = None"
  proof (rule ccontr)
    assume "g \<noteq> None"
    then obtain x where x: "g = Some x" by blast
    with assms(1) nd g have "r = x" by (simp add: classify_endpoint_def Let_def)
    with cache_get_source [OF g [unfolded x]] assms(2) show False by simp
  qed
  with assms(1,2) nd g obtain lr where lr: "llm_classify L (strip t) = Inr lr"
    by (cases "llm_classify L (strip t)") (auto simp: classify_endpoint_def Let_def fallback_response_def)
  with assms(1) nd g \<open>g = None\<close> have "((c1, s1), r) = (cache_set R (normalize_text t)
      (model_response (ll_taxonomy L) model lr) a c0 s, model_response (ll_taxonomy L) model lr)"
    by (auto simp: classify_endpoint_def Let_def)
  then have c1: "c1 = fst (cache_set R (normalize_text t) r a c0 s)" by (metis fst_conv prod.inject)
  have "cache_key c0 (normalize_text t) a = cache_key c0 (normalize_text u) b"
    using assms(4,5) by (simp add: cache_key_def)
  from cache_get_after_set [OF _ this, where r = r] par assms(3) c1
  have "snd (cache_get R' (normalize_text u) b c1 s2) = Some (from_cache r)" by simp
  then show ?thesis
    using assms(6) by (auto simp: classify_endpoint_def Let_def from_cache_def split: prod.splits)
qed

text \<open>A failure of the model is such an answer too: it is cached, and the service goes on saying
  \<open>unclassified\<close> with the source \<open>cache\<close> after the model is back.\<close>

lemma outage_is_cached:
  assumes "llm_attempts (ll_ask L (strip t)) [0, 1] = None" and "\<not> degenerate (strip t)" and "0 < cc_lru_max c"
    and "cache_get R (normalize_text t) a c s = (c0, None)"
  shows "\<exists>c1 s1 r. classify_endpoint R L model t a (c, s) = ((c1, s1), r) \<and> cr_source r = ''model''
    \<and> cr_intent_label r = unclassified_label \<and> cr_confidence r = 0
    \<and> snd (classify_endpoint R L' model t a (c1, s1)) = r\<lparr>cr_source := ''cache''\<rparr>"
proof -
  define r where "r = model_response (ll_taxonomy L) model fallback_result"
  obtain c1 s1 where cs: "cache_set R (normalize_text t) r a c0 s = (c1, s1)" by fastforce
  have e: "classify_endpoint R L model t a (c, s) = ((c1, s1), r)"
    using assms(1,2,4) cs by (simp add: classify_endpoint_def Let_def llm_classify_def r_def del: llm_attempts.simps)
  have m: "cr_source r = ''model''" and l: "cr_intent_label r = unclassified_label" "cr_confidence r = 0"
    by (simp_all add: r_def model_response_def fallback_result_def)
  define again where "again = snd (classify_endpoint R L' model t a (c1, s1))"
  obtain k where k: "cache_get R (normalize_text t) a c1 s1 = (k, Some (from_cache r))"
  proof -
    from cache_get_after_set [of c0 "normalize_text t" a "normalize_text t" a R R r s s1] cs
      cache_get_params [OF assms(4)] assms(3)
    have "snd (cache_get R (normalize_text t) a c1 s1) = Some (from_cache r)" by simp
    then show ?thesis using that by (cases "cache_get R (normalize_text t) a c1 s1") simp
  qed
  have "again = r\<lparr>cr_source := ''cache''\<rparr>"
    using assms(2) k by (simp add: again_def classify_endpoint_def Let_def from_cache_def)
  with e m l show ?thesis unfolding again_def by blast
qed

section \<open>Validity of answers\<close>

text \<open>An answer the contract allows: a label of the taxonomy and a confidence between 0 and 1.\<close>

definition valid_response :: "taxonomy \<Rightarrow> classify_response \<Rightarrow> bool" where
  "valid_response tx r = (JStr (cr_intent_label r) \<in> set (model_labels tx) \<and> 0 \<le> cr_confidence r \<and> cr_confidence r \<le> 1)"

definition valid_state :: "'s answer_store \<Rightarrow> taxonomy \<Rightarrow> classification_cache \<times> 's \<Rightarrow> bool" where
  "valid_state R tx cs =
     ((\<forall>p \<in> set (cc_lru (fst cs)). valid_response tx (snd p))
      \<and> distinct (map fst (cc_lru (fst cs))) \<and> length (cc_lru (fst cs)) \<le> cc_lru_max (fst cs)
      \<and> (\<forall>k x r. as_get R k (snd cs) = Inr (Some x) \<longrightarrow> as_read R x = Some r \<longrightarrow> valid_response tx r))"

text \<open>What Redis and the reading of stored answers are documented to do: a text made from an answer,
  if it can be read, gives that answer, and storing under a key brings no other text into the
  store.\<close>

definition answer_store_ok :: "'s answer_store \<Rightarrow> bool" where
  "answer_store_ok R =
     ((\<forall>r r'. as_read R (as_write R r) = Some r' \<longrightarrow> r' = r)
      \<and> (\<forall>k ttl x s s'. as_setex R k ttl x s = Inr s' \<longrightarrow>
           (\<forall>k' y. as_get R k' s' = Inr (Some y) \<longrightarrow> y = x \<or> as_get R k' s = Inr (Some y))))"

lemma valid_from_cache [simp]: "valid_response tx (from_cache r) = valid_response tx r"
  by (simp add: valid_response_def from_cache_def)

lemma unclassified_in_labels [simp]: "JStr unclassified_label \<in> set (model_labels tx)"
  by (simp add: model_labels_def)

lemma llm_confidence:
  assumes "llm_classify L x = Inr lr"
  shows "0 \<le> lr_confidence lr \<and> lr_confidence lr \<le> 1"
proof -
  have c: "clamp_confidence ft v = Inr y \<Longrightarrow> 0 \<le> y \<and> y \<le> 1" for ft v y
    by (auto simp: clamp_confidence_def split: sum.splits if_splits)
  have p: "read_payload ft fr tx v = Inr l \<Longrightarrow> 0 \<le> lr_confidence l \<and> lr_confidence l \<le> 1" for ft fr tx v l
    using c by (auto simp: read_payload_def Let_def split: json.splits sum.splits)
  from assms show ?thesis
    using p by (auto simp: llm_classify_def fallback_result_def simp del: llm_attempts.simps
        split: option.splits sum.splits if_splits)
qed

lemma valid_model_response: "llm_classify L x = Inr lr \<Longrightarrow> valid_response (ll_taxonomy L) (model_response (ll_taxonomy L) m lr)"
  using llm_confidence by (auto simp: valid_response_def model_response_def)

lemma valid_lru_set:
  assumes "valid_state R tx (c, s)" and "valid_response tx r" and "0 < cc_lru_max c"
  shows "valid_state R tx (c\<lparr>cc_lru := lru_set (cc_lru_max c) k r (cc_lru c)\<rparr>, s)"
proof -
  have "\<forall>p \<in> set (lru_set (cc_lru_max c) k r (cc_lru c)). valid_response tx (snd p)"
    using lru_set_subset [of "cc_lru_max c" k r "cc_lru c"] assms(1,2) by (force simp: valid_state_def)
  moreover have "length (lru_set (cc_lru_max c) k r (cc_lru c)) \<le> cc_lru_max c" by (simp add: lru_set_eq)
  ultimately show ?thesis using assms(1) by (simp add: valid_state_def distinct_lru_set)
qed

lemma valid_cache_get:
  assumes "cache_get R x t c s = (c', g)" and "valid_state R tx (c, s)" and "0 < cc_lru_max c"
  shows "valid_state R tx (c', s) \<and> (case g of None \<Rightarrow> True | Some r \<Rightarrow> valid_response tx r)"
proof -
  define ck where "ck = cache_key c x t"
  show ?thesis
  proof (cases "dict_get (cc_lru c) ck")
    case (Some hit)
    with assms(1) have e: "c' = c\<lparr>cc_lru := fst (lru_get ck (cc_lru c))\<rparr>" "g = Some (from_cache hit)"
      by (auto simp: cache_get_def ck_def lru_get_def)
    have d: "distinct (map fst (cc_lru c))" using assms(2) by (simp add: valid_state_def)
    have "valid_response tx hit" using dict_get_Some_in [OF Some] assms(2) by (force simp: valid_state_def)
    then show ?thesis
      using assms(2) lru_get_shape [OF d, of ck] lru_get_subset [of ck "cc_lru c"]
      by (auto simp: e valid_state_def)
  next
    case None
    with assms(1) consider "c' = c" "g = None"
      | y r where "as_get R ck s = Inr (Some y)" "as_read R y = Some r" "g = Some (from_cache r)"
          "c' = c\<lparr>cc_lru := lru_set (cc_lru_max c) ck r (cc_lru c)\<rparr>"
      by (auto simp: cache_get_def Let_def ck_def [symmetric] lru_get_def
          split: if_splits sum.splits option.splits list.splits)
    then show ?thesis
    proof cases
      case 2
      with assms(2) have "valid_response tx r" by (auto simp: valid_state_def)
      with 2 valid_lru_set [OF assms(2) this assms(3)] show ?thesis by simp
    qed (use assms(2) in simp)
  qed
qed

lemma valid_cache_set:
  assumes "answer_store_ok R" and "valid_state R tx (c, s)" and "valid_response tx r" and "0 < cc_lru_max c"
  shows "valid_state R tx (cache_set R x r t c s)"
proof -
  note v = valid_lru_set [OF assms(2,3,4)]
  have "valid_state R tx (c1, s')"
    if "as_setex R k ttl (as_write R r) s = Inr s'" "valid_state R tx (c1, s)" for c1 s' k ttl
    using that assms(1,3) unfolding answer_store_ok_def valid_state_def by fastforce
  with v show ?thesis by (auto simp: cache_set_def Let_def split: sum.split)
qed

lemma classify_step_valid:
  assumes "answer_store_ok R" and "valid_state R (ll_taxonomy L) cs" and "0 < cc_lru_max (fst cs)"
    and "classify_endpoint R L model t a cs = (cs', r)"
  shows "valid_state R (ll_taxonomy L) cs' \<and> valid_response (ll_taxonomy L) r
    \<and> cc_lru_max (fst cs') = cc_lru_max (fst cs)"
proof -
  obtain c s where cs: "cs = (c, s)" by (cases cs)
  obtain c0 g where g: "cache_get R (normalize_text t) a c s = (c0, g)" by fastforce
  note v0 = valid_cache_get [OF g] and par = cache_get_params [OF g]
  have fb: "valid_response (ll_taxonomy L) (fallback_response v m)" for v m
    by (simp add: valid_response_def fallback_response_def)
  have max_set: "cc_lru_max (fst (cache_set R x r' a c0 s)) = cc_lru_max c0" for x r'
    by (simp add: cache_set_lru)
  from assms(4) consider "cs' = cs" "r = fallback_response (tn_version (ll_taxonomy L)) model"
    | "cs' = (c0, s)" "g = Some r"
    | "cs' = (c0, s)" "r = fallback_response (tn_version (ll_taxonomy L)) model"
    | lr where "llm_classify L (strip t) = Inr lr" "r = model_response (ll_taxonomy L) model lr"
        "cs' = cache_set R (normalize_text t) r a c0 s"
    using g by (cases "degenerate (strip t)"; cases g; cases "llm_classify L (strip t)")
      (auto simp: classify_endpoint_def Let_def cs)
  then show ?thesis
  proof cases
    case 4
    note vr = valid_model_response [OF 4(1), of model]
    from valid_cache_set [OF assms(1) _ vr] v0 assms(2,3) par cs 4 max_set vr show ?thesis by simp
  qed (use assms(2,3) v0 par cs fb in auto)
qed

text \<open>A run of the service over a sequence of requests, with the answers of the model and Redis free
  to differ from one request to the next.\<close>

fun serve :: "'s answer_store \<Rightarrow> (string \<times> string option \<times> (string \<Rightarrow> nat \<Rightarrow> llm_attempt)) list \<Rightarrow> llm_side \<Rightarrow> string
    \<Rightarrow> classification_cache \<times> 's \<Rightarrow> classify_response list" where
  "serve R [] L model cs = []"
| "serve R ((t, a, ask) # reqs) L model cs =
     (case classify_endpoint R (L\<lparr>ll_ask := ask\<rparr>) model t a cs of
        (cs', r) \<Rightarrow> r # serve R reqs L model cs')"


section \<open>Witnesses\<close>

definition sample_answer :: classify_response where
  "sample_answer = \<lparr>cr_intent_label = ''chat'', cr_confidence = 1/2, cr_source = ''model'',
     cr_taxonomy_version = ''1'', cr_model_id = ''m''\<rparr>"

text \<open>A store of texts that can hold one answer.\<close>

definition sample_store :: "(string \<Rightarrow> string option) answer_store" where
  "sample_store = \<lparr>as_get = (\<lambda>k s. Inr (s k)), as_setex = (\<lambda>k ttl x s. Inr (s(k \<mapsto> x))),
     as_read = (\<lambda>x. if x = ''A'' then Some sample_answer else None),
     as_write = (\<lambda>r. if r = sample_answer then ''A'' else ''B'')\<rparr>"

lemma sample_store_ok: "answer_store_ok sample_store"
  by (auto simp: answer_store_ok_def sample_store_def split: if_splits)

definition sample_taxonomy :: taxonomy where
  "sample_taxonomy = \<lparr>tn_version = ''1'', tn_confidence_threshold = 0, tn_candidate_labels = [JStr ''chat''],
     tn_nli_phrases = [''chat''], tn_hypothesis_template = default_template\<rparr>"

text \<open>A model that says \<open>chat\<close> with the confidence one half, and one that is down.\<close>

definition sample_llm :: "(string \<Rightarrow> nat \<Rightarrow> llm_attempt) \<Rightarrow> llm_side" where
  "sample_llm ask = \<lparr>ll_taxonomy = sample_taxonomy, ll_ask = ask,
     ll_loads = (\<lambda>_. Some (JObj [(''intent'', JStr ''chat''), (''confidence'', JFloat (1/2))])),
     ll_float_text = (\<lambda>_. Inl ValueError), ll_float_repr = (\<lambda>_. [])\<rparr>"

definition model_up :: "string \<Rightarrow> nat \<Rightarrow> llm_attempt" where
  "model_up = (\<lambda>_ _. Answered (Some (JObj [(''message'', JObj [(''content'', JStr ''x'')])])))"

definition model_down :: "string \<Rightarrow> nat \<Rightarrow> llm_attempt" where
  "model_down = (\<lambda>_ _. Transient)"


definition sample_cache :: classification_cache where
  "sample_cache = \<lparr>cc_fingerprint = ''f'', cc_ttl = 3600, cc_lru = [], cc_lru_max = 1, cc_connected = True\<rparr>"

theorem model_answer_is_repeated_witness:
  "\<exists>c1 s1. classify_endpoint sample_store (sample_llm model_up) ''m'' ''Hello there'' None (sample_cache, Map.empty)
       = ((c1, s1), sample_answer)
     \<and> snd (classify_endpoint sample_store (sample_llm model_down) ''m'' ''hello  there '' (Some ''default'') (c1, s1))
       = sample_answer\<lparr>cr_source := ''cache''\<rparr>"
proof -
  have n: "normalize_text ''hello  there '' = normalize_text ''Hello there''"
    by code_simp
  have s: "strip ''Hello there'' = ''Hello there''" "strip ''hello  there '' = ''hello  there''"
    by (simp_all add: strip_def lstrip_def rstrip_def is_space_def cp_def)
  have nd: "\<not> degenerate ''Hello there''" "\<not> degenerate ''hello  there''"
    by (simp_all add: degenerate_def url_only_def Let_def)
  have tp: "tenant_part (Some ''default'') = tenant_part None"
    by (simp add: tenant_part_def)
  have ans: "llm_classify (sample_llm model_up) x = Inr \<lparr>lr_intent = ''chat'', lr_confidence = 1/2,
      lr_reasoning = ''n/a'', lr_multi_intent = []\<rparr>" for x
    by (simp add: llm_classify_def model_up_def sample_llm_def raw_content_def dict_get_default_def json_str_def
        read_payload_def Let_def sample_taxonomy_def model_labels_def clamp_confidence_def json_float_def
        strip_def lstrip_def rstrip_def)
  have g: "cache_get sample_store x None sample_cache Map.empty = (sample_cache, None)" for x
    by (simp add: cache_get_def sample_cache_def lru_get_def sample_store_def Let_def)
  have r: "model_response sample_taxonomy ''m'' \<lparr>lr_intent = ''chat'', lr_confidence = 1/2,
      lr_reasoning = ''n/a'', lr_multi_intent = []\<rparr> = sample_answer"
    by (simp add: model_response_def sample_answer_def sample_taxonomy_def model_labels_def)
  obtain c1 s1 where cs: "cache_set sample_store (normalize_text ''Hello there'') sample_answer None sample_cache Map.empty
      = (c1, s1)" by fastforce
  have "ll_taxonomy (sample_llm model_up) = sample_taxonomy" by (simp add: sample_llm_def)
  with s(1) nd(1) ans g r cs have e: "classify_endpoint sample_store (sample_llm model_up) ''m'' ''Hello there'' None
      (sample_cache, Map.empty) = ((c1, s1), sample_answer)"
    by (simp add: classify_endpoint_def Let_def)
  have "cr_source sample_answer = ''model''" "0 < cc_lru_max sample_cache"
    by (simp_all add: sample_answer_def sample_cache_def)
  from model_answer_is_repeated [OF e this n tp, of sample_store "sample_llm model_down" "''m''" s1] nd(2) s(2) e
  show ?thesis by auto
qed

end
