(* ===== verification/Kong_Config.thy ===== *)
theory Kong_Config
  imports Py_Json Exceptions
begin

text \<open>
  Plugin configurations as the admin interface edits them (\<open>flatten_dict\<close> and
  \<open>unflatten_dict\<close> of src/fastapi\_backend/app/api/admin/gateway\_plugins.py): a nested dictionary
  as one level of dotted keys and back. A dictionary is the list of its items in order.
\<close>

section \<open>Flattening\<close>

text \<open>\<open>flat.update(...)\<close> and \<open>flat[key] = value\<close>, item by item.\<close>

fun flatten_value :: "string \<Rightarrow> string \<Rightarrow> json \<Rightarrow> (string \<times> json) list" where
  "flatten_value prefix key (JObj d) =
     foldl (\<lambda>flat kv. dict_update flat kv) [] (map (\<lambda>(k, v). flatten_value (prefix @ key @ ''.'') k v) d)"
| "flatten_value prefix key v = [(prefix @ key, v)]"

definition flatten_dict :: "json \<Rightarrow> (string \<times> json) list" where
  "flatten_dict nested =
     (case nested of
        JObj d \<Rightarrow> foldl (\<lambda>flat kv. dict_update flat kv) [] (map (\<lambda>(k, v). flatten_value [] k v) d)
      | _ \<Rightarrow> [])"

section \<open>Unflattening\<close>

text \<open>The inner loop: walk down the parts, making dictionaries where there are none. A part that leads to
  a value that is no dictionary ends in a \<open>TypeError\<close>, whatever the value is.\<close>

fun path_set :: "(string \<times> json) list \<Rightarrow> string list \<Rightarrow> json \<Rightarrow> (string \<times> json) list py" where
  "path_set d [] v = Inr d"
| "path_set d [p] v = Inr (dict_set d p v)"
| "path_set d (p # q # ps) v =
     (case dict_get_default d p (JObj []) of
        JObj e \<Rightarrow> (case path_set e (q # ps) v of Inl x \<Rightarrow> Inl x | Inr e' \<Rightarrow> Inr (dict_set d p (JObj e')))
      | _ \<Rightarrow> Inl TypeError)"

definition skipped :: "json \<Rightarrow> bool" where
  "skipped v = (v = JStr [] \<or> v = JNull)"

fun unflatten_items :: "(string \<times> json) list \<Rightarrow> (string \<times> json) list \<Rightarrow> (string \<times> json) list py" where
  "unflatten_items nested [] = Inr nested"
| "unflatten_items nested ((key, v) # items) =
     (if skipped v then unflatten_items nested items
      else case path_set nested (split_char (CHR ''.'') key) v of
          Inl e \<Rightarrow> Inl e
        | Inr nested' \<Rightarrow> unflatten_items nested' items)"

definition unflatten_dict :: "json \<Rightarrow> (string \<times> json) list py" where
  "unflatten_dict flat = (case flat of JObj d \<Rightarrow> unflatten_items [] d | _ \<Rightarrow> Inr [])"

section \<open>The round trip\<close>

text \<open>A configuration as Kong sends it: keys without dots, no two alike, no empty dictionary and no value
  that unflattening skips.\<close>

fun plain_value :: "json \<Rightarrow> bool" where
  "plain_value (JObj d) = (d \<noteq> [] \<and> distinct (map fst d)
     \<and> list_all (\<lambda>kv. CHR ''.'' \<notin> set (fst kv) \<and> plain_value (snd kv)) d)"
| "plain_value v = (\<not> skipped v)"

definition plain_config :: "(string \<times> json) list \<Rightarrow> bool" where
  "plain_config d = (distinct (map fst d) \<and> list_all (\<lambda>kv. CHR ''.'' \<notin> set (fst kv) \<and> plain_value (snd kv)) d)"

text \<open>The values of a dictionary with their paths.\<close>

fun value_paths :: "json \<Rightarrow> (string list \<times> json) list" where
  "value_paths (JObj d) = concat (map (\<lambda>kv. map (apfst ((#) (fst kv))) (value_paths (snd kv))) d)"
| "value_paths v = [([], v)]"

abbreviation dotted :: "string list \<Rightarrow> string" where
  "dotted ps \<equiv> join_str ''.'' ps"

lemma dict_set_new: "k \<notin> fst ` set d \<Longrightarrow> dict_set d k v = d @ [(k, v)]"
  by (induction d k v rule: dict_set.induct) auto

lemma dict_set_last: "k \<notin> fst ` set d \<Longrightarrow> dict_set (d @ [(k, u)]) k v = d @ [(k, v)]"
  by (induction d k v rule: dict_set.induct) auto

lemma dict_get_last: "k \<notin> fst ` set d \<Longrightarrow> dict_get (d @ [(k, u)]) k = Some u"
  by (induction d) auto

lemma dict_update_new:
  "distinct (map fst e) \<Longrightarrow> fst ` set d \<inter> fst ` set e = {} \<Longrightarrow> dict_update d e = d @ e"
proof (induction e arbitrary: d)
  case (Cons p e)
  obtain k v where p: "p = (k, v)" by (cases p)
  from Cons.prems have "dict_set d k v = d @ [(k, v)]" by (intro dict_set_new) (auto simp: p)
  moreover have "dict_update (d @ [(k, v)]) e = (d @ [(k, v)]) @ e"
    using Cons.prems by (intro Cons.IH) (auto simp: p)
  ultimately show ?case by (simp add: dict_update_def p)
qed (simp add: dict_update_def)

lemma foldl_update_new:
  "distinct (map fst (d @ concat pieces)) \<Longrightarrow> foldl (\<lambda>flat kv. dict_update flat kv) d pieces = d @ concat pieces"
proof (induction pieces arbitrary: d)
  case (Cons e pieces)
  have "dict_update d e = d @ e" using Cons.prems by (intro dict_update_new) auto
  with Cons.IH [of "d @ e"] Cons.prems show ?case by simp
qed simp

text \<open>The paths of a plain value.\<close>

lemma paths_dot_free: "plain_value v \<Longrightarrow> (ps, w) \<in> set (value_paths v) \<Longrightarrow> \<forall>p \<in> set ps. CHR ''.'' \<notin> set p"
proof (induction v arbitrary: ps w rule: json.induct)
  case (JObj d)
  then show ?case by (fastforce simp: list_all_iff)
qed auto

lemma paths_leaf: "plain_value v \<Longrightarrow> (ps, w) \<in> set (value_paths v) \<Longrightarrow> \<not> skipped w"
proof (induction v arbitrary: ps w rule: json.induct)
  case (JObj d)
  then show ?case by (fastforce simp: list_all_iff)
qed auto

lemma paths_not_Nil: "(ps, w) \<in> set (value_paths (JObj d)) \<Longrightarrow> ps \<noteq> []"
  by auto

lemma value_paths_not_Nil: "plain_value v \<Longrightarrow> value_paths v \<noteq> []"
proof (induction v rule: json.induct)
  case (JObj d)
  then obtain kv e where d: "d = kv # e" by (cases d) auto
  with JObj.IH [of kv "snd kv"] JObj.prems have "value_paths (snd kv) \<noteq> []" by (cases kv) auto
  then show ?case by (simp add: d)
qed auto

lemma distinct_paths: "plain_value v \<Longrightarrow> distinct (map fst (value_paths v))"
proof (induction v rule: json.induct)
  case (JObj d)
  have ih: "distinct (map fst (value_paths (snd kv)))" if "kv \<in> set d" for kv
    using JObj.IH [of kv "snd kv"] JObj.prems that by (cases kv) (auto simp: list_all_iff)
  have "distinct (map fst d)" using JObj.prems by simp
  with ih show ?case
  proof (induction d)
    case (Cons kv d)
    have m: "map fst (map (apfst ((#) p)) xs) = map ((#) p) (map fst xs)"
      for p and xs :: "(string list \<times> json) list" by (induction xs) auto
    have "distinct (map fst (map (apfst ((#) (fst kv))) (value_paths (snd kv))))"
      unfolding m using Cons.prems(1) [of kv] by (simp add: distinct_map inj_on_def)
    with Cons show ?case by (force simp: image_iff)
  qed simp
qed auto

section \<open>Flattening gives the paths\<close>

lemma dotted_Cons: "ps \<noteq> [] \<Longrightarrow> dotted (p # ps) = p @ ''.'' @ dotted ps"
  by (cases ps) auto

lemma dotted_inj:
  assumes "dotted ps = dotted qs" and "ps \<noteq> []" and "qs \<noteq> []"
    and "\<forall>p \<in> set ps. CHR ''.'' \<notin> set p" and "\<forall>p \<in> set qs. CHR ''.'' \<notin> set p"
  shows "ps = qs"
  by (metis assms split_join_char)

lemma distinct_dotted:
  assumes "plain_value v" and "CHR ''.'' \<notin> set key"
  shows "distinct (map (\<lambda>x. prefix @ dotted (key # fst x)) (value_paths v))"
proof -
  have "inj_on (\<lambda>ps. prefix @ dotted (key # ps)) (set (map fst (value_paths v)))"
  proof (rule inj_onI)
    fix ps qs assume h: "ps \<in> set (map fst (value_paths v))" "qs \<in> set (map fst (value_paths v))"
      "prefix @ dotted (key # ps) = prefix @ dotted (key # qs)"
    then obtain u w where "(ps, u) \<in> set (value_paths v)" "(qs, w) \<in> set (value_paths v)" by auto
    with paths_dot_free [OF assms(1)] assms(2) h(3) dotted_inj [of "key # ps" "key # qs"] show "ps = qs" by fastforce
  qed
  with distinct_paths [OF assms(1)]
  have "distinct (map (\<lambda>ps. prefix @ dotted (key # ps)) (map fst (value_paths v)))" by (simp only: distinct_map)
  then show ?thesis by (simp add: comp_def)
qed

definition named_paths :: "string \<Rightarrow> (string list \<times> json) list \<Rightarrow> (string \<times> json) list" where
  "named_paths prefix xs = map (\<lambda>x. (prefix @ dotted (fst x), snd x)) xs"

lemma named_paths_concat:
  "concat (map (\<lambda>kv. named_paths prefix (map (apfst ((#) (fst kv))) (value_paths (snd kv)))) d)
     = named_paths prefix (value_paths (JObj d))"
  by (simp add: named_paths_def map_concat comp_def)

lemma named_paths_deeper:
  "\<forall>x \<in> set xs. fst x \<noteq> [] \<Longrightarrow>
    named_paths prefix (map (apfst ((#) key)) xs) = named_paths (prefix @ key @ ''.'') xs"
  by (auto simp: named_paths_def dotted_Cons)

lemma flatten_value_paths:
  "plain_value v \<Longrightarrow> CHR ''.'' \<notin> set key \<Longrightarrow>
     flatten_value prefix key v = named_paths prefix (map (apfst ((#) key)) (value_paths v))"
proof (induction v arbitrary: prefix key rule: json.induct)
  case (JObj d)
  let ?xs = "value_paths (JObj d)" and ?pre = "prefix @ key @ ''.''"
  let ?pieces = "map (\<lambda>(k, v). flatten_value ?pre k v) d"
  have "?pieces = map (\<lambda>kv. named_paths ?pre (map (apfst ((#) (fst kv))) (value_paths (snd kv)))) d"
  proof (rule map_cong [OF refl])
    fix kv assume kv: "kv \<in> set d"
    with JObj.prems have "plain_value (snd kv)" "CHR ''.'' \<notin> set (fst kv)" by (auto simp: list_all_iff)
    with JObj.IH [OF kv, of "snd kv"] show "(case kv of (k, v) \<Rightarrow> flatten_value ?pre k v)
        = named_paths ?pre (map (apfst ((#) (fst kv))) (value_paths (snd kv)))" by (cases kv) auto
  qed
  then have c: "concat ?pieces = named_paths ?pre ?xs"
    by (simp only: named_paths_concat)
  have n: "\<forall>x \<in> set ?xs. fst x \<noteq> []" using paths_not_Nil by force
  have "map fst (named_paths ?pre ?xs) = map (\<lambda>x. prefix @ dotted (key # fst x)) ?xs"
    using n by (auto simp: named_paths_def dotted_Cons)
  with distinct_dotted [OF JObj.prems(1,2)] have "distinct (map fst (concat ?pieces))" by (simp only: c)
  with foldl_update_new [of "[]" ?pieces] have "flatten_value prefix key (JObj d) = concat ?pieces"
    by (simp del: map_concat)
  also have "\<dots> = named_paths prefix (map (apfst ((#) key)) ?xs)"
    by (simp only: c named_paths_deeper [OF n])
  finally show ?case .
qed (auto simp: named_paths_def)

lemma flatten_dict_paths:
  assumes "plain_config d"
  shows "flatten_dict (JObj d) = named_paths [] (value_paths (JObj d))"
proof (cases "d = []")
  case True
  then show ?thesis by (simp add: flatten_dict_def named_paths_def)
next
  case False
  with assms have pv: "plain_value (JObj d)" by (simp add: plain_config_def)
  let ?pieces = "map (\<lambda>(k, v). flatten_value [] k v) d"
  have "?pieces = map (\<lambda>kv. named_paths [] (map (apfst ((#) (fst kv))) (value_paths (snd kv)))) d"
  proof (rule map_cong [OF refl])
    fix kv assume kv: "kv \<in> set d"
    with assms have "plain_value (snd kv)" "CHR ''.'' \<notin> set (fst kv)" by (auto simp: plain_config_def list_all_iff)
    from flatten_value_paths [OF this] show "(case kv of (k, v) \<Rightarrow> flatten_value [] k v)
        = named_paths [] (map (apfst ((#) (fst kv))) (value_paths (snd kv)))" by (simp add: case_prod_beta)
  qed
  then have c: "concat ?pieces = named_paths [] (value_paths (JObj d))"
    by (simp only: named_paths_concat)
  have n: "\<forall>x \<in> set (value_paths (JObj d)). fst x \<noteq> []" using paths_not_Nil by force
  have "map fst (named_paths ''.'' (value_paths (JObj d))) = map (\<lambda>x. [] @ dotted ([] # fst x)) (value_paths (JObj d))"
    using n by (auto simp: named_paths_def dotted_Cons)
  with distinct_dotted [OF pv, of "[]" "[]"] have "distinct (map fst (named_paths ''.'' (value_paths (JObj d))))" by simp
  moreover have "map fst (named_paths ''.'' xs) = map ((@) ''.'') (map fst (named_paths [] xs))" for xs
    by (simp add: named_paths_def)
  ultimately have "distinct (map fst (named_paths [] (value_paths (JObj d))))" by (simp only: distinct_map)
  with foldl_update_new [of "[]" ?pieces] show ?thesis by (simp only: flatten_dict_def json.case c append_Nil)
qed

section \<open>Unflattening sets the paths\<close>

fun set_paths :: "(string \<times> json) list \<Rightarrow> (string list \<times> json) list \<Rightarrow> (string \<times> json) list py" where
  "set_paths d [] = Inr d"
| "set_paths d (x # xs) = (case path_set d (fst x) (snd x) of Inl e \<Rightarrow> Inl e | Inr d' \<Rightarrow> set_paths d' xs)"

lemma set_paths_append:
  "set_paths d (xs @ ys) = (case set_paths d xs of Inl e \<Rightarrow> Inl e | Inr d' \<Rightarrow> set_paths d' ys)"
  by (induction xs arbitrary: d) (auto split: sum.split)

lemma unflatten_named:
  "\<forall>x \<in> set xs. fst x \<noteq> [] \<and> (\<forall>p \<in> set (fst x). CHR ''.'' \<notin> set p) \<and> \<not> skipped (snd x) \<Longrightarrow>
     unflatten_items d (named_paths [] xs) = set_paths d xs"
proof (induction xs arbitrary: d)
  case (Cons x xs)
  then have "split_char (CHR ''.'') (dotted (fst x)) = fst x" by (intro split_join_char) auto
  with Cons show ?case by (auto simp: named_paths_def split: sum.split)
qed (simp add: named_paths_def)

text \<open>Setting paths that all begin with a key works on the dictionary under the key.\<close>

lemma set_paths_under:
  "k \<notin> fst ` set d \<Longrightarrow> \<forall>x \<in> set xs. fst x \<noteq> [] \<Longrightarrow>
     set_paths (d @ [(k, JObj e)]) (map (apfst ((#) k)) xs)
       = (case set_paths e xs of Inl x \<Rightarrow> Inl x | Inr e' \<Rightarrow> Inr (d @ [(k, JObj e')]))"
proof (induction xs arbitrary: e)
  case (Cons x xs)
  then obtain p ps where x: "fst x = p # ps" by (cases "fst x") auto
  from Cons show ?case
    by (auto simp: x dict_get_default_def dict_get_last dict_set_last split: sum.split)
qed simp

lemma set_paths_new:
  assumes "k \<notin> fst ` set d" and "\<forall>x \<in> set xs. fst x \<noteq> []" and "xs \<noteq> []" and "set_paths [] xs = Inr e"
  shows "set_paths d (map (apfst ((#) k)) xs) = Inr (d @ [(k, JObj e)])"
proof -
  obtain x ys where xs: "xs = x # ys" using assms(3) by (cases xs) auto
  then obtain p ps where x: "fst x = p # ps" using assms(2) by (cases "fst x") auto
  from assms(4) obtain e1 where e1: "path_set [] (fst x) (snd x) = Inr e1" "set_paths e1 ys = Inr e"
    by (auto simp: xs split: sum.splits)
  have g: "dict_get d k = None" using assms(1) by (simp add: dict_get_None_iff)
  have "path_set d (k # fst x) (snd x) = Inr (d @ [(k, JObj e1)])"
    using e1(1) g by (simp add: x dict_get_default_def dict_set_new [OF assms(1)])
  moreover from set_paths_under [OF assms(1), of ys e1] assms(2) e1(2)
  have "set_paths (d @ [(k, JObj e1)]) (map (apfst ((#) k)) ys) = Inr (d @ [(k, JObj e)])" by (simp add: xs)
  ultimately show ?thesis by (simp add: xs)
qed

lemma set_paths_value:
  assumes "plain_value v" and "\<And>d. v = JObj d \<Longrightarrow> set_paths [] (value_paths v) = Inr d" and "k \<notin> fst ` set d"
  shows "set_paths d (map (apfst ((#) k)) (value_paths v)) = Inr (d @ [(k, v)])"
proof (cases v)
  case (JObj e)
  have "\<forall>x \<in> set (value_paths v). fst x \<noteq> []" unfolding JObj using paths_not_Nil by force
  from set_paths_new [OF assms(3) this value_paths_not_Nil [OF assms(1)] assms(2) [OF JObj]] show ?thesis
    by (simp only: JObj)
qed (simp_all add: dict_set_new [OF assms(3)])

lemma set_paths_items:
  assumes "\<And>kv. kv \<in> set e \<Longrightarrow> plain_value (snd kv)
      \<and> (\<forall>d. snd kv = JObj d \<longrightarrow> set_paths [] (value_paths (snd kv)) = Inr d)"
    and "distinct (map fst (d @ e))"
  shows "set_paths d (value_paths (JObj e)) = Inr (d @ e)"
  using assms
proof (induction e arbitrary: d)
  case (Cons kv e)
  from Cons.prems(2) have "fst kv \<notin> fst ` set d" by auto
  with Cons.prems(1) [of kv] have "set_paths d (map (apfst ((#) (fst kv))) (value_paths (snd kv)))
      = Inr (d @ [(fst kv, snd kv)])" by (intro set_paths_value) auto
  moreover have "set_paths (d @ [kv]) (value_paths (JObj e)) = Inr ((d @ [kv]) @ e)"
    using Cons.prems by (intro Cons.IH) auto
  ultimately show ?case by (simp add: set_paths_append del: map_map)
qed simp

lemma set_paths_plain: "plain_value v \<Longrightarrow> v = JObj d \<Longrightarrow> set_paths [] (value_paths v) = Inr d"
proof (induction v arbitrary: d rule: json.induct)
  case (JObj e)
  have "plain_value (snd kv) \<and> (\<forall>d. snd kv = JObj d \<longrightarrow> set_paths [] (value_paths (snd kv)) = Inr d)"
    if "kv \<in> set e" for kv
    using JObj.IH [OF that, of "snd kv"] JObj.prems that by (cases kv) (auto simp: list_all_iff)
  from set_paths_items [where e = e and d = "[]", OF this] JObj.prems show ?case by (simp del: value_paths.simps)
qed simp_all


definition sample_config :: "(string \<times> json) list" where
  "sample_config = [(''minute'', JInt 5), (''redis'', JObj [(''host'', JStr ''r''), (''tls'', JObj [(''on'', JBool False)])]),
     (''policy'', JStr ''local'')]"


text \<open>What does get lost: empty dictionaries, empty texts and nulls vanish, so an edit that clears a field
  leaves Kong's value in place.\<close>

lemma cleared_fields_are_not_sent:
  "unflatten_dict (JObj [(''message'', JStr []), (''limit'', JNull), (''minute'', JInt 5)]) = Inr [(''minute'', JInt 5)]"
  by (simp add: unflatten_dict_def skipped_def)

end
