(* ===== verification/Kong_Admin.thy ===== *)
theory Kong_Admin
  imports Actions Kong_Config
begin

text \<open>
  The endpoints that manage Kong's plugins and routes (src/fastapi\_backend/app/api/admin/gateway\_plugins.py).
  Kong's admin API is the parameter \<open>kong\<close>, a function of method, path, body and Kong's state; its
  answers are JSON. The texts shown in the interface with symbols outside the character range
  (labels of plugins) are left out, and so is the label member of a catalog entry.
\<close>

section \<open>Requests to Kong\<close>

datatype kong_reply =
    Kong_Answer nat string "json option"
  | Kong_Unreachable
  | Kong_Failed exn

type_synonym 's kong = "string \<Rightarrow> string \<Rightarrow> json option \<Rightarrow> 's \<Rightarrow> 's \<times> kong_reply"

definition kong_result :: "kong_reply \<Rightarrow> exn + json" where
  "kong_result r =
     (case r of
        Kong_Answer code body decoded \<Rightarrow>
          (if code < 200 \<or> 300 \<le> code then Inl (HTTPException code (JStr (''Kong Error: '' @ body)))
           else if code = 204 then Inr (JObj [(''status'', JStr ''deleted'')])
           else (case decoded of None \<Rightarrow> Inl (Runtime ValueError) | Some v \<Rightarrow> Inr v))
      | Kong_Unreachable \<Rightarrow> Inl (HTTPException 502 (JStr ''Cannot reach Kong Gateway. Is it running?''))
      | Kong_Failed e \<Rightarrow> Inl e)"

definition kong_request :: "'s kong \<Rightarrow> string \<Rightarrow> string \<Rightarrow> json option \<Rightarrow> ('s, json) action" where
  "kong_request kong http_method path body s = (case kong http_method path body s of (s', r) \<Rightarrow> (s', kong_result r))"

definition get_field :: "json \<Rightarrow> string \<Rightarrow> json \<Rightarrow> json py" where
  "get_field v k dflt = bind_py (as_dict v) (\<lambda>d. Inr (dict_get_default d k dflt))"

text \<open>\<open>resp.get("data", [])\<close>, iterated.\<close>

definition data_items :: "json \<Rightarrow> json list py" where
  "data_items v = bind_py (get_field v ''data'' (JArr [])) (items_of AttributeError)"

section \<open>Routes\<close>

text \<open>\<open>{s["id"]: s for s in ...}\<close>: a later service with the same id wins.\<close>

definition service_map :: "json list \<Rightarrow> (json \<times> json) list py" where
  "service_map ss =
     bind_py (map_py (\<lambda>s. case s of JObj d \<Rightarrow> bind_py (need d ''id'') (\<lambda>i. Inr (i, s)) | _ \<Rightarrow> Inl TypeError) ss)
       (\<lambda>ps. Inr (foldl (\<lambda>m (i, s). dict_set m i s) [] ps))"

definition plugin_summary :: "json \<Rightarrow> json py" where
  "plugin_summary p =
     (case p of
        JObj d \<Rightarrow> bind_py (map_py (need d) [''id'', ''name'', ''enabled''])
          (\<lambda>vs. Inr (JObj (zip [''id'', ''name'', ''enabled''] vs @ [(''config'', dict_get_default d ''config'' (JObj []))])))
      | _ \<Rightarrow> Inl TypeError)"

definition route_service :: "(json \<times> json) list \<Rightarrow> (string \<times> json) list \<Rightarrow> (string \<times> json) list py" where
  "route_service svc_map d =
     (let sv = dict_get_default d ''service'' JNull in
      bind_py (if truthy sv then get_field sv ''id'' JNull else Inr JNull)
        (\<lambda>svc_id. as_dict (dict_get_default svc_map svc_id (JObj []))))"

definition route_view :: "(rat \<Rightarrow> string) \<Rightarrow> (string \<times> json) list \<Rightarrow> (string \<times> json) list \<Rightarrow> json \<Rightarrow> json list \<Rightarrow> json" where
  "route_view fr d svc rid plugins =
     (let txt = (\<lambda>k v. json_str fr (dict_get_default svc k (JStr v)))
      in JObj [(''id'', rid), (''name'', dict_get_default d ''name'' (JStr ''unnamed'')),
          (''paths'', dict_get_default d ''paths'' (JArr [])), (''methods'', dict_get_default d ''methods'' JNull),
          (''protocols'', dict_get_default d ''protocols'' (JArr [])),
          (''service_name'', dict_get_default svc ''name'' (JStr ''unknown'')),
          (''service_url'', JStr (txt ''protocol'' ''http'' @ ''://'' @ txt ''host'' ''?'' @ '':'' @ txt ''port'' ''?'')),
          (''plugins'', JArr plugins)])"

fun view_routes :: "(rat \<Rightarrow> string) \<Rightarrow> 's kong \<Rightarrow> (json \<times> json) list \<Rightarrow> json list \<Rightarrow> ('s, json list) action" where
  "view_routes fr kong svc_map [] = return_act []"
| "view_routes fr kong svc_map (route # routes) =
     then_act (lift_act (as_dict route)) (\<lambda>d.
     then_act (lift_act (route_service svc_map d)) (\<lambda>svc.
     then_act (lift_act (need d ''id'')) (\<lambda>rid.
     then_act (kong_request kong ''GET'' (''/routes/'' @ json_str fr rid @ ''/plugins'') None) (\<lambda>route_plugins.
     then_act (lift_act (bind_py (data_items route_plugins) (map_py plugin_summary))) (\<lambda>plugins.
     then_act (view_routes fr kong svc_map routes) (\<lambda>rest.
     return_act (route_view fr d svc rid plugins # rest)))))))"

definition list_routes :: "(rat \<Rightarrow> string) \<Rightarrow> 's kong \<Rightarrow> ('s, json) action" where
  "list_routes fr kong =
     then_act (kong_request kong ''GET'' ''/routes'' None) (\<lambda>routes_data.
     then_act (kong_request kong ''GET'' ''/services'' None) (\<lambda>services_data.
     then_act (lift_act (bind_py (data_items services_data) service_map)) (\<lambda>svc_map.
     then_act (lift_act (data_items routes_data)) (\<lambda>routes.
     then_act (view_routes fr kong svc_map routes) (\<lambda>views. return_act (JArr views))))))"

section \<open>Plugins\<close>

text \<open>\<open>p.get(k) and p[k].get("id")\<close>.\<close>

definition scope_id :: "(string \<times> json) list \<Rightarrow> string \<Rightarrow> json option py" where
  "scope_id d k =
     (let v = dict_get_default d k JNull
      in if \<not> truthy v then Inr None
         else bind_py (get_field v ''id'' JNull) (\<lambda>i. Inr (if truthy i then Some i else None)))"

definition plugin_scope :: "(string \<times> json) list \<Rightarrow> (string \<times> json) py" where
  "plugin_scope d =
     bind_py (scope_id d ''route'') (\<lambda>r. case r of
        Some i \<Rightarrow> Inr (''route'', i)
      | None \<Rightarrow> bind_py (scope_id d ''service'') (\<lambda>sv. case sv of
            Some i \<Rightarrow> Inr (''service'', i) | None \<Rightarrow> Inr (''global'', JNull)))"

definition plugin_view :: "json \<Rightarrow> json py" where
  "plugin_view p =
     bind_py (as_dict p) (\<lambda>d. bind_py (plugin_scope d) (\<lambda>(scope, scope_target).
     bind_py (map_py (need d) [''id'', ''name'', ''enabled'']) (\<lambda>vs.
     Inr (JObj (zip [''id'', ''name'', ''enabled''] vs @
       [(''scope'', JStr scope), (''scope_target'', scope_target),
        (''config'', JObj (flatten_dict (dict_get_default d ''config'' (JObj [])))),
        (''created_at'', dict_get_default d ''created_at'' JNull)])))))"

definition list_plugins :: "'s kong \<Rightarrow> ('s, json list) action" where
  "list_plugins kong =
     then_act (kong_request kong ''GET'' ''/plugins'' None) (\<lambda>data.
     lift_act (bind_py (data_items data) (map_py plugin_view)))"

record plugin_apply =
  pa_name :: string
  pa_config :: json
  pa_route_id :: "string option"
  pa_service_id :: "string option"
  pa_enabled :: bool

record plugin_update =
  pu_config :: "json option"
  pu_enabled :: "bool option"

definition target :: "string \<Rightarrow> string option \<Rightarrow> (string \<times> json) list" where
  "target k i = (case i of Some (c # s) \<Rightarrow> [(k, JObj [(''id'', JStr (c # s))])] | _ \<Rightarrow> [])"

definition success :: "string \<Rightarrow> (string \<times> json) list \<Rightarrow> json" where
  "success message extra = JObj ([(''status'', JStr ''success''), (''message'', JStr message)] @ extra)"

definition apply_plugin :: "'s kong \<Rightarrow> plugin_apply \<Rightarrow> ('s, json) action" where
  "apply_plugin kong req =
     then_act (lift_act (unflatten_dict (pa_config req))) (\<lambda>config.
     then_act (kong_request kong ''POST'' ''/plugins'' (Some (JObj
       ([(''name'', JStr (pa_name req)), (''config'', JObj config), (''enabled'', JBool (pa_enabled req))]
        @ target ''route'' (pa_route_id req) @ target ''service'' (pa_service_id req))))) (\<lambda>result.
     return_act (success (''Plugin '' @ [CHR 0x27] @ pa_name req @ [CHR 0x27] @ '' applied'') [(''data'', result)])))"

definition update_plugin :: "'s kong \<Rightarrow> string \<Rightarrow> plugin_update \<Rightarrow> ('s, json) action" where
  "update_plugin kong plugin_id req =
     then_act (lift_act (case pu_config req of None \<Rightarrow> Inr []
         | Some c \<Rightarrow> bind_py (unflatten_dict c) (\<lambda>config. Inr [(''config'', JObj config)]))) (\<lambda>config.
     then_act (kong_request kong ''PATCH'' (''/plugins/'' @ plugin_id) (Some (JObj
       (config @ (case pu_enabled req of None \<Rightarrow> [] | Some b \<Rightarrow> [(''enabled'', JBool b)]))))) (\<lambda>result.
     return_act (success ''Plugin updated'' [(''data'', result)])))"

definition delete_plugin :: "'s kong \<Rightarrow> string \<Rightarrow> ('s, json) action" where
  "delete_plugin kong plugin_id =
     then_act (kong_request kong ''DELETE'' (''/plugins/'' @ plugin_id) None) (\<lambda>_.
     return_act (success ''Plugin removed'' []))"

section \<open>Registering a route\<close>

record auto_register_request =
  rr_path :: string
  rr_methods :: "string list"
  rr_name :: "string option"
  rr_service_id :: "string option"

fun find_backend :: "json list \<Rightarrow> json py" where
  "find_backend [] = Inr JNull"
| "find_backend (s # ss) =
     bind_py (as_dict s) (\<lambda>d.
       case dict_get_default d ''name'' (JStr []) of
         JStr n \<Rightarrow> (if contains ''fastapi'' (lower n) then need d ''id'' else find_backend ss)
       | _ \<Rightarrow> Inl AttributeError)"

definition or_none :: "string option \<Rightarrow> json" where
  "or_none i = (case i of Some (c # s) \<Rightarrow> JStr (c # s) | _ \<Rightarrow> JNull)"

definition first_id :: "json \<Rightarrow> json py" where
  "first_id v = (case v of JArr (JObj d # _) \<Rightarrow> need d ''id'' | JObj _ \<Rightarrow> Inl (KeyError ''0'') | _ \<Rightarrow> Inl TypeError)"

text \<open>The service the route is bound to: the one asked for, one whose name says that it is the backend, or
  the first.\<close>

definition target_service :: "string option \<Rightarrow> json \<Rightarrow> json py" where
  "target_service wanted services =
     bind_py (if or_none wanted \<noteq> JNull then Inr (or_none wanted)
              else bind_py (items_of AttributeError services) find_backend) (\<lambda>t.
     if \<not> truthy t \<and> truthy services then first_id services else Inr t)"

definition route_name :: "auto_register_request \<Rightarrow> string" where
  "route_name req =
     (case rr_name req of
        Some (c # s) \<Rightarrow> c # s
      | _ \<Rightarrow> (let clean_path = replace_char (CHR ''/'') ''-'' (strip_char (CHR ''/'') (rr_path req))
             in if clean_path \<noteq> [] then ''auto-'' @ clean_path else ''auto-root''))"

definition auto_register :: "'s kong \<Rightarrow> auto_register_request \<Rightarrow> ('s, json) action" where
  "auto_register kong req =
     then_act (kong_request kong ''GET'' ''/services'' None) (\<lambda>services_resp.
     then_act (lift_act (get_field services_resp ''data'' (JArr []))) (\<lambda>services.
     then_act (lift_act (target_service (rr_service_id req) services)) (\<lambda>t.
     if \<not> truthy t then raise_act (HTTPException 400 (JStr ''No Kong services found to bind the route to.''))
     else then_act (kong_request kong ''POST'' ''/routes'' (Some (JObj
         [(''name'', JStr (route_name req)), (''paths'', JArr [JStr (rr_path req)]),
          (''methods'', JArr (map JStr (rr_methods req))), (''service'', JObj [(''id'', t)]),
          (''strip_path'', JBool False)]))) (\<lambda>result.
       return_act (success (''Route '' @ route_name req @ '' registered.'') [(''data'', result)])))))"

end
