(* ===== verification/Kong_Discovery.thy ===== *)
theory Kong_Discovery
  imports Kong_Admin Py_Num "HOL-Library.Multiset"
begin

text \<open>
  Which of the application's paths Kong guards, and the catalog of Kong's plugins
  (\<open>route_discovery\<close>, \<open>flatten_schema\<close> and \<open>get_plugin_catalog\<close> of
  src/fastapi\_backend/app/api/admin/gateway\_plugins.py). The paths FastAPI reports are a list of
  records; \<open>uniq\<close> is \<open>list(set(tags))\<close>, whose order Python leaves open.
\<close>

section \<open>The application's paths\<close>

record api_path =
  ap_path :: string
  ap_methods :: "string list"
  ap_tags :: "json list"

text \<open>The paths of the OpenAPI document: per path its methods, each with its tags if it has some.\<close>

definition api_paths :: "(json list \<Rightarrow> json list) \<Rightarrow> (string \<times> (string \<times> json list option) list) list \<Rightarrow> api_path list" where
  "api_paths uniq openapi = map (\<lambda>(path, methods).
     \<lparr>ap_path = path, ap_methods = map (upper \<circ> fst) methods,
      ap_tags = uniq (concat (map (\<lambda>(_, tags). case tags of None \<Rightarrow> [] | Some ts \<Rightarrow> ts) methods))\<rparr>) openapi"

section \<open>Matching\<close>

text \<open>\<open>"id" in v\<close>.\<close>

definition has_id :: "json \<Rightarrow> bool py" where
  "has_id v = (case v of
     JObj d \<Rightarrow> Inr (dict_get d ''id'' \<noteq> None) | JArr xs \<Rightarrow> Inr (JStr ''id'' \<in> set xs)
   | JStr s \<Rightarrow> Inr (contains ''id'' s) | _ \<Rightarrow> Inl TypeError)"

definition route_of_plugin :: "json \<Rightarrow> json option py" where
  "route_of_plugin p =
     bind_py (as_dict p) (\<lambda>d. case dict_get d ''route'' of
        None \<Rightarrow> Inr None
      | Some JNull \<Rightarrow> Inr None
      | Some r \<Rightarrow> bind_py (has_id r) (\<lambda>b. if \<not> b then Inr None
          else case r of JObj e \<Rightarrow> bind_py (need e ''id'') (\<lambda>i. Inr (Some i)) | _ \<Rightarrow> Inl TypeError))"

fun plugins_by_route :: "json list \<Rightarrow> (json \<times> json list) list \<Rightarrow> (json \<times> json list) list py" where
  "plugins_by_route [] m = Inr m"
| "plugins_by_route (p # ps) m =
     bind_py (route_of_plugin p) (\<lambda>r. case r of
        None \<Rightarrow> plugins_by_route ps m
      | Some rid \<Rightarrow> plugins_by_route ps (dict_set m rid (dict_get_default m rid [] @ [p])))"

text \<open>\<open>any(api_path.startswith(kp) or api_path == kp for kp in paths)\<close>, stopping at the first.\<close>

fun prefix_in :: "string \<Rightarrow> json list \<Rightarrow> bool py" where
  "prefix_in api_path [] = Inr False"
| "prefix_in api_path (kp # kps) =
     (case kp of JStr p \<Rightarrow> (if starts_with p api_path then Inr True else prefix_in api_path kps) | _ \<Rightarrow> Inl TypeError)"

definition path_items :: "json \<Rightarrow> json list py" where
  "path_items v = (case json_iter v of None \<Rightarrow> Inl TypeError | Some xs \<Rightarrow> Inr xs)"

fun find_kong_route :: "string \<Rightarrow> json list \<Rightarrow> (string \<times> json) list option py" where
  "find_kong_route api_path [] = Inr None"
| "find_kong_route api_path (kr # krs) =
     bind_py (as_dict kr) (\<lambda>d.
     bind_py (path_items (dict_get_default d ''paths'' (JArr []))) (\<lambda>kps.
     bind_py (prefix_in api_path kps) (\<lambda>hit. if hit then Inr (Some d) else find_kong_route api_path krs)))"

section \<open>Rows\<close>

record api_row =
  row_path :: string
  row_methods :: "string list"
  row_tags :: "json list"
  row_status :: string
  row_kong_route :: json
  row_kong_route_id :: json
  row_plugins :: "json list"

definition plugin_names :: "json list \<Rightarrow> json list py" where
  "plugin_names ps = map_py (\<lambda>p. bind_py (as_dict p) (\<lambda>d. need d ''name'')) ps"

definition discover_path :: "json list \<Rightarrow> (json \<times> json list) list \<Rightarrow> api_path \<Rightarrow> api_row py" where
  "discover_path kong_routes by_route fp =
     bind_py (find_kong_route (ap_path fp) kong_routes) (\<lambda>kr. case kr of
        Some (x # d) \<Rightarrow>
          bind_py (need (x # d) ''id'') (\<lambda>rid.
            let route_plugins = dict_get_default by_route rid [] in
            bind_py (plugin_names route_plugins) (\<lambda>ns.
            Inr \<lparr>row_path = ap_path fp, row_methods = ap_methods fp, row_tags = ap_tags fp,
              row_status = (if route_plugins \<noteq> [] then ''protected'' else ''registered''),
              row_kong_route = dict_get_default (x # d) ''name'' rid, row_kong_route_id = rid, row_plugins = ns\<rparr>))
      | _ \<Rightarrow> Inr \<lparr>row_path = ap_path fp, row_methods = ap_methods fp, row_tags = ap_tags fp,
              row_status = ''exposed'', row_kong_route = JNull, row_kong_route_id = JNull, row_plugins = []\<rparr>)"

definition kong_only_entry :: "(json \<times> json list) list \<Rightarrow> json list \<Rightarrow> json \<Rightarrow> json list py" where
  "kong_only_entry by_route matched kr =
     bind_py (as_dict kr) (\<lambda>d. bind_py (need d ''id'') (\<lambda>rid.
       if rid \<in> set matched then Inr []
       else bind_py (plugin_names (dict_get_default by_route rid [])) (\<lambda>ns.
         Inr [JObj [(''id'', rid), (''name'', dict_get_default d ''name'' rid),
           (''paths'', dict_get_default d ''paths'' (JArr [])), (''plugins'', JArr ns)]])))"

definition coverage_percent :: "api_row list \<Rightarrow> int" where
  "coverage_percent rows =
     (if rows = [] then 0
      else floor (fpercent (of_nat (length (filter (\<lambda>r. row_status r \<in> {''protected'', ''registered''}) rows)))
        (of_nat (length rows))))"

definition status_order :: "string \<Rightarrow> nat" where
  "status_order st = (if st = ''exposed'' then 0 else if st = ''registered'' then 1
     else if st = ''protected'' then 2 else 99)"

text \<open>Python sorts by the pair of order and path; two stable sorts do the same.\<close>

definition sort_rows :: "api_row list \<Rightarrow> api_row list" where
  "sort_rows rows = sort_key (status_order \<circ> row_status) (sort_key row_path rows)"

definition row_json :: "api_row \<Rightarrow> json" where
  "row_json r = JObj
     [(''path'', JStr (row_path r)), (''methods'', JArr (map JStr (row_methods r))), (''tags'', JArr (row_tags r)),
      (''status'', JStr (row_status r)), (''kong_route'', row_kong_route r),
      (''kong_route_id'', row_kong_route_id r), (''plugins'', JArr (row_plugins r))]"

definition discover :: "json list \<Rightarrow> json list \<Rightarrow> api_path list \<Rightarrow> (api_row list \<times> json list) py" where
  "discover kong_routes kong_plugins paths =
     bind_py (plugins_by_route kong_plugins []) (\<lambda>by_route.
     bind_py (map_py (discover_path kong_routes by_route) paths) (\<lambda>rows.
     bind_py (map_py (kong_only_entry by_route
         (map row_kong_route_id (filter (\<lambda>r. row_status r \<noteq> ''exposed'') rows))) kong_routes) (\<lambda>only.
     Inr (rows, concat only))))"

definition route_discovery :: "(json list \<Rightarrow> json list) \<Rightarrow> 's kong \<Rightarrow> (string \<times> (string \<times> json list option) list) list
    \<Rightarrow> ('s, json) action" where
  "route_discovery uniq kong openapi =
     then_act (kong_request kong ''GET'' ''/routes'' None) (\<lambda>routes_resp.
     then_act (lift_act (data_items routes_resp)) (\<lambda>kong_routes.
     then_act (kong_request kong ''GET'' ''/plugins'' None) (\<lambda>plugins_resp.
     then_act (lift_act (data_items plugins_resp)) (\<lambda>kong_plugins.
     then_act (lift_act (discover kong_routes kong_plugins (api_paths uniq openapi))) (\<lambda>(rows, kong_only).
     return_act (JObj
       [(''total_backend_paths'', JInt (int (length rows))), (''total_kong_routes'', JInt (int (length kong_routes))),
        (''coverage_percent'', JInt (coverage_percent rows)),
        (''paths'', JArr (map row_json (sort_rows rows))), (''kong_only_routes'', JArr kong_only)]))))))"

section \<open>The catalog\<close>

text \<open>The fields of a schema as a flat list: a record is entered with its key in front.\<close>

definition field_type :: "json \<Rightarrow> string" where
  "field_type t = (if t = JStr ''boolean'' then ''boolean''
     else if t = JStr ''number'' \<or> t = JStr ''integer'' then ''number'' else ''text'')"

definition field_json :: "string \<Rightarrow> (string \<times> json) list \<Rightarrow> json" where
  "field_json key d = JObj
     [(''key'', JStr key), (''label'', JStr key), (''type'', JStr (field_type (dict_get_default d ''type'' JNull))),
      (''default'', dict_get_default d ''default'' (JStr [])), (''required'', dict_get_default d ''required'' (JBool False)),
      (''description'', dict_get_default d ''description'' (JStr []))]"

lemma size_dict_get: "dict_get d k = Some v \<Longrightarrow> size v < size (JObj d)"
  by (induction d k rule: dict_get.induct) (auto split: if_splits)

lemma size_items: "items_of e v = Inr xs \<Longrightarrow> size_list size xs < Suc (size v)"
  by (auto simp: items_of_def split: json.splits if_splits)

function flatten_schema :: "string \<Rightarrow> json \<Rightarrow> json list py"
  and flatten_fields :: "string \<Rightarrow> json list \<Rightarrow> json list py"
  and flatten_entries :: "string \<Rightarrow> (string \<times> json) list \<Rightarrow> json list py" where
  "flatten_schema prefix schema =
     (case schema of
        JObj d \<Rightarrow>
          (case dict_get d ''fields'' of
             None \<Rightarrow> Inr []
           | Some fs \<Rightarrow> (case items_of AttributeError fs of Inl e \<Rightarrow> Inl e | Inr xs \<Rightarrow> flatten_fields prefix xs))
      | _ \<Rightarrow> Inr [])"
| "flatten_fields prefix [] = Inr []"
| "flatten_fields prefix (field_obj # objs) =
     (case field_obj of
        JObj kvs \<Rightarrow>
          (case flatten_entries prefix kvs of
             Inl e \<Rightarrow> Inl e
           | Inr found \<Rightarrow> (case flatten_fields prefix objs of Inl e \<Rightarrow> Inl e | Inr rest \<Rightarrow> Inr (found @ rest)))
      | _ \<Rightarrow> Inl AttributeError)"
| "flatten_entries prefix [] = Inr []"
| "flatten_entries prefix ((key, details) # kvs) =
     (case details of
        JObj d \<Rightarrow>
          (case (if dict_get_default d ''type'' JNull = JStr ''record'' \<and> dict_get d ''fields'' \<noteq> None
              then flatten_schema (prefix @ key @ ''.'') details else Inr [field_json (prefix @ key) d]) of
             Inl e \<Rightarrow> Inl e
           | Inr found \<Rightarrow> (case flatten_entries prefix kvs of Inl e \<Rightarrow> Inl e | Inr rest \<Rightarrow> Inr (found @ rest)))
      | _ \<Rightarrow> Inl AttributeError)"
  by pat_completeness auto

termination
proof (relation "measure (\<lambda>x. case x of Inl (prefix, v) \<Rightarrow> 2 * size v
     | Inr (Inl (prefix, xs)) \<Rightarrow> Suc (2 * size_list size xs)
     | Inr (Inr (prefix, kvs)) \<Rightarrow> Suc (2 * size (JObj kvs)))")
qed (auto dest!: size_dict_get size_items)

text \<open>The categories of \<open>PLUGIN_METADATA\<close>.\<close>

definition plugin_metadata :: "(string \<times> string) list" where
  "plugin_metadata =
     [(''rate-limiting'', ''traffic''), (''ip-restriction'', ''security''), (''cors'', ''traffic''),
      (''key-auth'', ''auth''), (''basic-auth'', ''auth''), (''oauth2'', ''auth''), (''hmac-auth'', ''auth''),
      (''http-log'', ''logging''), (''file-log'', ''logging''), (''correlation-id'', ''logging''),
      (''opentelemetry'', ''logging''), (''prometheus'', ''logging''),
      (''request-transformer'', ''transformation''), (''response-transformer'', ''transformation''),
      (''pre-function'', ''transformation''), (''post-function'', ''transformation''),
      (''ai-proxy'', ''ai''), (''ai-prompt-guard'', ''security''), (''ai-prompt-decorator'', ''ai'')]"

definition category_order :: "string \<Rightarrow> nat" where
  "category_order c = dict_get_default
     [(''traffic'', 1), (''security'', 2), (''auth'', 3), (''ai'', 4), (''logging'', 5), (''transformation'', 6), (''other'', 7)] c 99"

record catalog_entry =
  ce_name :: string
  ce_description :: json
  ce_category :: string
  ce_fields :: "json list"

text \<open>\<open>fetch_and_parse\<close>: any exception drops the plugin.\<close>

definition fetch_and_parse :: "'s kong \<Rightarrow> string \<Rightarrow> 's \<Rightarrow> 's \<times> catalog_entry option" where
  "fetch_and_parse kong plugin_name s =
     (case kong_request kong ''GET'' (''/plugins/schema/'' @ plugin_name) None s of
        (s', Inl e) \<Rightarrow> (s', None)
      | (s', Inr schema) \<Rightarrow> (s',
          case bind_py (get_field schema ''description''
                 (JStr (''Automatically discovered Kong plugin: '' @ plugin_name)))
               (\<lambda>descr. bind_py (flatten_schema [] schema) (\<lambda>fs. Inr
                 \<lparr>ce_name = plugin_name, ce_description = descr,
                  ce_category = dict_get_default plugin_metadata plugin_name ''other'', ce_fields = fs\<rparr>)) of
            Inl e \<Rightarrow> None | Inr c \<Rightarrow> Some c))"

fun fetch_all :: "'s kong \<Rightarrow> string list \<Rightarrow> 's \<Rightarrow> 's \<times> catalog_entry list" where
  "fetch_all kong [] s = (s, [])"
| "fetch_all kong (n # ns) s =
     (case fetch_and_parse kong n s of (s1, c) \<Rightarrow> case fetch_all kong ns s1 of (s2, cs) \<Rightarrow>
        (s2, (case c of None \<Rightarrow> cs | Some x \<Rightarrow> x # cs)))"

definition sort_catalog :: "catalog_entry list \<Rightarrow> catalog_entry list" where
  "sort_catalog cs = sort_key (category_order \<circ> ce_category) (sort_key ce_name cs)"

definition get_plugin_catalog :: "'s kong \<Rightarrow> ('s, catalog_entry list) action" where
  "get_plugin_catalog kong =
     then_act (kong_request kong ''GET'' ''/'' None) (\<lambda>root_data.
     then_act (lift_act (bind_py (get_field root_data ''plugins'' (JObj [])) (\<lambda>ps.
       bind_py (get_field ps ''available_on_server'' (JObj [])) as_dict))) (\<lambda>available.
     (\<lambda>s. case fetch_all kong (map fst available) s of (s', cs) \<Rightarrow> (s', Inr (sort_catalog cs)))))"

section \<open>What discovery says\<close>

text \<open>A route of Kong guards a path when one of its paths is a prefix of it.\<close>

definition guards :: "json \<Rightarrow> string \<Rightarrow> bool" where
  "guards kr path = (\<exists>d kps p. kr = JObj d \<and> json_iter (dict_get_default d ''paths'' (JArr [])) = Some kps
     \<and> JStr p \<in> set kps \<and> starts_with p path)"

lemma prefix_in_iff: "prefix_in a kps = Inr b \<Longrightarrow> b \<longleftrightarrow> (\<exists>p. JStr p \<in> set kps \<and> starts_with p a)"
  by (induction a kps rule: prefix_in.induct) (auto split: json.splits if_splits)

lemma find_kong_route_iff:
  assumes "find_kong_route a krs = Inr r"
  shows "case r of None \<Rightarrow> \<not> (\<exists>kr \<in> set krs. guards kr a)
    | Some d \<Rightarrow> d \<noteq> [] \<and> JObj d \<in> set krs \<and> guards (JObj d) a"
  using assms
proof (induction a krs rule: find_kong_route.induct)
  case (1 a)
  then show ?case by auto
next
  case (2 a kr krs)
  then obtain d kps hit where d: "kr = JObj d" "json_iter (dict_get_default d ''paths'' (JArr [])) = Some kps"
    "prefix_in a kps = Inr hit" "(if hit then Inr (Some d) else find_kong_route a krs) = Inr r"
    by (auto simp: bind_py_Inr_iff as_dict_def path_items_def split: json.splits option.splits)
  note h = prefix_in_iff [OF d(3)]
  show ?case
  proof (cases hit)
    case True
    with d h have "guards (JObj d) a" by (auto simp: guards_def)
    moreover from True d(2) h have "d \<noteq> []" by (auto simp: json_iter_def dict_get_default_def)
    ultimately show ?thesis using True d by auto
  next
    case False
    with d h have ng: "\<not> guards kr a" by (auto simp: guards_def)
    have "case r of None \<Rightarrow> \<not> (\<exists>kr \<in> set krs. guards kr a)
      | Some d \<Rightarrow> d \<noteq> [] \<and> JObj d \<in> set krs \<and> guards (JObj d) a"
      using 2 d False by (auto simp: as_dict_def path_items_def)
    with ng show ?thesis by (auto split: option.splits)
  qed
qed

lemma discover_path_row:
  assumes "discover_path krs m fp = Inr r"
  shows "row_path r = ap_path fp \<and> row_status r \<in> {''exposed'', ''registered'', ''protected''}
    \<and> (row_status r = ''exposed'' \<longleftrightarrow> \<not> (\<exists>kr \<in> set krs. guards kr (ap_path fp)))
    \<and> (row_status r = ''protected'' \<longleftrightarrow> row_plugins r \<noteq> [])"
proof -
  have names: "plugin_names ps = Inr ns \<Longrightarrow> ns = [] \<longleftrightarrow> ps = []" for ps ns
    by (auto simp: plugin_names_def map_py_Inr_iff)
  from assms obtain k where k: "find_kong_route (ap_path fp) krs = Inr k"
    by (auto simp: discover_path_def bind_py_Inr_iff)
  show ?thesis
  proof (cases k)
    case None
    with find_kong_route_iff [OF k] assms k show ?thesis by (auto simp: discover_path_def)
  next
    case (Some d)
    with find_kong_route_iff [OF k] obtain x e where d: "d = x # e" and g: "\<exists>kr \<in> set krs. guards kr (ap_path fp)"
      by (cases d) auto
    with assms k Some obtain rid ns where "plugin_names (dict_get_default m rid []) = Inr ns"
      "r = \<lparr>row_path = ap_path fp, row_methods = ap_methods fp, row_tags = ap_tags fp,
          row_status = (if dict_get_default m rid [] \<noteq> [] then ''protected'' else ''registered''),
          row_kong_route = dict_get_default d ''name'' rid, row_kong_route_id = rid, row_plugins = ns\<rparr>"
      by (auto simp: discover_path_def bind_py_Inr_iff Let_def)
    with g names show ?thesis by auto
  qed
qed

lemma coverage_bounds: "0 \<le> coverage_percent rows \<and> coverage_percent rows \<le> 100"
proof (cases "rows = []")
  case False
  define n where "n = length (filter (\<lambda>r. row_status r \<in> {''protected'', ''registered''}) rows)"
  have "(0::rat) \<le> of_nat n" "(of_nat n :: rat) \<le> of_nat (length rows)" "(0::rat) < of_nat (length rows)"
    using False length_filter_le [of _ rows] by (simp_all add: n_def)
  from fpercent_bounds [OF this] False show ?thesis
    by (auto simp: coverage_percent_def n_def le_floor_iff floor_le_iff)
qed (simp add: coverage_percent_def)

text \<open>C37. Discovery tells the truth about what Kong guards: every path of the application gets one row,
  marked exposed exactly when no route of Kong has a path that is a prefix of it and protected
  exactly when the route found has plugins of its own; the coverage lies between 0 and 100; and the
  list shown is the same rows with the exposed ones first.\<close>

theorem discovery_is_truthful:
  assumes "discover kong_routes kong_plugins paths = Inr (rows, only)"
  shows "list_all2 (\<lambda>p r. row_path r = ap_path p
      \<and> (row_status r = ''exposed'' \<longleftrightarrow> \<not> (\<exists>kr \<in> set kong_routes. guards kr (ap_path p)))
      \<and> (row_status r = ''protected'' \<longleftrightarrow> row_plugins r \<noteq> [])
      \<and> row_status r \<in> {''exposed'', ''registered'', ''protected''}) paths rows
    \<and> 0 \<le> coverage_percent rows \<and> coverage_percent rows \<le> 100
    \<and> mset (sort_rows rows) = mset rows
    \<and> sorted (map (status_order \<circ> row_status) (sort_rows rows))"
proof -
  from assms obtain m where m: "map_py (discover_path kong_routes m) paths = Inr rows"
    by (auto simp: discover_def bind_py_Inr_iff)
  then have "list_all2 (\<lambda>p r. discover_path kong_routes m p = Inr r) paths rows" by (simp add: map_py_Inr_iff)
  then have "list_all2 (\<lambda>p r. row_path r = ap_path p
      \<and> (row_status r = ''exposed'' \<longleftrightarrow> \<not> (\<exists>kr \<in> set kong_routes. guards kr (ap_path p)))
      \<and> (row_status r = ''protected'' \<longleftrightarrow> row_plugins r \<noteq> [])
      \<and> row_status r \<in> {''exposed'', ''registered'', ''protected''}) paths rows"
    by (rule list_all2_mono) (use discover_path_row in blast)
  then show ?thesis using coverage_bounds [of rows] by (simp add: sort_rows_def)
qed

section \<open>What registering does\<close>

lemma find_backend_Inr: "find_backend ss = Inr t \<Longrightarrow> t = JNull \<or> (\<exists>d. JObj d \<in> set ss \<and> dict_get d ''id'' = Some t)"
  by (induction ss rule: find_backend.induct)
    (auto simp: bind_py_Inr_iff as_dict_def need_def split: json.splits if_splits option.splits)

lemma target_service_Inr:
  assumes "target_service wanted (JArr ss) = Inr t" and "truthy t"
  shows "(\<exists>c w. wanted = Some (c # w) \<and> t = JStr (c # w)) \<or> (\<exists>d. JObj d \<in> set ss \<and> dict_get d ''id'' = Some t)"
proof (cases "or_none wanted = JNull")
  case False
  with assms show ?thesis by (auto simp: target_service_def or_none_def split: option.splits list.splits)
next
  case True
  with assms(1) obtain t0 where t0: "find_backend ss = Inr t0"
    "(if \<not> truthy t0 \<and> ss \<noteq> [] then first_id (JArr ss) else Inr t0) = Inr t"
    by (auto simp: target_service_def bind_py_Inr_iff items_of_def)
  show ?thesis
  proof (cases "truthy t0")
    case True
    with t0 find_backend_Inr [OF t0(1)] show ?thesis by auto
  next
    case False
    with t0 assms(2) show ?thesis
      by (cases ss) (auto simp: first_id_def need_def split: if_splits json.splits option.splits)
  qed
qed

text \<open>Registering an exposed path sends Kong one new route for exactly that path and those methods,
  bound to the service asked for or to a service Kong listed, and keeps the path unstripped; what
  Kong answers to it decides the result.\<close>

theorem auto_register_posts_one_route:
  assumes "auto_register kong req s = (s', Inr reply)"
    and "kong_request kong ''GET'' ''/services'' None s = (s1, Inr (JObj [(''data'', JArr ss)]))"
  shows "\<exists>t body answer. kong_request kong ''POST'' ''/routes'' (Some (JObj body)) s1 = (s', Inr answer)
    \<and> dict_get body ''paths'' = Some (JArr [JStr (rr_path req)])
    \<and> dict_get body ''methods'' = Some (JArr (map JStr (rr_methods req)))
    \<and> dict_get body ''service'' = Some (JObj [(''id'', t)]) \<and> dict_get body ''strip_path'' = Some (JBool False)
    \<and> ((\<exists>c w. rr_service_id req = Some (c # w) \<and> t = JStr (c # w))
       \<or> (\<exists>d. JObj d \<in> set ss \<and> dict_get d ''id'' = Some t))
    \<and> jobj_get reply ''data'' = Some answer"
proof -
  have svc: "get_field (JObj [(''data'', JArr ss)]) ''data'' (JArr []) = Inr (JArr ss)"
    by (simp add: get_field_def as_dict_def dict_get_default_def)
  from assms(1) [unfolded auto_register_def then_act_Inr_iff] assms(2) svc
  obtain t where t: "target_service (rr_service_id req) (JArr ss) = Inr t"
    and r: "(if \<not> truthy t then raise_act (HTTPException 400 (JStr ''No Kong services found to bind the route to.''))
     else then_act (kong_request kong ''POST'' ''/routes'' (Some (JObj
         [(''name'', JStr (route_name req)), (''paths'', JArr [JStr (rr_path req)]),
          (''methods'', JArr (map JStr (rr_methods req))), (''service'', JObj [(''id'', t)]),
          (''strip_path'', JBool False)]))) (\<lambda>result.
       return_act (success (''Route '' @ route_name req @ '' registered.'') [(''data'', result)]))) s1 = (s', Inr reply)"
    by auto
  from r have tt: "truthy t" by (auto simp: raise_act_def split: if_splits)
  with r obtain answer where a: "kong_request kong ''POST'' ''/routes'' (Some (JObj
         [(''name'', JStr (route_name req)), (''paths'', JArr [JStr (rr_path req)]),
          (''methods'', JArr (map JStr (rr_methods req))), (''service'', JObj [(''id'', t)]),
          (''strip_path'', JBool False)])) s1 = (s', Inr answer)"
    "reply = success (''Route '' @ route_name req @ '' registered.'') [(''data'', answer)]"
    by (auto simp: then_act_Inr_iff)
  define body where "body = [(''name'', JStr (route_name req)), (''paths'', JArr [JStr (rr_path req)]),
      (''methods'', JArr (map JStr (rr_methods req))), (''service'', JObj [(''id'', t)]), (''strip_path'', JBool False)]"
  have "dict_get body ''paths'' = Some (JArr [JStr (rr_path req)])"
    "dict_get body ''methods'' = Some (JArr (map JStr (rr_methods req)))"
    "dict_get body ''service'' = Some (JObj [(''id'', t)])" "dict_get body ''strip_path'' = Some (JBool False)"
    by (simp_all add: body_def)
  moreover have "jobj_get reply ''data'' = Some answer" by (simp add: a(2) success_def jobj_get_def)
  ultimately show ?thesis using target_service_Inr [OF t tt] a(1) unfolding body_def [symmetric] by blast
qed

section \<open>Witnesses\<close>

text \<open>A Kong with one route, guarded by a plugin, and one service.\<close>

definition sample_kong :: "nat kong" where
  "sample_kong = (\<lambda>m p b n. (if m = ''POST'' then n + 1 else n,
     Kong_Answer 200 [] (Some (if m = ''POST'' then JObj [(''id'', JStr ''new'')]
       else JObj [(''data'', JArr [JObj [(''id'', JStr ''s1''), (''name'', JStr ''FastAPI backend'')]])]))))"

definition sample_routes :: "json list" where
  "sample_routes = [JObj [(''id'', JStr ''r1''), (''paths'', JArr [JStr ''/api/v1''])]]"

definition sample_plugins :: "json list" where
  "sample_plugins = [JObj [(''name'', JStr ''cors''), (''route'', JObj [(''id'', JStr ''r1'')])]]"

definition sample_paths :: "api_path list" where
  "sample_paths = [\<lparr>ap_path = ''/api/v1/ai'', ap_methods = [''POST''], ap_tags = []\<rparr>,
     \<lparr>ap_path = ''/docs'', ap_methods = [''GET''], ap_tags = []\<rparr>]"

theorem discovery_is_truthful_witness:
  "\<exists>rows only. discover sample_routes sample_plugins sample_paths = Inr (rows, only)
     \<and> map row_status rows = [''protected'', ''exposed''] \<and> coverage_percent rows \<le> 100
     \<and> \<not> (\<exists>kr \<in> set sample_routes. guards kr ''/docs'')"
proof -
  have "\<exists>rows only. discover sample_routes sample_plugins sample_paths = Inr (rows, only)
      \<and> map row_status rows = [''protected'', ''exposed''] \<and> map row_path rows = [''/api/v1/ai'', ''/docs'']"
    by (simp add: discover_def sample_routes_def sample_plugins_def sample_paths_def route_of_plugin_def as_dict_def
        has_id_def need_def dict_get_default_def discover_path_def path_items_def json_iter_def plugin_names_def
        kong_only_entry_def Let_def)
  then obtain rows only where d: "discover sample_routes sample_plugins sample_paths = Inr (rows, only)"
    and st: "map row_status rows = [''protected'', ''exposed'']" and p: "map row_path rows = [''/api/v1/ai'', ''/docs'']"
    by (elim exE conjE) (rule that)
  from discovery_is_truthful [OF d] st p show ?thesis
    using d by (auto simp: sample_paths_def list_all2_Cons1)
qed

theorem auto_register_posts_one_route_witness:
  "\<exists>s' reply body answer. auto_register sample_kong \<lparr>rr_path = ''/docs'', rr_methods = [''GET''], rr_name = None,
       rr_service_id = None\<rparr> 0 = (s', Inr reply)
     \<and> kong_request sample_kong ''POST'' ''/routes'' (Some (JObj body)) 0 = (s', Inr answer)
     \<and> dict_get body ''paths'' = Some (JArr [JStr ''/docs''])"
proof -
  let ?req = "\<lparr>rr_path = ''/docs'', rr_methods = [''GET''], rr_name = None, rr_service_id = None\<rparr>"
  have g: "kong_request sample_kong ''GET'' ''/services'' None 0
      = (0, Inr (JObj [(''data'', JArr [JObj [(''id'', JStr ''s1''), (''name'', JStr ''FastAPI backend'')]])]))"
    by (simp add: kong_request_def sample_kong_def kong_result_def)
  have l: "contains ''fastapi'' (lower ''FastAPI backend'')" by code_simp
  have "target_service None (JArr [JObj [(''id'', JStr ''s1''), (''name'', JStr ''FastAPI backend'')]]) = Inr (JStr ''s1'')"
    using l by (simp add: target_service_def or_none_def items_of_def as_dict_def dict_get_default_def need_def)
  then obtain s' reply where r: "auto_register sample_kong ?req 0 = (s', Inr reply)"
    by (simp add: auto_register_def then_act_def g get_field_def as_dict_def dict_get_default_def lift_act_def)
      (simp add: kong_request_def sample_kong_def kong_result_def return_act_def)
  from auto_register_posts_one_route [OF r g] r show ?thesis by auto
qed

end
