(* ===== verification/Security_Admin.thy ===== *)
theory Security_Admin
  imports Database Prompt_Security Cache Py_Num
begin

text \<open>
  The administration of the injection patterns (src/fastapi\_backend/app/api/admin/security\_patterns.py)
  and the feed and score of security events (api/admin/security\_events\_admin.py). \<open>re.compile\<close> is the
  parameter \<open>compile\<close>, a message or the search it gives; what the columns of the pattern table make of
  a row is the parameter \<open>column_values\<close> (\<open>None\<close>: the database refuses it); the rows of the last day
  are singled out by \<open>recent\<close>, since the server's time stamps are not part of the tables.
\<close>

section \<open>Patterns\<close>

type_synonym re_compile = "string \<Rightarrow> string + (string \<Rightarrow> bool)"

definition compiled_or_none :: "re_compile \<Rightarrow> string \<Rightarrow> (string \<Rightarrow> bool) option" where
  "compiled_or_none compile p = (case compile p of Inl _ \<Rightarrow> None | Inr f \<Rightarrow> Some f)"

definition list_patterns :: "database \<Rightarrow> (int \<times> security_pattern) list" where
  "list_patterns db = sort_key fst (t_security_patterns db)"

definition integrity_message :: "string \<Rightarrow> exn" where
  "integrity_message e = HTTPException 400 (JStr (''Integrity Error (Duplicate Name?): '' @ e))"

definition create_pattern :: "re_compile \<Rightarrow> (security_pattern \<Rightarrow> security_pattern option) \<Rightarrow> string \<Rightarrow> int
    \<Rightarrow> security_pattern \<Rightarrow> database \<Rightarrow> database \<times> (exn + int \<times> security_pattern)" where
  "create_pattern compile column_values error_text new_id pattern_data db =
     (case compile (sp_pattern pattern_data) of
        Inl e \<Rightarrow> (db, Inl (HTTPException 400 (JStr (''Invalid Regex Pattern: '' @ e))))
      | Inr _ \<Rightarrow>
          (case column_values pattern_data of
             None \<Rightarrow> (db, Inl (integrity_message error_text))
           | Some row \<Rightarrow>
               (if list_ex (\<lambda>p. sp_name (snd p) = sp_name row) (t_security_patterns db)
                then (db, Inl (integrity_message error_text))
                else (db\<lparr>t_security_patterns := t_security_patterns db @ [(new_id, row)]\<rparr>, Inr (new_id, row)))))"

definition delete_pattern :: "int \<Rightarrow> database \<Rightarrow> database \<times> (exn + json)" where
  "delete_pattern pattern_id db =
     (if list_ex (\<lambda>p. fst p = pattern_id) (t_security_patterns db)
      then (db\<lparr>t_security_patterns := filter (\<lambda>p. fst p \<noteq> pattern_id) (t_security_patterns db)\<rparr>,
            Inr (JObj [(''status'', JStr ''success'')]))
      else (db, Inl (HTTPException 404 (JStr ''Pattern not found''))))"

definition reload_from_db :: "re_compile \<Rightarrow> database \<Rightarrow> prompt_security_service \<Rightarrow> prompt_security_service" where
  "reload_from_db compile db st =
     reload_patterns (compiled_or_none compile) (map snd (t_security_patterns db)) st"

text \<open>The scanner is a cache of the table: what it shows after a reload is the list of patterns.\<close>

definition patterns_of :: "re_compile \<Rightarrow> database \<Rightarrow> injection_pattern list" where
  "patterns_of compile db =
     (let new = compile_rows (compiled_or_none compile) (filter sp_is_active (map snd (t_security_patterns db)))
      in if new \<noteq> [] then new else injection_patterns)"

interpretation scanner: table_cache "reload_from_db compile" ps_patterns "patterns_of compile" for compile
  by unfold_locales (simp add: reload_from_db_def reload_patterns_def patterns_of_def Let_def)

section \<open>Events\<close>

definition list_security_events :: "nat \<Rightarrow> string option \<Rightarrow> string option \<Rightarrow> security_event list \<Rightarrow> security_event list" where
  "list_security_events limit event_type decision rows =
     take limit (filter (\<lambda>e. (case event_type of Some (c # s) \<Rightarrow> se_event_type e = c # s | _ \<Rightarrow> True)
       \<and> (case decision of Some (c # s) \<Rightarrow> se_decision e = c # s | _ \<Rightarrow> True)) (rev rows))"

section \<open>The score\<close>

definition pattern_points :: "nat \<Rightarrow> int" where
  "pattern_points active = min 20 (int active * 2)"

text \<open>The plugins Kong reports; \<open>None\<close> stands for any exception of the exchange or of reading it.\<close>

definition active_plugin_names :: "json \<Rightarrow> json list option" where
  "active_plugin_names answer =
     (case jobj_get answer ''data'' of
        None \<Rightarrow> (case answer of JObj _ \<Rightarrow> Some [] | _ \<Rightarrow> None)
      | Some (JArr ps) \<Rightarrow>
          (if list_all (\<lambda>p. case p of JObj d \<Rightarrow>
               \<not> truthy (dict_get_default d ''enabled'' (JBool True)) \<or> dict_get d ''name'' \<noteq> None | _ \<Rightarrow> False) ps
           then Some (map (\<lambda>p. the (jobj_get p ''name''))
             (filter (\<lambda>p. case p of JObj d \<Rightarrow> truthy (dict_get_default d ''enabled'' (JBool True)) | _ \<Rightarrow> False) ps))
           else None)
      | Some (JObj d) \<Rightarrow> (if d = [] then Some [] else None)
      | Some (JStr s) \<Rightarrow> (if s = [] then Some [] else None)
      | Some _ \<Rightarrow> None)"

datatype kong_plugins_reply = Plugins_Failed | Plugins_Status nat json

definition kong_points :: "kong_plugins_reply \<Rightarrow> int" where
  "kong_points reply =
     (case reply of
        Plugins_Failed \<Rightarrow> 0
      | Plugins_Status code answer \<Rightarrow>
          (if code \<noteq> 200 then 0
           else case active_plugin_names answer of
               None \<Rightarrow> 0
             | Some names \<Rightarrow>
                 (let bonus = (\<lambda>n. if JStr n \<in> set names then 10 else 0);
                      base = min 20 (int (length names) * 5)
                  in min 50 (base + bonus ''rate-limiting'' + bonus ''ip-restriction'' + bonus ''cors''))))"

definition defense_points :: "nat \<Rightarrow> nat \<Rightarrow> int" where
  "defense_points blocked all_events =
     (if all_events = 0 then 20
      else floor (min 20 (fdiv (fpercent (of_nat blocked) (of_nat all_events)) 5)))"

definition grade :: "int \<Rightarrow> string" where
  "grade score = (if 80 \<le> score then ''EXCELLENT'' else if 50 \<le> score then ''MODERATE'' else ''CRITICAL'')"

text \<open>The score and the grade, with the points of the four parts; their texts are not modelled.\<close>

definition security_score :: "(security_event \<Rightarrow> bool) \<Rightarrow> kong_plugins_reply \<Rightarrow> database \<Rightarrow> int \<times> string \<times> int list" where
  "security_score recent reply db =
     (let active = length (filter (\<lambda>p. sp_is_active (snd p)) (t_security_patterns db));
          events = filter recent (t_security_events db);
          pts = pattern_points active;
          kong = kong_points reply;
          defense = defense_points (length (filter (\<lambda>e. se_decision e = ''blocked'') events)) (length events);
          score = min 100 (pts + kong + 10 + defense)
      in (score, grade score, [pts, kong, 10, defense]))"

section \<open>Properties of the patterns\<close>

lemma reload_from_db_patterns: "ps_patterns (reload_from_db compile db st) = patterns_of compile db"
  by (rule scanner.view_reload)

lemma reload_from_db_threshold: "ps_threshold (reload_from_db compile db st) = ps_threshold st"
  by (simp add: reload_from_db_def reload_patterns_def Let_def)

lemma compile_rows_in:
  "row \<in> set rows \<Longrightarrow> recomp (sp_pattern row) = Some f \<Longrightarrow>
     \<lparr>ip_name = sp_name row, ip_search = f, ip_weight = fl (sp_weight row),
      ip_description = (case sp_description row of None \<Rightarrow> [] | Some d \<Rightarrow> d)\<rparr> \<in> set (compile_rows recomp rows)"
  by (induction rows) (auto split: option.split)

text \<open>A pattern that was created is in force after the next reload: when it is active and the weights
  in force are not negative, every prompt it matches is blocked if its weight reaches the threshold,
  and the report names it.\<close>

theorem created_pattern_blocks:
  assumes "create_pattern compile column_values m i p db = (db', Inr (j, row))"
    and "compile (sp_pattern row) = Inr f" and "sp_is_active row" and "f prompt"
    and "weights_ok (patterns_of compile db')" and "ps_threshold st \<le> fl (sp_weight row)"
  shows "is_blocked (scan (reload_from_db compile db' st) prompt)
    \<and> sp_name row \<in> set (matched_patterns (scan (reload_from_db compile db' st) prompt))"
proof -
  let ?ip = "\<lparr>ip_name = sp_name row, ip_search = f, ip_weight = fl (sp_weight row),
      ip_description = (case sp_description row of None \<Rightarrow> [] | Some d \<Rightarrow> d)\<rparr>"
  have "(j, row) \<in> set (t_security_patterns db')"
    using assms(1) by (auto simp: create_pattern_def split: sum.splits option.splits if_splits)
  then have "row \<in> set (filter sp_is_active (map snd (t_security_patterns db')))" using assms(3) by force
  from compile_rows_in [OF this, of "compiled_or_none compile" f] assms(2)
  have "?ip \<in> set (patterns_of compile db')" by (auto simp: patterns_of_def Let_def compiled_or_none_def)
  with scan_strong_match_blocks [of "reload_from_db compile db' st" ?ip prompt] assms(4-6)
  show ?thesis by (simp add: reload_from_db_patterns reload_from_db_threshold)
qed

text \<open>Nothing keeps a weight from being negative, and one negative pattern that matches can outweigh the
  pattern that would block.\<close>

lemma fl_minus_1: "fl (- 1) = - 1"
  using fl_1 by (simp add: fl_def)

lemma negative_weight_disarms:
  assumes "ps_patterns st = [\<lparr>ip_name = n, ip_search = f, ip_weight = 1, ip_description = []\<rparr>,
      \<lparr>ip_name = n', ip_search = (\<lambda>_. True), ip_weight = - 1, ip_description = []\<rparr>]"
    and "ps_threshold st = 1"
  shows "\<not> is_blocked (scan st prompt)"
  using assms by (auto simp: scan_def scan_loop_eq Let_def fadd_def fl_minus_1)

text \<open>What the scanner uses between reloads is the table as it was: a write, whether it creates, deletes
  or changes a pattern, has no effect on any scan before the next reload.\<close>

lemma scan_is_of_last_reload:
  "ps_patterns (snd (run_events (\<lambda>w. w) (reload_from_db compile) es db st)) =
     (case last_seen (\<lambda>w. w) es db None of None \<Rightarrow> ps_patterns st | Some db' \<Rightarrow> patterns_of compile db')"
  by (rule scanner.reader_sees_last_reload)

section \<open>Properties of the score\<close>

lemma defense_bounds: "blocked \<le> all_events \<Longrightarrow> 0 \<le> defense_points blocked all_events \<and> defense_points blocked all_events \<le> 20"
proof (cases "all_events = 0")
  case False
  assume "blocked \<le> all_events"
  with False have "0 \<le> fpercent (of_nat blocked) (of_nat all_events)" by (intro fpercent_bounds) simp_all
  then have "0 \<le> min 20 (fdiv (fpercent (of_nat blocked) (of_nat all_events)) 5)" by (simp add: fdiv_def)
  with False show ?thesis by (simp add: defense_points_def le_floor_iff floor_le_iff del: min.absorb1)
qed (simp add: defense_points_def)

text \<open>The score is a score: whatever the tables hold and Kong answers it lies between 10 and 100, the
  clamp never bites, each part stays within the points it shows, and the grade follows from the
  score.\<close>

theorem security_score_bounds:
  "case security_score recent reply db of (score, g, parts) \<Rightarrow>
     10 \<le> score \<and> score \<le> 100 \<and> score = sum_list parts \<and> g = grade score
     \<and> list_all2 (\<lambda>p m. 0 \<le> p \<and> p \<le> m) parts [20, 50, 10, 20]"
proof -
  have k: "0 \<le> kong_points reply \<and> kong_points reply \<le> 50"
    by (simp add: kong_points_def Let_def split: kong_plugins_reply.split option.split)
  define ev where "ev = filter recent (t_security_events db)"
  have d: "0 \<le> defense_points (length (filter (\<lambda>e. se_decision e = ''blocked'') ev)) (length ev)
      \<and> defense_points (length (filter (\<lambda>e. se_decision e = ''blocked'') ev)) (length ev) \<le> 20"
    by (rule defense_bounds) simp
  have p: "0 \<le> pattern_points n \<and> pattern_points n \<le> 20" for n by (simp add: pattern_points_def)
  from p [of "length (filter (\<lambda>p. sp_is_active (snd p)) (t_security_patterns db))"] k d
  show ?thesis unfolding security_score_def Let_def ev_def [symmetric] prod.case min_def by auto
qed

text \<open>Redactions count against the defence: a day whose events are all redactions of answers scores no
  points for it.\<close>

lemma redactions_lower_the_score:
  assumes "events \<noteq> []" and "list_all (\<lambda>e. se_decision e = ''redacted'') events"
  shows "defense_points (length (filter (\<lambda>e. se_decision e = ''blocked'') events)) (length events) = 0"
proof -
  have "filter (\<lambda>e. se_decision e = ''blocked'') events = []"
    using assms(2) by (auto simp: list_all_iff filter_empty_conv)
  then show ?thesis using assms(1) by (simp add: defense_points_def fpercent_def fdiv_def fmul_def)
qed

section \<open>Witnesses\<close>

definition sample_pattern :: security_pattern where
  "sample_pattern = \<lparr>sp_name = ''greeting'', sp_pattern = ''hi'', sp_weight = 1, sp_description = None, sp_is_active = True\<rparr>"

definition substring_compile :: re_compile where
  "substring_compile p = Inr (contains p)"

theorem created_pattern_blocks_witness:
  "\<exists>db'. create_pattern substring_compile Some [] 1 sample_pattern empty_database = (db', Inr (1, sample_pattern))
     \<and> is_blocked (scan (reload_from_db substring_compile db' (init_prompt_security 1)) ''say hi'')"
proof -
  obtain db' where c: "create_pattern substring_compile Some [] 1 sample_pattern empty_database
      = (db', Inr (1, sample_pattern))" and t: "t_security_patterns db' = [(1, sample_pattern)]"
    by (simp add: create_pattern_def substring_compile_def empty_database_def)
  have w: "weights_ok (patterns_of substring_compile db')"
    by (simp add: patterns_of_def t Let_def compiled_or_none_def substring_compile_def sample_pattern_def weights_ok_def
        is_double_def)
  from created_pattern_blocks [OF c _ _ _ w, of "contains ''hi''" "''say hi''" "init_prompt_security 1"] c
  show ?thesis by (simp add: substring_compile_def sample_pattern_def init_prompt_security_def)
qed

end
