(* ===== verification/Routing_Map.thy ===== *)
theory Routing_Map
  imports Intent_Routing
begin

text \<open>
  The abstract specification of the routing table: a finite map from intents to services. The
  endpoints for mappings (src/fastapi\_backend/app/api/admin/intent\_mappings.py over
  services/intent\_mappings\_service.py and repositories/intent\_routing\_repository.py) refine its
  update, with the table of rows, soft deletes and audit rows as the representation, and the
  resolver reads it.
\<close>

section \<open>The abstraction\<close>

definition mapped_service :: "database \<Rightarrow> string \<Rightarrow> string option" where
  "mapped_service db =
     map_of (map (\<lambda>m. (ir_intent_name m, ir_service_id m)) (filter (\<lambda>m. ir_is_active m = Some True) (t_intent_routing db)))"

lemma mapped_service_Some:
  assumes "distinct (map ir_intent_name (t_intent_routing db))"
  shows "mapped_service db l = Some s \<longleftrightarrow>
    (\<exists>m \<in> set (t_intent_routing db). ir_intent_name m = l \<and> ir_service_id m = s \<and> ir_is_active m = Some True)"
proof -
  have "distinct (map fst (map (\<lambda>m. (ir_intent_name m, ir_service_id m)) (filter (\<lambda>m. ir_is_active m = Some True) (t_intent_routing db))))"
    using assms by (simp add: distinct_map_filter comp_def)
  then show ?thesis by (force simp: mapped_service_def)
qed

lemma map_of_active:
  "map_of (map (\<lambda>m. (ir_intent_name m, ir_service_id m)) (filter (\<lambda>m. ir_is_active m = Some True) ms)) nm
     = map_option ir_service_id (find (\<lambda>m. ir_is_active m = Some True \<and> ir_intent_name m = nm) ms)"
  by (induction ms) auto

text \<open>What the result of a call does to the map: an exception nothing, a mapping sets or removes its
  intent.\<close>

fun routing_effect :: "exn + intent_routing \<Rightarrow> (string \<Rightarrow> string option) \<Rightarrow> string \<Rightarrow> string option" where
  "routing_effect (Inl e) f = f"
| "routing_effect (Inr m) f = f(ir_intent_name m := if ir_is_active m = Some True then Some (ir_service_id m) else None)"

section \<open>Calls\<close>

inductive mapping_call :: "database \<Rightarrow> exn + intent_routing \<Rightarrow> database \<Rightarrow> bool" where
  create: "i \<notin> ir_id ` set (t_intent_routing db) \<Longrightarrow> create_mapping_endpoint i u p db = (db', r) \<Longrightarrow> mapping_call db r db'"
| update: "update_mapping_endpoint i u q db = (db', r) \<Longrightarrow> mapping_call db r db'"
| delete: "delete_mapping_endpoint i u db = (db', r) \<Longrightarrow> mapping_call db r db'"

inductive mapping_run :: "database \<Rightarrow> (exn + intent_routing) list \<Rightarrow> database \<Rightarrow> bool" where
  stop: "mapping_run db [] db"
| call: "mapping_call db r db1 \<Longrightarrow> mapping_run db1 rs db' \<Longrightarrow> mapping_run db (r # rs) db'"

lemma mapping_call_ok: "mapping_call db r db' \<Longrightarrow> intent_table_ok db \<Longrightarrow> intent_table_ok db'"
  by (erule mapping_call.cases) (auto intro: mapping_step_ok mapping_step.intros)

text \<open>Writing one row: the map changes at its intent only.\<close>

lemma mapped_service_write:
  assumes "intent_table_ok db" and "intent_table_ok db'" and "m \<in> set (t_intent_routing db')"
    and "\<And>x. ir_intent_name x \<noteq> ir_intent_name m \<Longrightarrow> x \<in> set (t_intent_routing db') \<longleftrightarrow> x \<in> set (t_intent_routing db)"
  shows "mapped_service db' = routing_effect (Inr m) (mapped_service db)"
proof
  fix l
  have d: "distinct (map ir_intent_name (t_intent_routing db))" "distinct (map ir_intent_name (t_intent_routing db'))"
    using assms(1,2) by (simp_all add: intent_table_ok_def)
  note some = mapped_service_Some [OF d(1)] mapped_service_Some [OF d(2)]
  show "mapped_service db' l = routing_effect (Inr m) (mapped_service db) l"
  proof (cases "l = ir_intent_name m")
    case True
    have "x = m" if "x \<in> set (t_intent_routing db')" "ir_intent_name x = l" for x
      using that d(2) assms(3) True by (auto simp: distinct_map inj_on_def)
    with assms(3) True have "mapped_service db' l = Some s \<longleftrightarrow> ir_service_id m = s \<and> ir_is_active m = Some True" for s
      unfolding some by blast
    then show ?thesis using True by (cases "mapped_service db' l") auto
  next
    case False
    then have "mapped_service db' l = Some s \<longleftrightarrow> mapped_service db l = Some s" for s
      unfolding some using assms(4) by metis
    with False show ?thesis by (metis fun_upd_other option.exhaust routing_effect.simps(2))
  qed
qed

lemma mapping_call_refines:
  assumes "mapping_call db r db'" and "intent_table_ok db"
  shows "mapped_service db' = routing_effect r (mapped_service db)"
proof -
  note ok = mapping_call_ok [OF assms]
  have rep: "mapped_service db' = routing_effect (Inr m') (mapped_service db)"
    if m: "m \<in> set (t_intent_routing db)" "ir_id m' = ir_id m" "ir_intent_name m' = ir_intent_name m"
      and t: "t_intent_routing db' = t_intent_routing (replace_mapping m m' db)" for m m'
  proof -
    have same: "x = m" if "x \<in> set (t_intent_routing db)" "ir_id x = ir_id m \<or> ir_intent_name x = ir_intent_name m" for x
      using that m(1) assms(2) by (auto simp: intent_table_ok_def distinct_map inj_on_def)
    have t': "set (t_intent_routing db') = insert m' (set (t_intent_routing db) - {m})"
      using m(1) same by (auto simp: t replace_mapping_def)
    show ?thesis by (rule mapped_service_write [OF assms(2) ok]) (use t' m(3) in auto)
  qed
  from assms(1) show ?thesis
  proof cases
    case (create i u p)
    from create(2) show ?thesis
    proof (cases rule: create_mapping_endpoint_cases)
      case (created m)
      from create_intent_mapping_SomeD [OF created(2)] obtain audit where
        n: "mc_intent_name p \<notin> ir_intent_name ` set (t_intent_routing db)" "ir_intent_name m = mc_intent_name p"
        and t: "db' = db\<lparr>t_intent_routing := t_intent_routing db @ [m], t_intent_audit := t_intent_audit db @ [audit]\<rparr>"
        by (metis intent_routing.select_convs(2))
      have "mapped_service db' = routing_effect (Inr m) (mapped_service db)"
        by (rule mapped_service_write [OF assms(2) ok]) (use t in auto)
      with created(1) show ?thesis by simp
    qed simp
  next
    case (update i u q)
    then show ?thesis
    proof (cases rule: update_mapping_endpoint_cases)
      case (updated m m')
      from update_intent_mapping_SomeD [OF updated(3)] obtain audit where a: "apply_update q m = Some m'"
        "db' = (replace_mapping m m' db)\<lparr>t_intent_audit := t_intent_audit db @ [audit]\<rparr>" by blast
      from rep [of m m'] apply_update_keys [OF a(1)] get_mapping_Some [OF updated(2)] updated(1) a(2)
      show ?thesis by simp
    qed simp
  next
    case (delete i u)
    then show ?thesis
    proof (cases rule: delete_mapping_endpoint_cases)
      case (deleted m m')
      from soft_delete_SomeD [OF deleted(3)] obtain audit where a: "m' = m\<lparr>ir_is_active := Some False\<rparr>"
        "db' = (replace_mapping m m' db)\<lparr>t_intent_audit := t_intent_audit db @ [audit]\<rparr>" by blast
      from rep [of m m'] get_mapping_Some [OF deleted(2)] deleted(1) a show ?thesis by simp
    qed simp
  qed
qed



end
