(* ===== verification/Startup.thy ===== *)
theory Startup
  imports Actions Security_Admin Routing_Map Policy_Admin
begin

text \<open>
  Start-up of the backend: the seeding of the policy table from the policy file, the synchronisation
  of the policy service, the reload of the scanner's patterns, the load of the language model and of
  the intent cache (lifespan in src/fastapi\_backend/app/main.py, infrastructure/nlp/spacy\_loader.py),
  and the script that fills the routing table from a taxonomy (scripts/migrate\_taxonomy.py).
  Parameters: the decoded YAML documents, \<open>re.compile\<close>, the put to OPA, the ids and times the
  columns get as their values, \<open>refused\<close> for the exception of a value that a column does not take.
  Missing tables are created by the statements of Migrations; the background task that a start
  leaves running is in Background.
\<close>

section \<open>Seeding\<close>

text \<open>A text column: a value that was not given or is null takes the column's value, if it has one.\<close>

definition column_text :: "exn \<Rightarrow> string option \<Rightarrow> json \<Rightarrow> exn + string" where
  "column_text refused dflt v =
     (case v of
        JStr s \<Rightarrow> Inr s
      | JNull \<Rightarrow> (case dflt of Some s \<Rightarrow> Inr s | None \<Rightarrow> Inl refused)
      | _ \<Rightarrow> Inl refused)"

definition column_opt_text :: "exn \<Rightarrow> json \<Rightarrow> exn + string option" where
  "column_opt_text refused v = (case v of JStr s \<Rightarrow> Inr (Some s) | JNull \<Rightarrow> Inr None | _ \<Rightarrow> Inl refused)"

definition seed_row :: "exn \<Rightarrow> string \<Rightarrow> nat \<Rightarrow> (string \<times> json) list \<Rightarrow> (string \<times> json) list \<Rightarrow> exn + governance_policy" where
  "seed_row refused fresh_id stamp data p_data =
     (let get = (\<lambda>k. dict_get_default p_data k JNull) in
      case (column_text refused (Some fresh_id) (get ''id''), column_opt_text refused (get ''description''),
            column_text refused None (get ''effect''),
            column_text refused (Some ''1.0.0'') (dict_get_default data ''version'' (JStr ''1.0.0''))) of
        (Inr i, Inr descr, Inr eff, Inr v) \<Rightarrow> Inr
          \<lparr>gp_id = i, gp_description = descr, gp_condition = get ''condition'', gp_effect = eff,
           gp_is_active = True, gp_version = v, gp_created_at = stamp\<rparr>
      | _ \<Rightarrow> Inl refused)"

fun seed_rows :: "exn \<Rightarrow> (nat \<Rightarrow> string) \<Rightarrow> (nat \<Rightarrow> nat) \<Rightarrow> nat \<Rightarrow> (string \<times> json) list \<Rightarrow> json list
    \<Rightarrow> exn + governance_policy list" where
  "seed_rows refused ids stamps i data [] = Inr []"
| "seed_rows refused ids stamps i data (p # ps) =
     (case p of
        JObj d \<Rightarrow>
          (case seed_row refused (ids i) (stamps i) data d of
             Inl e \<Rightarrow> Inl e
           | Inr row \<Rightarrow> (case seed_rows refused ids stamps (Suc i) data ps of
                 Inl e \<Rightarrow> Inl e | Inr rows \<Rightarrow> Inr (row # rows)))
      | _ \<Rightarrow> Inl (Runtime AttributeError))"

text \<open>The policies of a decoded document; a document that is not a mapping has none or fails.\<close>

definition seed_items :: "json \<Rightarrow> ((string \<times> json) list \<times> json list) py" where
  "seed_items data =
     (if \<not> truthy data then Inr ([], [])
      else case data of
          JObj d \<Rightarrow> (case dict_get d ''policies'' of
              None \<Rightarrow> Inr (d, [])
            | Some ps \<Rightarrow> bind_py (items_of AttributeError ps) (\<lambda>xs. Inr (d, xs)))
        | JArr xs \<Rightarrow> (if JStr ''policies'' \<in> set xs then Inl TypeError else Inr ([], []))
        | JStr s \<Rightarrow> (if contains ''policies'' s then Inl TypeError else Inr ([], []))
        | _ \<Rightarrow> Inl TypeError)"

definition seed_policies :: "exn \<Rightarrow> (nat \<Rightarrow> string) \<Rightarrow> (nat \<Rightarrow> nat) \<Rightarrow> json option \<Rightarrow> (database, unit) action" where
  "seed_policies refused ids stamps policy_file db =
     (if t_policies db \<noteq> [] then (db, Inr ())
      else case policy_file of
          None \<Rightarrow> (db, Inr ())
        | Some data \<Rightarrow>
            (case seed_items data of
               Inl e \<Rightarrow> (db, Inl (Runtime e))
             | Inr (d, ps) \<Rightarrow>
                 (case seed_rows refused ids stamps 0 d ps of
                    Inl e \<Rightarrow> (db, Inl e)
                  | Inr rows \<Rightarrow>
                      (if distinct (map gp_id rows) then (db\<lparr>t_policies := rows\<rparr>, Inr ())
                       else (db, Inl refused)))))"

section \<open>The language model\<close>

text \<open>\<open>load_spacy_model\<close> with its memo of one: a missing model (\<open>OSError\<close>) becomes a runtime error and
  is not remembered.\<close>

datatype 'm spacy_load = Spacy_Loaded 'm | Spacy_OSError | Spacy_Raised exn

definition load_spacy_model :: "'m spacy_load \<Rightarrow> 'm option \<Rightarrow> 'm option \<times> (exn + 'm)" where
  "load_spacy_model loaded memo =
     (case memo of
        Some nlp \<Rightarrow> (memo, Inr nlp)
      | None \<Rightarrow>
          (case loaded of
             Spacy_Loaded nlp \<Rightarrow> (Some nlp, Inr nlp)
           | Spacy_OSError \<Rightarrow> (None, Inl (Runtime (RuntimeError (''spaCy model '' @ [CHR 0x27] @ ''en_core_web_sm'' @ [CHR 0x27]
               @ '' is not installed. Run: python -m spacy download en_core_web_sm''))))
           | Spacy_Raised e \<Rightarrow> (None, Inl e)))"

section \<open>The start\<close>

record 'm app_state =
  app_db :: database
  app_policies :: policy_service
  app_scanner :: prompt_security_service
  app_nlp :: "'m option"
  app_intents :: intent_cache

record 'm startup_env =
  su_cfg :: opa_settings
  su_put :: "json \<Rightarrow> http_reply"
  su_now :: string
  su_refused :: exn
  su_ids :: "nat \<Rightarrow> string"
  su_stamps :: "nat \<Rightarrow> nat"
  su_policy_file :: "json option"
  su_compile :: re_compile
  su_spacy :: "'m spacy_load"

definition on_db :: "(database, 'a) action \<Rightarrow> ('m app_state, 'a) action" where
  "on_db m st = (case m (app_db st) of (db, r) \<Rightarrow> (st\<lparr>app_db := db\<rparr>, r))"

definition sync_step :: "'m startup_env \<Rightarrow> ('m app_state, sync_stats) action" where
  "sync_step E st =
     (case sync_from_db (su_cfg E) (su_put E) (su_now E) (list_policies (app_db st)) (app_policies st) of
        (ps, r) \<Rightarrow> (st\<lparr>app_policies := ps\<rparr>, r))"

definition pattern_step :: "'m startup_env \<Rightarrow> ('m app_state, unit) action" where
  "pattern_step E st =
     (st\<lparr>app_scanner := reload_from_db (su_compile E) (app_db st) (app_scanner st)\<rparr>, Inr ())"

definition nlp_step :: "'m startup_env \<Rightarrow> ('m app_state, 'm) action" where
  "nlp_step E st = (case load_spacy_model (su_spacy E) (app_nlp st) of (m, r) \<Rightarrow> (st\<lparr>app_nlp := m\<rparr>, r))"

definition intent_step :: "('m app_state, unit) action" where
  "intent_step st = (st\<lparr>app_intents := force_reload (app_db st) (app_intents st)\<rparr>, Inr ())"

text \<open>\<open>lifespan\<close> up to its \<open>yield\<close>: any exception keeps the application from starting.\<close>

definition lifespan :: "'m startup_env \<Rightarrow> ('m app_state, unit) action" where
  "lifespan E =
     then_act (on_db (seed_policies (su_refused E) (su_ids E) (su_stamps E) (su_policy_file E))) (\<lambda>_.
     then_act (sync_step E) (\<lambda>_.
     then_act (pattern_step E) (\<lambda>_.
     then_act (nlp_step E) (\<lambda>_. intent_step))))"

definition fresh_app :: "rat \<Rightarrow> database \<Rightarrow> 'm app_state" where
  "fresh_app threshold db = \<lparr>app_db = db, app_policies = init_policy_service,
     app_scanner = init_prompt_security threshold, app_nlp = None, app_intents = init_intent_cache\<rparr>"

section \<open>Filling the routing table\<close>

text \<open>The upsert of one entry: an existing row of the intent gets the service and the version and
  becomes active, otherwise a row is added.\<close>

definition upsert_mapping :: "exn \<Rightarrow> string \<Rightarrow> string \<Rightarrow> string \<Rightarrow> string \<Rightarrow> (database, unit) action" where
  "upsert_mapping refused new_id label service version db =
     (if \<not> service_exists service db then (db, Inl refused)
      else if list_ex (\<lambda>m. ir_intent_name m = label) (t_intent_routing db)
      then (db\<lparr>t_intent_routing := map (\<lambda>m. if ir_intent_name m = label
          then m\<lparr>ir_service_id := service, ir_taxonomy_version := version, ir_is_active := Some True\<rparr> else m)
          (t_intent_routing db)\<rparr>, Inr ())
      else (db\<lparr>t_intent_routing := t_intent_routing db @
          [\<lparr>ir_id = new_id, ir_intent_name = label, ir_service_id = service, ir_is_active = Some True,
            ir_taxonomy_version = version, ir_created_by = ''system-migration''\<rparr>]\<rparr>, Inr ()))"

fun upsert_all :: "exn \<Rightarrow> (nat \<Rightarrow> string) \<Rightarrow> json \<Rightarrow> nat \<Rightarrow> json list \<Rightarrow> (database, unit) action" where
  "upsert_all refused ids version i [] = return_act ()"
| "upsert_all refused ids version i (item # its) =
     (case item of
        JObj d \<Rightarrow>
          then_act (lift_act (need d ''label'')) (\<lambda>label.
          then_act (lift_act (need d ''service_id'')) (\<lambda>service.
          case (label, service, version) of
            (JStr l, JStr s, JStr v) \<Rightarrow>
              then_act (upsert_mapping refused (ids i) l s v) (\<lambda>_. upsert_all refused ids version (Suc i) its)
          | _ \<Rightarrow> raise_act refused))
      | _ \<Rightarrow> raise_act (Runtime TypeError))"

text \<open>All entries are written in one transaction.\<close>

definition migrate :: "exn \<Rightarrow> string \<Rightarrow> (nat \<Rightarrow> string) \<Rightarrow> json option \<Rightarrow> (database, unit) action" where
  "migrate refused taxonomy_path ids taxonomy_file db =
     (case taxonomy_file of
        None \<Rightarrow> (db, Inl (Runtime (FileNotFoundError (''taxonomy.yaml not found at '' @ taxonomy_path))))
      | Some data \<Rightarrow>
          (case bind_py (as_dict data) (\<lambda>d. bind_py (items_of TypeError (dict_get_default d ''intents'' (JArr [])))
               (\<lambda>xs. Inr (dict_get_default d ''version'' (JStr ''1.0.0''), xs))) of
             Inl e \<Rightarrow> (db, Inl (Runtime e))
           | Inr (version, xs) \<Rightarrow>
               (case upsert_all refused ids version 0 xs db of
                  (db', Inr _) \<Rightarrow> (db', Inr ())
                | (_, Inl e) \<Rightarrow> (db, Inl e))))"

section \<open>What a start establishes\<close>

lemma seed_policies_kept: "t_policies db \<noteq> [] \<Longrightarrow> seed_policies refused ids stamps file db = (db, Inr ())"
  by (simp add: seed_policies_def)

lemma strict_sync_in_sync:
  assumes "opa_enabled cfg" and "opa_strict_sync cfg" and "sync_from_db cfg put now rows st = (st', Inr stats)"
  shows "is_in_sync st'"
proof (cases "push_policies_to_opa put (refresh_cache rows st)")
  case (Inl m)
  with assms push_error_not_Nil [OF Inl] show ?thesis by (simp add: sync_from_db_def Let_def)
next
  case (Inr u)
  with assms show ?thesis by (auto simp: sync_from_db_def Let_def is_in_sync_def)
qed

text \<open>The steps of a start that succeeds.\<close>

lemma lifespan_steps:
  assumes "lifespan E st = (st', Inr ())"
  obtains db ps stats m nlp where
    "seed_policies (su_refused E) (su_ids E) (su_stamps E) (su_policy_file E) (app_db st) = (db, Inr ())"
    "sync_from_db (su_cfg E) (su_put E) (su_now E) (list_policies db) (app_policies st) = (ps, Inr stats)"
    "load_spacy_model (su_spacy E) (app_nlp st) = (m, Inr nlp)"
    "st' = \<lparr>app_db = db, app_policies = ps, app_scanner = reload_from_db (su_compile E) db (app_scanner st),
       app_nlp = m, app_intents = force_reload db (app_intents st)\<rparr>"
proof -
  from assms obtain st1 st2 st3 st4 nlp stats where
      s: "on_db (seed_policies (su_refused E) (su_ids E) (su_stamps E) (su_policy_file E)) st = (st1, Inr ())"
      "sync_step E st1 = (st2, Inr stats)" "pattern_step E st2 = (st3, Inr ())" "nlp_step E st3 = (st4, Inr nlp)"
      "intent_step st4 = (st', Inr ())"
    by (auto simp: lifespan_def then_act_Inr_iff)
  obtain db where d: "seed_policies (su_refused E) (su_ids E) (su_stamps E) (su_policy_file E) (app_db st) = (db, Inr ())"
      "st1 = st\<lparr>app_db := db\<rparr>"
    using s(1) by (auto simp: on_db_def split: prod.splits)
  obtain ps where p: "sync_from_db (su_cfg E) (su_put E) (su_now E) (list_policies db) (app_policies st) = (ps, Inr stats)"
      "st2 = st1\<lparr>app_policies := ps\<rparr>"
    using s(2) d(2) by (auto simp: sync_step_def split: prod.splits)
  obtain m where m: "load_spacy_model (su_spacy E) (app_nlp st) = (m, Inr nlp)" "st4 = st3\<lparr>app_nlp := m\<rparr>"
    using s(3,4) d(2) p(2) by (auto simp: nlp_step_def pattern_step_def split: prod.splits)
  from that [OF d(1) p(1) m(1)] s(3,5) d(2) p(2) m(2) show ?thesis
    by (cases st) (auto simp: pattern_step_def intent_step_def)
qed

lemma load_spacy_model_Inr: "load_spacy_model loaded memo = (m, Inr nlp) \<Longrightarrow> m = Some nlp"
  by (auto simp: load_spacy_model_def split: option.splits spacy_load.splits)

text \<open>C21. An application that starts serves what its tables hold: the policy service decides by the
  policies of the table, the scanner by the patterns of the table and never without any, intents
  resolve by the active mappings, and the language model is there. Policies already in the table are
  left alone whatever the policy file says, and with the strict switch a start means that OPA took
  the bundle.\<close>

theorem startup_serves_the_tables:
  assumes "lifespan E st = (st', Inr ())"
  shows "policies (app_policies st') = load_policies (list_policies (app_db st'))
    \<and> ps_patterns (app_scanner st') = patterns_of (su_compile E) (app_db st') \<and> ps_patterns (app_scanner st') \<noteq> []
    \<and> (ic_cache (app_intents st'), ic_version (app_intents st'))
        = load_mappings (list_active_intent_mappings (app_db st')) [] ''unknown''
    \<and> app_nlp st' \<noteq> None
    \<and> (t_policies (app_db st) = [] \<or> app_db st' = app_db st)
    \<and> (\<not> opa_enabled (su_cfg E) \<or> \<not> opa_strict_sync (su_cfg E) \<or> is_in_sync (app_policies st'))"
  using assms
proof (rule lifespan_steps)
  fix db ps stats m nlp
  assume s: "seed_policies (su_refused E) (su_ids E) (su_stamps E) (su_policy_file E) (app_db st) = (db, Inr ())"
    "sync_from_db (su_cfg E) (su_put E) (su_now E) (list_policies db) (app_policies st) = (ps, Inr stats)"
    "load_spacy_model (su_spacy E) (app_nlp st) = (m, Inr nlp)"
    and st': "st' = \<lparr>app_db = db, app_policies = ps, app_scanner = reload_from_db (su_compile E) db (app_scanner st),
       app_nlp = m, app_intents = force_reload db (app_intents st)\<rparr>"
  have "policies ps = load_policies (list_policies db)"
    using sync_policies [of "su_cfg E" "su_put E" "su_now E" "list_policies db" "app_policies st"] s(2) by simp
  moreover have "patterns_of (su_compile E) db \<noteq> []"
    by (simp add: patterns_of_def Let_def injection_patterns_not_Nil)
  moreover have "t_policies (app_db st) = [] \<or> db = app_db st"
    using s(1) seed_policies_kept by (metis fst_conv)
  moreover have "\<not> opa_enabled (su_cfg E) \<or> \<not> opa_strict_sync (su_cfg E) \<or> is_in_sync ps"
    using strict_sync_in_sync [OF _ _ s(2)] by blast
  ultimately show ?thesis
    using load_spacy_model_Inr [OF s(3)] intents.view_reload [of db "app_intents st"]
    by (simp add: st' reload_from_db_patterns)
qed

section \<open>The policies that are shipped\<close>

text \<open>The policy file of the repository (src/fastapi\_backend/policies.yaml), decoded.\<close>

definition policy_entry :: "(string \<times> string) list \<Rightarrow> string \<Rightarrow> string \<Rightarrow> string \<Rightarrow> json" where
  "policy_entry c d e i = JObj [(''condition'', JObj (map (\<lambda>(k, v). (k, JStr v)) c)), (''description'', JStr d),
     (''effect'', JStr e), (''id'', JStr i)]"

definition shipped_items :: "json list" where
  "shipped_items =
     [policy_entry [(''sensitivity'', ''HIGH''), (''tenant'', ''finance'')]
        ''High sensitivity data must stay on-prem for finance tenant'' ''allow_onprem_only'' ''high-sensitivity-onprem'',
      policy_entry [(''tenant'', ''restricted-segment'')]
        ''Deny cloud for restricted segments'' ''deny_cloud'' ''deny-cloud-restricted'',
      policy_entry [(''sensitivity'', ''MEDIUM'')]
        ''Medium sensitivity allows cloud but warns (placeholder)'' ''allow_all'' ''medium-sensitivity-default'',
      policy_entry [(''sensitivity'', ''HIGH'')]
        ''UPDATED: Cloud services are forbidden for high sensitivity data across all tenants'' ''deny_cloud''
        ''block-all-cloud-high'']"

definition shipped_policies :: json where
  "shipped_policies = JObj [(''policies'', JArr shipped_items), (''version'', JStr ''1.0.0'')]"

lemma evaluate_refuses_iff:
  "(\<exists>e. evaluate st ctx = Inl e) \<longleftrightarrow> (\<exists>pol \<in> set (policies st). blocks (canonicalize_context ctx) pol)"
proof -
  have "(\<exists>results. evaluate st ctx = Inr results) \<longleftrightarrow> \<not> list_ex (blocks (canonicalize_context ctx)) (policies st)"
    unfolding evaluate_def by (rule embedded.allow_iff) simp
  then show ?thesis by (metis list_ex_iff old.sum.exhaust sum.distinct(1))
qed

definition shipped_schemas :: "policy_schema list" where
  "shipped_schemas =
     [\<lparr>policy_id = ''high-sensitivity-onprem'', description = Some ''High sensitivity data must stay on-prem for finance tenant'',
       condition = \<lparr>cond_sensitivity = Some HIGH, cond_tenant = Some ''finance''\<rparr>, effect = ALLOW_ONPREM_ONLY\<rparr>,
      \<lparr>policy_id = ''deny-cloud-restricted'', description = Some ''Deny cloud for restricted segments'',
       condition = \<lparr>cond_sensitivity = None, cond_tenant = Some ''restricted-segment''\<rparr>, effect = DENY_CLOUD\<rparr>,
      \<lparr>policy_id = ''medium-sensitivity-default'', description = Some ''Medium sensitivity allows cloud but warns (placeholder)'',
       condition = \<lparr>cond_sensitivity = Some MEDIUM, cond_tenant = None\<rparr>, effect = ALLOW_ALL\<rparr>,
      \<lparr>policy_id = ''block-all-cloud-high'', description = Some ''UPDATED: Cloud services are forbidden for high sensitivity data across all tenants'',
       condition = \<lparr>cond_sensitivity = Some HIGH, cond_tenant = None\<rparr>, effect = DENY_CLOUD\<rparr>]"

lemmas seed_simps = seed_row_def column_text_def column_opt_text_def Let_def dict_get_default_def
  parse_policy_def parse_condition_def parse_sensitivity_def parse_opt_str_def parse_effect_def sensitivity_of_def

lemma seed_items_shipped:
  "seed_items shipped_policies = Inr ([(''policies'', JArr shipped_items), (''version'', JStr ''1.0.0'')], shipped_items)"
  by (simp add: seed_items_def shipped_policies_def items_of_def)

lemma seed_rows_shipped:
  assumes "dict_get_default data ''version'' (JStr ''1.0.0'') = JStr v"
  shows "\<exists>rows. seed_rows refused ids stamps 0 data shipped_items = Inr rows
    \<and> map parse_policy rows = map Some shipped_schemas \<and> list_all gp_is_active rows"
  using assms by (simp add: shipped_items_def policy_entry_def seed_simps shipped_schemas_def)

lemma load_parsed: "map parse_policy ps = map Some qs \<Longrightarrow> list_all gp_is_active ps \<Longrightarrow> load_policies ps = qs"
  by (induction ps arbitrary: qs) auto

lemma seeded_schemas:
  assumes "t_policies db = []" and "seed_policies refused ids stamps (Some shipped_policies) db = (db', Inr ())"
  shows "map parse_policy (t_policies db') = map Some shipped_schemas \<and> list_all gp_is_active (t_policies db')"
proof -
  let ?d = "[(''policies'', JArr shipped_items), (''version'', JStr ''1.0.0'')]"
  have "dict_get_default ?d ''version'' (JStr ''1.0.0'') = JStr ''1.0.0''" by (simp add: dict_get_default_def)
  from seed_rows_shipped [OF this] obtain rows where r: "seed_rows refused ids stamps 0 ?d shipped_items = Inr rows"
    "map parse_policy rows = map Some shipped_schemas" "list_all gp_is_active rows" by blast
  with assms seed_items_shipped show ?thesis by (auto simp: seed_policies_def split: if_splits)
qed

text \<open>C23. What the shipped policies decide: an application started on an empty policy table refuses a
  request, by the embedded evaluator, exactly when it would go to a cloud service with high
  sensitivity or for the restricted segment, or when the finance tenant's data of high sensitivity
  would leave the premises. No file id, time or order of the rows matters.\<close>

theorem shipped_policies_decide:
  assumes "lifespan E st = (st', Inr ())" and "t_policies (app_db st) = []"
    and "su_policy_file E = Some shipped_policies"
  shows "(\<exists>e. evaluate (app_policies st') ctx = Inl e) \<longleftrightarrow>
    (let svc = canonical_service_type (ctx_service_type ctx);
         high = (ctx_sensitivity ctx = Some ''HIGH'')
     in svc = ''cloud'' \<and> (high \<or> ctx_tenant ctx = Some ''restricted-segment'')
        \<or> svc \<noteq> ''on-prem'' \<and> high \<and> ctx_tenant ctx = Some ''finance'')"
  using assms(1)
proof (rule lifespan_steps)
  fix db ps stats m nlp
  assume s: "seed_policies (su_refused E) (su_ids E) (su_stamps E) (su_policy_file E) (app_db st) = (db, Inr ())"
    "sync_from_db (su_cfg E) (su_put E) (su_now E) (list_policies db) (app_policies st) = (ps, Inr stats)"
    and st': "st' = \<lparr>app_db = db, app_policies = ps, app_scanner = reload_from_db (su_compile E) db (app_scanner st),
       app_nlp = m, app_intents = force_reload db (app_intents st)\<rparr>"
  note t = seeded_schemas [OF assms(2), of "su_refused E" "su_ids E" "su_stamps E" db]
  have "map parse_policy (t_policies db) = map Some shipped_schemas" "list_all gp_is_active (t_policies db)"
    using t s(1) assms(3) by simp_all
  then have "load_policies (t_policies db) = shipped_schemas" by (rule load_parsed)
  moreover have "set (load_policies (list_policies db)) = set (load_policies (t_policies db))"
    by (simp only: set_load_policies set_list_policies)
  moreover have "policies ps = load_policies (list_policies db)"
    using sync_policies [of "su_cfg E" "su_put E" "su_now E" "list_policies db" "app_policies st"] s(2) by simp
  ultimately show ?thesis
    by (simp add: evaluate_refuses_iff st' shipped_schemas_def blocks_def policy_matches_def should_block_def
        service_type_of_def canonicalize_context_def Let_def)
qed

section \<open>What the migration establishes\<close>

lemma upsert_mapping_keeps:
  assumes "intent_table_ok db" and "upsert_mapping refused i l s v db = (db', Inr ())"
    and "i \<notin> ir_id ` set (t_intent_routing db)"
  shows "intent_table_ok db' \<and> mapped_service db' l = Some s
    \<and> (l' = l \<or> mapped_service db' l' = mapped_service db l')
    \<and> ir_id ` set (t_intent_routing db') \<subseteq> insert i (ir_id ` set (t_intent_routing db))"
proof (cases "list_ex (\<lambda>m. ir_intent_name m = l) (t_intent_routing db)")
  case False
  with assms show ?thesis
    by (auto simp: upsert_mapping_def intent_table_ok_def service_exists_def list_ex_iff mapped_service_def
        map_add_def split: if_splits option.splits dest!: map_of_SomeD) (blast | fastforce)+
next
  case True
  let ?f = "\<lambda>m. if ir_intent_name m = l
      then m\<lparr>ir_service_id := s, ir_taxonomy_version := v, ir_is_active := Some True\<rparr> else m"
  from assms(2) True have db': "db' = db\<lparr>t_intent_routing := map ?f (t_intent_routing db)\<rparr>" "service_exists s db"
    by (auto simp: upsert_mapping_def split: if_splits)
  have n: "map ir_intent_name (t_intent_routing db') = map ir_intent_name (t_intent_routing db)"
    and ids: "map ir_id (t_intent_routing db') = map ir_id (t_intent_routing db)" by (auto simp: db')
  have "\<forall>m \<in> set (t_intent_routing db'). service_exists (ir_service_id m) db'"
    using assms(1) db' by (auto simp: intent_table_ok_def service_exists_def)
  then have ok: "intent_table_ok db'" using assms(1) unfolding intent_table_ok_def n ids by simp
  then have d: "distinct (map ir_intent_name (t_intent_routing db'))" "distinct (map ir_intent_name (t_intent_routing db))"
    using assms(1) by (simp_all add: intent_table_ok_def)
  obtain m where m: "m \<in> set (t_intent_routing db)" "ir_intent_name m = l" using True by (auto simp: list_ex_iff)
  have tdb: "t_intent_routing db' = map ?f (t_intent_routing db)" by (simp add: db')
  from m(1) have "?f m \<in> ?f ` set (t_intent_routing db)" by (rule imageI)
  then have "?f m \<in> set (t_intent_routing db')" by (simp only: tdb set_map)
  then have "mapped_service db' l = Some s" unfolding mapped_service_Some [OF d(1)] using m by (intro bexI [of _ "?f m"]) simp_all
  moreover have "mapped_service db' l' = Some x \<longleftrightarrow> mapped_service db l' = Some x" if "l' \<noteq> l" for x
    using that unfolding mapped_service_Some [OF d(1)] mapped_service_Some [OF d(2)] by (auto simp: db')
  then have "l' = l \<or> mapped_service db' l' = mapped_service db l'" by (metis option.exhaust)
  moreover have "ir_id ` set (t_intent_routing db') = ir_id ` set (t_intent_routing db)" using ids by (metis list.set_map)
  ultimately show ?thesis using ok by auto
qed

text \<open>An entry of the taxonomy file.\<close>

definition entry_json :: "string \<times> string \<Rightarrow> json" where
  "entry_json p = JObj [(''label'', JStr (fst p)), (''service_id'', JStr (snd p))]"

lemma upsert_all_keeps:
  assumes "intent_table_ok db" and "upsert_all refused ids (JStr v) n (map entry_json es) db = (db', Inr ())"
    and "inj ids" and "\<forall>k \<ge> n. ids k \<notin> ir_id ` set (t_intent_routing db)"
  shows "intent_table_ok db' \<and> mapped_service db' l =
    (case map_of (rev es) l of Some s \<Rightarrow> Some s | None \<Rightarrow> mapped_service db l)"
  using assms
proof (induction es arbitrary: db n)
  case Nil
  then show ?case by simp
next
  case (Cons e es)
  obtain l0 s0 where e: "e = (l0, s0)" by (cases e)
  from Cons.prems(2) obtain db1 where u: "upsert_mapping refused (ids n) l0 s0 v db = (db1, Inr ())"
    and rest: "upsert_all refused ids (JStr v) (Suc n) (map entry_json es) db1 = (db', Inr ())"
    by (auto simp: e entry_json_def [of "(l0, s0)"] need_def then_act_Inr_iff)
  have fresh: "ids n \<notin> ir_id ` set (t_intent_routing db)" using Cons.prems(4) by simp
  note k = upsert_mapping_keeps [OF Cons.prems(1) u fresh, of l]
  have "\<forall>k \<ge> Suc n. ids k \<notin> ir_id ` set (t_intent_routing db1)"
  proof (intro allI impI notI)
    fix j
    assume j: "Suc n \<le> j" "ids j \<in> ir_id ` set (t_intent_routing db1)"
    with k have "ids j = ids n \<or> ids j \<in> ir_id ` set (t_intent_routing db)" by blast
    with j(1) Cons.prems(3,4) show False by (auto dest: injD)
  qed
  from Cons.IH [OF _ rest Cons.prems(3) this] k show ?case
    by (auto simp: e map_add_def split: option.splits)
qed

text \<open>The migration does what it is for: after a run that succeeds every label of the file
  resolves to its service, the last one given for it, also when its mapping had been switched off,
  all other intents resolve as before, and ids, names and services of the table stay in order.\<close>

theorem migration_maps_the_taxonomy:
  assumes "migrate refused path ids (Some (JObj [(''version'', JStr v), (''intents'', JArr (map entry_json es))])) db
      = (db', Inr ())"
    and "intent_table_ok db" and "inj ids" and "\<forall>k. ids k \<notin> ir_id ` set (t_intent_routing db)"
  shows "intent_table_ok db' \<and> mapped_service db' l =
    (case map_of (rev es) l of Some s \<Rightarrow> Some s | None \<Rightarrow> mapped_service db l)"
proof -
  from assms(1) have "upsert_all refused ids (JStr v) 0 (map entry_json es) db = (db', Inr ())"
    by (auto simp: migrate_def as_dict_def items_of_def dict_get_default_def split: prod.splits sum.splits)
  from upsert_all_keeps [OF assms(2) this assms(3)] assms(4) show ?thesis by simp
qed

section \<open>Witnesses\<close>

definition sample_env :: "unit startup_env" where
  "sample_env = \<lparr>su_cfg = embedded_only, su_put = (\<lambda>_. Transport_Error []), su_now = ''now'',
     su_refused = Runtime ValueError, su_ids = (\<lambda>_. []), su_stamps = (\<lambda>_. 0),
     su_policy_file = Some shipped_policies, su_compile = substring_compile, su_spacy = Spacy_Loaded ()\<rparr>"

lemma sample_start: "\<exists>st'. lifespan sample_env (fresh_app 1 empty_database) = (st', Inr ())"
proof -
  let ?d = "[(''policies'', JArr shipped_items), (''version'', JStr ''1.0.0'')]"
  have "\<exists>rows. seed_rows (Runtime ValueError) (\<lambda>_. []) (\<lambda>_. 0) 0 ?d shipped_items = Inr rows \<and> distinct (map gp_id rows)"
    by (simp add: shipped_items_def policy_entry_def seed_simps)
  then obtain db where "seed_policies (Runtime ValueError) (\<lambda>_. []) (\<lambda>_. 0) (Some shipped_policies) empty_database = (db, Inr ())"
    by (auto simp: seed_policies_def seed_items_shipped empty_database_def)
  then show ?thesis
    by (simp add: lifespan_def then_act_def on_db_def sample_env_def fresh_app_def sync_step_def sync_from_db_def
        embedded_only_def Let_def pattern_step_def nlp_step_def load_spacy_model_def intent_step_def)
qed

theorem startup_serves_the_tables_witness:
  "\<exists>st'. lifespan sample_env (fresh_app 1 empty_database) = (st', Inr ()) \<and> ps_patterns (app_scanner st') \<noteq> []"
  using sample_start startup_serves_the_tables [of sample_env "fresh_app 1 empty_database"] by blast

theorem shipped_policies_decide_witness:
  "\<exists>st'. lifespan sample_env (fresh_app 1 empty_database) = (st', Inr ())
     \<and> (\<exists>e. evaluate (app_policies st') \<lparr>ctx_sensitivity = Some ''HIGH'', ctx_tenant = None, ctx_service_type = Some ''cloud''\<rparr> = Inl e)"
proof -
  obtain st' where s: "lifespan sample_env (fresh_app 1 empty_database) = (st', Inr ())" using sample_start by blast
  have "canonical_service_type (Some ''cloud'') = ''cloud''" by code_simp
  with shipped_policies_decide [OF s, of "\<lparr>ctx_sensitivity = Some ''HIGH'', ctx_tenant = None, ctx_service_type = Some ''cloud''\<rparr>"] s
  show ?thesis by (simp add: fresh_app_def empty_database_def sample_env_def Let_def)
qed

theorem migration_maps_the_taxonomy_witness:
  "\<exists>db'. migrate (Runtime ValueError) [] (\<lambda>n. replicate n CHR ''x'')
       (Some (JObj [(''version'', JStr ''2''), (''intents'', JArr (map entry_json [(''code'', ''llm'')]))])) sample_routing
       = (db', Inr ()) \<and> intent_table_ok db' \<and> mapped_service db' ''code'' = Some ''llm''"
proof -
  let ?ids = "\<lambda>n. replicate n CHR ''x''"
  obtain db' where m: "migrate (Runtime ValueError) [] ?ids
       (Some (JObj [(''version'', JStr ''2''), (''intents'', JArr (map entry_json [(''code'', ''llm'')]))])) sample_routing
       = (db', Inr ())"
    by (simp add: migrate_def as_dict_def items_of_def dict_get_default_def entry_json_def need_def then_act_def
        upsert_mapping_def sample_routing_def service_exists_def sample_service_def return_act_def)
  have "inj ?ids" by (auto intro: injI simp: replicate_eq_replicate)
  moreover have "\<forall>k. ?ids k \<notin> ir_id ` set (t_intent_routing sample_routing)"
  proof
    fix k
    have "hd (?ids k) \<noteq> CHR ''i'' \<or> k = 0" by (cases k) simp_all
    then show "?ids k \<notin> ir_id ` set (t_intent_routing sample_routing)" by (auto simp: sample_routing_def)
  qed
  ultimately show ?thesis
    using migration_maps_the_taxonomy [OF m sample_routing_ok, of "''code''"] m by simp
qed

end
