(* ===== verification/Migrations.thy ===== *)
theory Migrations
  imports Intent_Routing
begin

text \<open>
  The schema of the platform database: the catalogue as a dictionary from tables to
  their columns, constraints and indexes, the DDL calls the Alembic scripts make, with the
  documented errors of PostgreSQL (an object that is missing, a name that is taken, a table another
  one refers to), the three scripts of src/fastapi\_backend/migrations/versions, the tables of
  app/models as \<open>Base.metadata.create_all\<close> builds them, and the seeding script on the rows. A script
  runs in one transaction, so that an error is \<open>None\<close>. Sequences, server defaults and the casts of
  stored values are left out.
\<close>

section \<open>Catalogue\<close>

datatype col_type = T_Varchar "nat option" | T_Text | T_Json | T_Jsonb | T_Boolean | T_Integer | T_Float
  | T_Numeric nat nat | T_Uuid | T_Timestamp | T_Timestamptz

datatype constraint_def = Primary_Key "string list" | Unique_Key "string list"
  | Foreign_Key "string list" string "string list"

text \<open>A table: its columns with type and nullability, its constraints, and its indexes with their
  columns and whether they are unique.\<close>

record table_def =
  td_columns :: "(string \<times> col_type \<times> bool) list"
  td_constraints :: "(string \<times> constraint_def) list"
  td_indexes :: "(string \<times> string list \<times> bool) list"

type_synonym catalogue = "(string \<times> table_def) list"

text \<open>Tables and indexes share one name space, and a key constraint has an index of its own name.\<close>

fun key_of :: "constraint_def \<Rightarrow> string list option" where
  "key_of (Primary_Key cs) = Some cs"
| "key_of (Unique_Key cs) = Some cs"
| "key_of (Foreign_Key cs u us) = None"

definition relation_names :: "string \<times> table_def \<Rightarrow> string list" where
  "relation_names p = fst p # map fst (filter (\<lambda>(n, k). key_of k \<noteq> None) (td_constraints (snd p))) @ map fst (td_indexes (snd p))"

definition name_taken :: "catalogue \<Rightarrow> string \<Rightarrow> bool" where
  "name_taken S n = list_ex (\<lambda>p. n \<in> set (relation_names p)) S"

text \<open>The tables, with the columns, that foreign keys of a table point to.\<close>

definition references :: "table_def \<Rightarrow> (string \<times> string list) list" where
  "references d = concat (map (\<lambda>(n, k). case k of Foreign_Key cs u us \<Rightarrow> [(u, us)] | _ \<Rightarrow> []) (td_constraints d))"

definition columns_exist :: "table_def \<Rightarrow> string list \<Rightarrow> bool" where
  "columns_exist d cs = list_all (\<lambda>c. dict_get (td_columns d) c \<noteq> None) cs"

section \<open>DDL\<close>

datatype ddl =
    Create_Table string "(string \<times> col_type \<times> bool) list" "(string \<times> constraint_def) list"
  | Drop_Table string
  | Create_Index string string "string list" bool
  | Drop_Index string
  | Alter_Column string string col_type
  | Create_Unique string string "string list"
  | Drop_Constraint string string

text \<open>A change of one table that is there.\<close>

definition change_table :: "string \<Rightarrow> (table_def \<Rightarrow> table_def option) \<Rightarrow> catalogue \<Rightarrow> catalogue option" where
  "change_table t f S =
     (case dict_get S t of
        None \<Rightarrow> None
      | Some d \<Rightarrow> (case f d of None \<Rightarrow> None | Some d' \<Rightarrow> Some (dict_set S t d')))"

fun apply_ddl :: "ddl \<Rightarrow> catalogue \<Rightarrow> catalogue option" where
  "apply_ddl (Create_Table t cs ks) S =
     (let new = (t, \<lparr>td_columns = cs, td_constraints = ks, td_indexes = []\<rparr>)
      in if list_ex (name_taken S) (relation_names new)
            \<or> \<not> list_all (\<lambda>r. fst r = t \<or> dict_get S (fst r) \<noteq> None) (references (snd new))
         then None else Some (new # S))"
| "apply_ddl (Drop_Table t) S =
     (if dict_get S t = None \<or> list_ex (\<lambda>(u, d). u \<noteq> t \<and> t \<in> set (map fst (references d))) S then None
      else Some (dict_del S t))"
| "apply_ddl (Create_Index i t cs unique) S =
     (if name_taken S i then None
      else change_table t (\<lambda>d. if columns_exist d cs
        then Some (d\<lparr>td_indexes := td_indexes d @ [(i, cs, unique)]\<rparr>) else None) S)"
| "apply_ddl (Drop_Index i) S =
     (case find (\<lambda>(t, d). dict_get (td_indexes d) i \<noteq> None) S of
        None \<Rightarrow> None
      | Some (t, _) \<Rightarrow> change_table t (\<lambda>d. Some (d\<lparr>td_indexes := dict_del (td_indexes d) i\<rparr>)) S)"
| "apply_ddl (Alter_Column t c ty) S =
     change_table t (\<lambda>d. case dict_get (td_columns d) c of
        None \<Rightarrow> None
      | Some (_, nullable) \<Rightarrow> Some (d\<lparr>td_columns := dict_set (td_columns d) c (ty, nullable)\<rparr>)) S"
| "apply_ddl (Create_Unique n t cs) S =
     (if name_taken S n then None
      else change_table t (\<lambda>d. if columns_exist d cs
        then Some (d\<lparr>td_constraints := td_constraints d @ [(n, Unique_Key cs)]\<rparr>) else None) S)"
| "apply_ddl (Drop_Constraint t n) S =
     change_table t (\<lambda>d. case dict_get (td_constraints d) n of
        None \<Rightarrow> None
      | Some k \<Rightarrow>
          (if case key_of k of None \<Rightarrow> False | Some cs \<Rightarrow> list_ex (\<lambda>p. (t, cs) \<in> set (references (snd p))) S
           then None else Some (d\<lparr>td_constraints := dict_del (td_constraints d) n\<rparr>))) S"

fun run_ddl :: "ddl list \<Rightarrow> catalogue \<Rightarrow> catalogue option" where
  "run_ddl [] S = Some S"
| "run_ddl (op # ops) S = (case apply_ddl op S of None \<Rightarrow> None | Some S' \<Rightarrow> run_ddl ops S')"

section \<open>The scripts\<close>

definition upgrade_a5b96c4ebf81 :: "ddl list" where
  "upgrade_a5b96c4ebf81 =
    [Create_Table ''governance_policies''
       [(''id'', T_Varchar None, False), (''description'', T_Varchar None, True),
        (''condition'', T_Json, False), (''effect'', T_Varchar None, False),
        (''is_active'', T_Boolean, False), (''version'', T_Varchar None, False),
        (''created_at'', T_Timestamp, True), (''updated_at'', T_Timestamp, True)]
       [(''governance_policies_pkey'', Primary_Key [''id''])],
     Drop_Index ''ix_choices_choice_text'',
     Drop_Index ''ix_choices_id'',
     Drop_Table ''choices'',
     Drop_Index ''ix_questions_id'',
     Drop_Index ''ix_questions_question_text'',
     Drop_Table ''questions'',
     Drop_Index ''ix_deleteLater_description'',
     Drop_Index ''ix_deleteLater_id'',
     Drop_Index ''ix_deleteLater_name'',
     Drop_Table ''deleteLater'',
     Alter_Column ''ai_requests'' ''error_detail'' (T_Varchar None),
     Drop_Index ''idx_ai_requests_started_at'',
     Drop_Index ''idx_ai_requests_tenant_id'',
     Alter_Column ''ai_services'' ''provider_url'' (T_Varchar None),
     Create_Index ''ix_ai_services_service_id'' ''ai_services'' [''service_id''] False,
     Alter_Column ''intent_mapping_audit_logs'' ''old_value'' T_Json,
     Alter_Column ''intent_mapping_audit_logs'' ''new_value'' T_Json,
     Create_Index ''ix_intent_mapping_audit_logs_id'' ''intent_mapping_audit_logs'' [''id''] False,
     Drop_Index ''idx_intent_routing_intent_name'',
     Drop_Constraint ''intent_routing'' ''intent_routing_intent_name_key'',
     Create_Index ''ix_intent_routing_id'' ''intent_routing'' [''id''] False,
     Create_Index ''ix_intent_routing_intent_name'' ''intent_routing'' [''intent_name''] True,
     Alter_Column ''permission_audit_logs'' ''performed_at'' T_Timestamptz,
     Alter_Column ''permission_audit_logs'' ''reason'' (T_Varchar None),
     Create_Index ''ix_permission_audit_logs_id'' ''permission_audit_logs'' [''id''] False,
     Alter_Column ''policy_evaluation_audit_logs'' ''context'' T_Json,
     Drop_Index ''idx_policy_audit_request_id'',
     Create_Index ''ix_policy_evaluation_audit_logs_id'' ''policy_evaluation_audit_logs'' [''id''] False,
     Alter_Column ''tenant_service_permissions'' ''granted_at'' T_Timestamptz]"

definition downgrade_a5b96c4ebf81 :: "ddl list" where
  "downgrade_a5b96c4ebf81 =
    [Alter_Column ''tenant_service_permissions'' ''granted_at'' T_Timestamp,
     Drop_Index ''ix_policy_evaluation_audit_logs_id'',
     Create_Index ''idx_policy_audit_request_id'' ''policy_evaluation_audit_logs'' [''request_id''] False,
     Alter_Column ''policy_evaluation_audit_logs'' ''context'' T_Jsonb,
     Drop_Index ''ix_permission_audit_logs_id'',
     Alter_Column ''permission_audit_logs'' ''reason'' T_Text,
     Alter_Column ''permission_audit_logs'' ''performed_at'' T_Timestamp,
     Drop_Index ''ix_intent_routing_intent_name'',
     Drop_Index ''ix_intent_routing_id'',
     Create_Unique ''intent_routing_intent_name_key'' ''intent_routing'' [''intent_name''],
     Create_Index ''idx_intent_routing_intent_name'' ''intent_routing'' [''intent_name''] False,
     Drop_Index ''ix_intent_mapping_audit_logs_id'',
     Alter_Column ''intent_mapping_audit_logs'' ''new_value'' T_Jsonb,
     Alter_Column ''intent_mapping_audit_logs'' ''old_value'' T_Jsonb,
     Drop_Index ''ix_ai_services_service_id'',
     Alter_Column ''ai_services'' ''provider_url'' T_Text,
     Create_Index ''idx_ai_requests_tenant_id'' ''ai_requests'' [''tenant_id''] False,
     Create_Index ''idx_ai_requests_started_at'' ''ai_requests'' [''started_at''] False,
     Alter_Column ''ai_requests'' ''error_detail'' T_Text,
     Create_Table ''deleteLater''
       [(''id'', T_Uuid, False), (''name'', T_Varchar None, True),
        (''description'', T_Varchar None, True)]
       [(''deleteLater_pkey'', Primary_Key [''id''])],
     Create_Index ''ix_deleteLater_name'' ''deleteLater'' [''name''] False,
     Create_Index ''ix_deleteLater_id'' ''deleteLater'' [''id''] False,
     Create_Index ''ix_deleteLater_description'' ''deleteLater'' [''description''] False,
     Create_Table ''questions''
       [(''id'', T_Integer, False), (''question_text'', T_Varchar None, True)]
       [(''questions_pkey'', Primary_Key [''id''])],
     Create_Index ''ix_questions_question_text'' ''questions'' [''question_text''] False,
     Create_Index ''ix_questions_id'' ''questions'' [''id''] False,
     Create_Table ''choices''
       [(''id'', T_Integer, False), (''choice_text'', T_Varchar None, True),
        (''is_correct'', T_Boolean, True), (''question_id'', T_Integer, True)]
       [(''choices_question_id_fkey'', Foreign_Key [''question_id''] ''questions'' [''id'']),
        (''choices_pkey'', Primary_Key [''id''])],
     Create_Index ''ix_choices_id'' ''choices'' [''id''] False,
     Create_Index ''ix_choices_choice_text'' ''choices'' [''choice_text''] False,
     Drop_Table ''governance_policies'']"

definition upgrade_fb609a2f3088 :: "ddl list" where
  "upgrade_fb609a2f3088 =
    [Alter_Column ''governance_policies'' ''created_at'' T_Timestamptz,
     Alter_Column ''governance_policies'' ''updated_at'' T_Timestamptz]"

definition downgrade_fb609a2f3088 :: "ddl list" where
  "downgrade_fb609a2f3088 =
    [Alter_Column ''governance_policies'' ''updated_at'' T_Timestamp,
     Alter_Column ''governance_policies'' ''created_at'' T_Timestamp]"

text \<open>To the last revision and back to the first; the third script changes rows only.\<close>

definition upgrade_schema :: "ddl list" where
  "upgrade_schema = upgrade_a5b96c4ebf81 @ upgrade_fb609a2f3088"

definition downgrade_schema :: "ddl list" where
  "downgrade_schema = downgrade_fb609a2f3088 @ downgrade_a5b96c4ebf81"

section \<open>The tables of the models\<close>

text \<open>What \<open>create_all\<close> issues for a table of app/models: its columns with the key and the references, and an
  index for every column with \<open>index=True\<close> (a unique one for \<open>unique=True, index=True\<close>).\<close>

definition create_ai_services :: "ddl list" where
  "create_ai_services =
    [Create_Table ''ai_services''
       [(''service_id'', T_Varchar None, False), (''model_name'', T_Varchar None, False),
        (''provider_url'', T_Varchar None, False), (''provider_type'', T_Varchar None, True),
        (''description'', T_Text, True), (''service_type'', T_Varchar None, True)]
       [(''ai_services_pkey'', Primary_Key [''service_id''])],
     Create_Index ''ix_ai_services_service_id'' ''ai_services'' [''service_id''] False]"

definition create_ai_requests :: "ddl list" where
  "create_ai_requests =
    [Create_Table ''ai_requests''
       [(''request_id'', T_Varchar None, False), (''tenant_id'', T_Varchar None, False),
        (''intent'', T_Varchar None, False), (''resolved_service_id'', T_Varchar None, True),
        (''sensitivity'', T_Varchar None, False), (''resolved_sensitivity'', T_Varchar None, True),
        (''environment'', T_Varchar None, False), (''status'', T_Varchar None, False),
        (''started_at'', T_Timestamp, False), (''completed_at'', T_Timestamp, True),
        (''error_detail'', T_Varchar None, True)]
       [(''ai_requests_pkey'', Primary_Key [''request_id'']),
        (''ai_requests_resolved_service_id_fkey'', Foreign_Key [''resolved_service_id''] ''ai_services'' [''service_id''])]]"

definition create_intent_routing :: "ddl list" where
  "create_intent_routing =
    [Create_Table ''intent_routing''
       [(''id'', T_Uuid, False), (''intent_name'', T_Varchar None, False),
        (''service_id'', T_Varchar None, False), (''is_active'', T_Boolean, True),
        (''taxonomy_version'', T_Varchar None, False), (''created_at'', T_Timestamptz, True),
        (''updated_at'', T_Timestamptz, True), (''created_by'', T_Varchar None, False)]
       [(''intent_routing_pkey'', Primary_Key [''id'']),
        (''intent_routing_service_id_fkey'', Foreign_Key [''service_id''] ''ai_services'' [''service_id''])],
     Create_Index ''ix_intent_routing_id'' ''intent_routing'' [''id''] False,
     Create_Index ''ix_intent_routing_intent_name'' ''intent_routing'' [''intent_name''] True]"

definition create_tenant_service_permissions :: "ddl list" where
  "create_tenant_service_permissions =
    [Create_Table ''tenant_service_permissions''
       [(''tenant_id'', T_Varchar None, False), (''service_id'', T_Varchar None, False),
        (''allowed'', T_Boolean, True), (''granted_by'', T_Varchar None, True),
        (''granted_at'', T_Timestamptz, True)]
       [(''tenant_service_permissions_pkey'', Primary_Key [''tenant_id'', ''service_id''])]]"

definition create_permission_audit_logs :: "ddl list" where
  "create_permission_audit_logs =
    [Create_Table ''permission_audit_logs''
       [(''id'', T_Integer, False), (''tenant_id'', T_Varchar None, True),
        (''service_id'', T_Varchar None, True), (''action'', T_Varchar None, True),
        (''performed_by'', T_Varchar None, True), (''performed_at'', T_Timestamptz, True),
        (''reason'', T_Varchar None, True), (''intent'', T_Varchar None, True)]
       [(''permission_audit_logs_pkey'', Primary_Key [''id''])],
     Create_Index ''ix_permission_audit_logs_id'' ''permission_audit_logs'' [''id''] False]"

definition create_intent_mapping_audit_logs :: "ddl list" where
  "create_intent_mapping_audit_logs =
    [Create_Table ''intent_mapping_audit_logs''
       [(''id'', T_Integer, False), (''action'', T_Varchar None, False),
        (''performed_by'', T_Varchar None, False), (''entity_id'', T_Varchar None, False),
        (''old_value'', T_Json, True), (''new_value'', T_Json, True),
        (''created_at'', T_Timestamptz, True)]
       [(''intent_mapping_audit_logs_pkey'', Primary_Key [''id''])],
     Create_Index ''ix_intent_mapping_audit_logs_id'' ''intent_mapping_audit_logs'' [''id''] False]"

definition create_policy_evaluation_audit_logs :: "ddl list" where
  "create_policy_evaluation_audit_logs =
    [Create_Table ''policy_evaluation_audit_logs''
       [(''id'', T_Integer, False), (''request_id'', T_Varchar None, False),
        (''policy_id'', T_Varchar None, False), (''effect'', T_Varchar None, False),
        (''decision'', T_Varchar None, False), (''context'', T_Json, True),
        (''created_at'', T_Timestamptz, True)]
       [(''policy_evaluation_audit_logs_pkey'', Primary_Key [''id''])],
     Create_Index ''ix_policy_evaluation_audit_logs_id'' ''policy_evaluation_audit_logs'' [''id''] False]"

definition create_governance_policies :: "ddl list" where
  "create_governance_policies =
    [Create_Table ''governance_policies''
       [(''id'', T_Varchar None, False), (''description'', T_Varchar None, True),
        (''condition'', T_Json, False), (''effect'', T_Varchar None, False),
        (''is_active'', T_Boolean, False), (''version'', T_Varchar None, False),
        (''created_at'', T_Timestamptz, True), (''updated_at'', T_Timestamptz, True)]
       [(''governance_policies_pkey'', Primary_Key [''id''])]]"

definition create_usage_token_logs :: "ddl list" where
  "create_usage_token_logs =
    [Create_Table ''usage_token_logs''
       [(''id'', T_Integer, False), (''request_id'', T_Varchar (Some 255), False),
        (''tenant_id'', T_Varchar (Some 255), False), (''service_id'', T_Varchar (Some 255), False),
        (''model_name'', T_Varchar (Some 255), True), (''input_tokens'', T_Integer, True),
        (''output_tokens'', T_Integer, True), (''total_tokens'', T_Integer, True),
        (''cost_estimate'', T_Numeric 10 5, True), (''created_at'', T_Timestamp, True)]
       [(''usage_token_logs_pkey'', Primary_Key [''id''])],
     Create_Index ''ix_usage_token_logs_id'' ''usage_token_logs'' [''id''] False,
     Create_Index ''ix_usage_token_logs_request_id'' ''usage_token_logs'' [''request_id''] False,
     Create_Index ''ix_usage_token_logs_tenant_id'' ''usage_token_logs'' [''tenant_id''] False]"

definition create_security_events :: "ddl list" where
  "create_security_events =
    [Create_Table ''security_events''
       [(''id'', T_Integer, False), (''event_type'', T_Varchar (Some 50), False),
        (''tenant_id'', T_Varchar (Some 255), False), (''request_id'', T_Varchar (Some 255), True),
        (''prompt_hash'', T_Varchar (Some 64), True), (''matched_patterns'', T_Text, True),
        (''score'', T_Float, True), (''decision'', T_Varchar (Some 20), False),
        (''redacted_types'', T_Text, True), (''redaction_count'', T_Integer, True),
        (''metadata_extra'', T_Text, True), (''created_at'', T_Timestamptz, True)]
       [(''security_events_pkey'', Primary_Key [''id''])]]"

definition create_security_patterns :: "ddl list" where
  "create_security_patterns =
    [Create_Table ''security_patterns''
       [(''id'', T_Integer, False), (''name'', T_Varchar (Some 255), False),
        (''pattern'', T_Text, False), (''weight'', T_Numeric 5 2, True),
        (''description'', T_Text, True), (''is_active'', T_Boolean, True),
        (''created_at'', T_Timestamptz, True), (''updated_at'', T_Timestamptz, True),
        (''created_by'', T_Varchar (Some 255), True)]
       [(''security_patterns_pkey'', Primary_Key [''id'']),
        (''security_patterns_name_key'', Unique_Key [''name''])]]"

definition create_request_lifecycle_events :: "ddl list" where
  "create_request_lifecycle_events =
    [Create_Table ''request_lifecycle_events''
       [(''id'', T_Integer, False), (''request_id'', T_Varchar (Some 255), False),
        (''tenant_id'', T_Varchar (Some 255), False), (''stage'', T_Varchar (Some 64), False),
        (''detail'', T_Text, True), (''created_at'', T_Timestamptz, True)]
       [(''request_lifecycle_events_pkey'', Primary_Key [''id''])],
     Create_Index ''ix_request_lifecycle_events_request_id'' ''request_lifecycle_events'' [''request_id''] False,
     Create_Index ''ix_request_lifecycle_events_tenant_id'' ''request_lifecycle_events'' [''tenant_id''] False]"

text \<open>\<open>create_all\<close> passes over the tables that are there, in an order in which references exist.\<close>

definition migrated_tables :: "(string \<times> ddl list) list" where
  "migrated_tables =
     [(''ai_services'', create_ai_services), (''ai_requests'', create_ai_requests),
      (''intent_routing'', create_intent_routing), (''tenant_service_permissions'', create_tenant_service_permissions),
      (''permission_audit_logs'', create_permission_audit_logs),
      (''intent_mapping_audit_logs'', create_intent_mapping_audit_logs),
      (''policy_evaluation_audit_logs'', create_policy_evaluation_audit_logs),
      (''governance_policies'', create_governance_policies)]"

definition model_tables :: "(string \<times> ddl list) list" where
  "model_tables = migrated_tables @
     [(''usage_token_logs'', create_usage_token_logs), (''security_events'', create_security_events),
      (''security_patterns'', create_security_patterns), (''request_lifecycle_events'', create_request_lifecycle_events)]"

fun create_all :: "(string \<times> ddl list) list \<Rightarrow> catalogue \<Rightarrow> catalogue option" where
  "create_all [] S = Some S"
| "create_all ((t, ops) # ts) S =
     (if dict_get S t \<noteq> None then create_all ts S
      else case run_ddl ops S of None \<Rightarrow> None | Some S' \<Rightarrow> create_all ts S')"

text \<open>The address of the database with the asynchronous driver in it.\<close>

definition asyncpg_url :: "string \<Rightarrow> string" where
  "asyncpg_url url =
     (if starts_with ''postgresql://'' url then ''postgresql+asyncpg://'' @ drop (length ''postgresql://'') url else url)"

section \<open>The rows of the third script\<close>

text \<open>\<open>INSERT ... ON CONFLICT (intent_name) DO NOTHING\<close>, which names neither the id nor \<open>is_active\<close>: both
  get the default of the column. Without a conflict the service must exist.\<close>

definition seed_unclassified :: "bool option \<Rightarrow> string \<Rightarrow> database \<Rightarrow> database option" where
  "seed_unclassified is_active_default new_id db =
     (if \<exists>m \<in> set (t_intent_routing db). ir_intent_name m = ''unclassified'' then Some db
      else if \<not> (\<exists>s \<in> set (t_ai_services db). sv_service_id s = ''ollama-llama3'') then None
      else Some (db\<lparr>t_intent_routing := t_intent_routing db @
        [\<lparr>ir_id = new_id, ir_intent_name = ''unclassified'', ir_service_id = ''ollama-llama3'',
          ir_is_active = is_active_default, ir_taxonomy_version = ''1.0'', ir_created_by = ''admin''\<rparr>]\<rparr>))"

definition unseed_unclassified :: "database \<Rightarrow> database" where
  "unseed_unclassified db =
     db\<lparr>t_intent_routing := filter (\<lambda>m. ir_intent_name m \<noteq> ''unclassified'') (t_intent_routing db)\<rparr>"

section \<open>The frame of a script\<close>

text \<open>The names a statement mentions, and the tables it takes a key from. A statement neither needs nor
  changes tables that share no name with it and point to none of the latter.\<close>

fun mentions :: "ddl \<Rightarrow> string list" where
  "mentions (Create_Table t cs ks) = t # map fst ks"
| "mentions (Drop_Table t) = [t]"
| "mentions (Create_Index i t cs unique) = [i, t]"
| "mentions (Drop_Index i) = [i]"
| "mentions (Alter_Column t c ty) = [t]"
| "mentions (Create_Unique n t cs) = [n, t]"
| "mentions (Drop_Constraint t n) = [t, n]"

fun unkeyed :: "ddl \<Rightarrow> string list" where
  "unkeyed (Drop_Table t) = [t]"
| "unkeyed (Drop_Constraint t n) = [t]"
| "unkeyed _ = []"

definition untouched_by :: "ddl \<Rightarrow> string \<times> table_def \<Rightarrow> bool" where
  "untouched_by op p =
     (list_all (\<lambda>n. n \<notin> set (relation_names p)) (mentions op)
      \<and> list_all (\<lambda>r. fst r \<notin> set (unkeyed op)) (references (snd p)))"

definition untouched :: "ddl list \<Rightarrow> catalogue \<Rightarrow> bool" where
  "untouched ops F = list_all (\<lambda>op. list_all (untouched_by op) F) ops"

text \<open>The same tables, whatever the order of tables, constraints and indexes.\<close>

definition same_table :: "table_def \<Rightarrow> table_def \<Rightarrow> bool" where
  "same_table d e \<longleftrightarrow> td_columns d = td_columns e \<and> set (td_constraints d) = set (td_constraints e)
     \<and> set (td_indexes d) = set (td_indexes e)"

definition same_catalogue :: "catalogue \<Rightarrow> catalogue \<Rightarrow> bool" where
  "same_catalogue S T \<longleftrightarrow> set (map fst S) = set (map fst T)
     \<and> list_all (\<lambda>(t, d). case dict_get T t of None \<Rightarrow> False | Some e \<Rightarrow> same_table d e) S"

lemma dict_set_append: "dict_get xs k \<noteq> None \<Longrightarrow> dict_set (xs @ ys) k v = dict_set xs k v @ ys"
  by (induction xs k v rule: dict_set.induct) auto

lemma untouched_Cons: "untouched (op # ops) F \<longleftrightarrow> list_all (untouched_by op) F \<and> untouched ops F"
  by (simp add: untouched_def)

lemma frame_table: "list_all (untouched_by op) F \<Longrightarrow> t \<in> set (mentions op) \<Longrightarrow> p \<in> set F \<Longrightarrow> fst p \<noteq> t"
  by (auto simp: untouched_by_def list_all_iff relation_names_def)

lemma frame_name: "list_all (untouched_by op) F \<Longrightarrow> n \<in> set (mentions op) \<Longrightarrow> \<not> name_taken F n"
  by (auto simp: name_taken_def untouched_by_def list_all_iff list_ex_iff)

lemma name_taken_append: "name_taken (L @ F) n \<longleftrightarrow> name_taken L n \<or> name_taken F n"
  by (simp add: name_taken_def)

lemma change_table_append: "change_table t f L = Some L' \<Longrightarrow> change_table t f (L @ F) = Some (L' @ F)"
  by (auto simp: change_table_def dict_get_append dict_set_append split: option.splits)

lemma apply_ddl_frame:
  assumes "apply_ddl op L = Some L'" and u: "list_all (untouched_by op) F"
  shows "apply_ddl op (L @ F) = Some (L' @ F)"
proof (cases op)
  case (Create_Table t cs ks)
  have "set (relation_names (t, \<lparr>td_columns = cs, td_constraints = ks, td_indexes = []\<rparr>)) \<subseteq> set (mentions op)"
    by (auto simp: Create_Table relation_names_def)
  with u have "\<not> list_ex (name_taken F) (relation_names (t, \<lparr>td_columns = cs, td_constraints = ks, td_indexes = []\<rparr>))"
    using frame_name by (fastforce simp: list_ex_iff)
  with assms(1) show ?thesis
    by (auto simp: Create_Table Let_def list_ex_iff list_all_iff name_taken_append dict_get_append
        split: if_splits option.splits)
next
  case (Drop_Table t)
  from u have "\<not> list_ex (\<lambda>(u, d). u \<noteq> t \<and> t \<in> set (map fst (references d))) F"
    by (fastforce simp: Drop_Table untouched_by_def list_all_iff list_ex_iff)
  moreover have "dict_del F t = F"
    using frame_table [OF u, of t] by (fastforce simp: Drop_Table dict_del_def filter_id_conv)
  ultimately show ?thesis using assms(1)
    by (auto simp: Drop_Table dict_get_append dict_del_def split: if_splits option.splits)
next
  case (Create_Index i t cs unique)
  with assms(1) frame_name [OF u, of i] show ?thesis
    by (auto simp: name_taken_append change_table_append split: if_splits)
next
  case (Drop_Index i)
  with assms(1) show ?thesis by (auto simp: find_append change_table_append split: option.splits)
next
  case (Alter_Column t c ty)
  with assms(1) show ?thesis by (simp add: change_table_append)
next
  case (Create_Unique n t cs)
  with assms(1) frame_name [OF u, of n] show ?thesis
    by (auto simp: name_taken_append change_table_append split: if_splits)
next
  case (Drop_Constraint t n)
  from u have "\<not> list_ex (\<lambda>p. (t, cs) \<in> set (references (snd p))) F" for cs
    by (fastforce simp: Drop_Constraint untouched_by_def list_all_iff list_ex_iff)
  then have "list_ex (\<lambda>p. (t, cs) \<in> set (references (snd p))) (L @ F) = list_ex (\<lambda>p. (t, cs) \<in> set (references (snd p))) L" for cs
    by simp
  with assms(1) show ?thesis unfolding Drop_Constraint apply_ddl.simps by (simp only: change_table_append)
qed

lemma run_ddl_frame: "run_ddl ops L = Some L' \<Longrightarrow> untouched ops F \<Longrightarrow> run_ddl ops (L @ F) = Some (L' @ F)"
proof (induction ops arbitrary: L)
  case (Cons op ops)
  then obtain L1 where "apply_ddl op L = Some L1" "run_ddl ops L1 = Some L'" by (auto split: option.splits)
  with Cons show ?case by (simp add: apply_ddl_frame untouched_Cons)
qed simp

section \<open>There and back\<close>

text \<open>The scripts and the models describe one schema: evaluated on the tables of the models alone; the
  frame carries it over to any database.\<close>

lemma models_there_and_back:
  "case create_all migrated_tables [] of None \<Rightarrow> False
   | Some M \<Rightarrow> (case run_ddl downgrade_schema M of None \<Rightarrow> False
   | Some B \<Rightarrow> (case run_ddl upgrade_schema B of None \<Rightarrow> False
   | Some M' \<Rightarrow> same_catalogue M M'))"
  by code_simp

text \<open>C22. The scripts and the models agree, whatever other tables a database has that share no name with
  the scripts: taken from the models back to the first revision and forth again, the scripts run
  through, leave the other tables as they are, and end with the tables of the models.\<close>

theorem migrations_agree_with_models:
  assumes "untouched (downgrade_schema @ upgrade_schema) F"
  shows "\<exists>M B M'. create_all migrated_tables [] = Some M \<and> run_ddl downgrade_schema (M @ F) = Some (B @ F)
     \<and> run_ddl upgrade_schema (B @ F) = Some (M' @ F) \<and> same_catalogue M M'"
proof -
  from models_there_and_back obtain M B M' where r: "create_all migrated_tables [] = Some M"
      "run_ddl downgrade_schema M = Some B" "run_ddl upgrade_schema B = Some M'" "same_catalogue M M'"
    by (auto split: option.splits)
  moreover have "untouched downgrade_schema F" "untouched upgrade_schema F"
    using assms by (simp_all add: untouched_def)
  ultimately show ?thesis using run_ddl_frame by blast
qed

definition usage_tables :: catalogue where
  "usage_tables = (case run_ddl create_usage_token_logs [] of None \<Rightarrow> [] | Some S \<Rightarrow> S)"

lemma usage_untouched: "untouched (downgrade_schema @ upgrade_schema) usage_tables"
  by code_simp

theorem migrations_agree_with_models_witness:
  "\<exists>M B M'. create_all migrated_tables [] = Some M \<and> run_ddl upgrade_schema (B @ usage_tables) = Some (M' @ usage_tables)
     \<and> same_catalogue M M'"
  using migrations_agree_with_models [OF usage_untouched] by blast

section \<open>The start of the application\<close>

text \<open>The statements of a table concern that table only.\<close>

fun ddl_table :: "ddl \<Rightarrow> string option" where
  "ddl_table (Create_Table t _ _) = Some t"
| "ddl_table (Create_Index _ t _ _) = Some t"
| "ddl_table _ = None"

definition creates :: "string \<Rightarrow> ddl list \<Rightarrow> bool" where
  "creates t ops \<longleftrightarrow> list_all (\<lambda>op. ddl_table op = Some t) ops \<and> (case ops of Create_Table _ _ _ # _ \<Rightarrow> True | _ \<Rightarrow> False)"

lemma change_table_get: "change_table t f S = Some S' \<Longrightarrow> dict_get S' u = None \<longleftrightarrow> dict_get S u = None"
  by (auto simp: change_table_def dict_get_set split: option.splits if_splits)

lemma change_table_other: "change_table t f S = Some S' \<Longrightarrow> u \<noteq> t \<Longrightarrow> dict_get S' u = dict_get S u"
  by (auto simp: change_table_def dict_get_set split: option.splits)

lemma apply_on_table:
  assumes "ddl_table op = Some t" and "apply_ddl op S = Some S'"
  shows "u \<noteq> t \<Longrightarrow> dict_get S' u = dict_get S u" and "dict_get S u \<noteq> None \<Longrightarrow> dict_get S' u \<noteq> None"
  using assms change_table_get [of t _ S S' u] change_table_other [of t _ S S' u]
  by (cases op; force simp: Let_def split: if_splits)+

lemma run_on_table:
  "list_all (\<lambda>op. ddl_table op = Some t) ops \<Longrightarrow> run_ddl ops S = Some S'
   \<Longrightarrow> (u \<noteq> t \<longrightarrow> dict_get S' u = dict_get S u) \<and> (dict_get S u \<noteq> None \<longrightarrow> dict_get S' u \<noteq> None)"
proof (induction ops arbitrary: S)
  case (Cons op ops)
  then obtain S1 where "apply_ddl op S = Some S1" "run_ddl ops S1 = Some S'" by (auto split: option.splits)
  with Cons.IH [of S1] Cons.prems(1) apply_on_table [of op t S S1 u] show ?case by auto
qed simp

lemma run_creates:
  assumes "creates t ops" and "run_ddl ops S = Some S'"
  shows "dict_get S' t \<noteq> None"
proof -
  obtain cs ks ops' where o: "ops = Create_Table t cs ks # ops'" using assms(1) by (auto simp: creates_def split: list.splits ddl.splits)
  then obtain S1 where s: "apply_ddl (Create_Table t cs ks) S = Some S1" "run_ddl ops' S1 = Some S'"
    using assms(2) by (auto split: option.splits)
  from s(1) have "dict_get S1 t \<noteq> None" by (auto simp: Let_def split: if_splits)
  with s(2) run_on_table [of t ops' S1 S' t] assms(1) o show ?thesis by (auto simp: creates_def)
qed

lemma create_all_adds:
  "list_all (\<lambda>(t, ops). creates t ops) ts \<Longrightarrow> create_all ts S = Some S'
   \<Longrightarrow> (\<forall>u d. dict_get S u = Some d \<longrightarrow> dict_get S' u = Some d) \<and> (\<forall>t \<in> fst ` set ts. dict_get S' t \<noteq> None)"
proof (induction ts S rule: create_all.induct)
  case (2 t ops ts S)
  show ?case
  proof (cases "dict_get S t")
    case None
    with 2(4) obtain S1 where s: "run_ddl ops S = Some S1" "create_all ts S1 = Some S'" by (auto split: option.splits)
    have "dict_get S1 u = Some d" if "dict_get S u = Some d" for u d
      using run_on_table [OF _ s(1), of t u] 2(3) that None by (auto simp: creates_def)
    moreover have "dict_get S1 t \<noteq> None" using run_creates [OF _ s(1)] 2(3) by simp
    ultimately show ?thesis using 2(2) [OF _ s(1) _ s(2)] 2(3) None by auto
  next
    case (Some d)
    with 2 show ?thesis by auto
  qed
qed simp

lemma model_tables_create: "list_all (\<lambda>(t, ops). creates t ops) model_tables"
  by code_simp

lemma upgrade_starts: "case upgrade_schema of Create_Table t _ _ # _ \<Rightarrow> t = ''governance_policies'' | _ \<Rightarrow> False"
  by code_simp

lemma table_name_taken: "dict_get S t \<noteq> None \<Longrightarrow> name_taken S t"
  by (auto simp: name_taken_def list_ex_iff relation_names_def dest!: dict_get_Some_in intro: bexI [rotated])

lemma create_table_twice: "dict_get S t \<noteq> None \<Longrightarrow> run_ddl (Create_Table t cs ks # ops) S = None"
  by (simp add: table_name_taken relation_names_def Let_def)

lemma policies_not_created_twice:
  assumes "dict_get S ''governance_policies'' \<noteq> None"
  shows "run_ddl upgrade_schema S = None"
proof -
  obtain cs ks ops where u: "upgrade_schema = Create_Table ''governance_policies'' cs ks # ops"
    using upgrade_starts by (auto split: list.splits ddl.splits)
  show ?thesis unfolding u by (rule create_table_twice [OF assms])
qed

text \<open>A start creates what is missing and changes no table that is there, so it repairs no drift; and once
  it has created the table of policies the first script can no longer run.\<close>

theorem started_database_cannot_be_migrated:
  assumes "create_all model_tables S = Some S'"
  shows "(\<forall>t d. dict_get S t = Some d \<longrightarrow> dict_get S' t = Some d)
    \<and> (\<forall>t \<in> fst ` set model_tables. dict_get S' t \<noteq> None) \<and> run_ddl upgrade_schema S' = None"
proof -
  have "''governance_policies'' \<in> fst ` set model_tables" by (simp add: model_tables_def migrated_tables_def)
  with create_all_adds [OF model_tables_create assms] policies_not_created_twice show ?thesis by blast
qed

text \<open>Nor can it on an empty database: it begins by dropping indexes of tables no script creates.\<close>

lemma empty_database_cannot_be_migrated: "run_ddl upgrade_schema [] = None"
  by code_simp

section \<open>The seed\<close>

text \<open>In a table \<open>create_all\<close> made the column \<open>is\_active\<close> has no default (the model fills it in on the client
  side), and the seeded mapping is never routed; in the table of init-platform-db.sql it is.\<close>

lemma seed_without_default_is_not_routed:
  "seed_unclassified None i db = Some db' \<Longrightarrow> list_active_intent_mappings db' = list_active_intent_mappings db"
  by (auto simp: seed_unclassified_def list_active_intent_mappings_def split: if_splits)

text \<open>The downgrade undoes the seed when there was none, and otherwise takes a mapping the upgrade did not make.\<close>

lemma seed_is_undone:
  assumes "\<not> (\<exists>m \<in> set (t_intent_routing db). ir_intent_name m = ''unclassified'')"
    and "seed_unclassified b i db = Some db'"
  shows "unseed_unclassified db' = db"
  using assms by (auto simp: seed_unclassified_def unseed_unclassified_def filter_id_conv split: if_splits)

lemma unseed_takes_an_earlier_mapping:
  assumes "m \<in> set (t_intent_routing db)" and "ir_intent_name m = ''unclassified''"
  shows "seed_unclassified b i db = Some db" and "m \<notin> set (t_intent_routing (unseed_unclassified db))"
  using assms by (auto simp: seed_unclassified_def unseed_unclassified_def)

lemma seed_with_default_is_routed:
  assumes "\<not> (\<exists>m \<in> set (t_intent_routing db). ir_intent_name m = ''unclassified'')"
    and "seed_unclassified (Some True) i db = Some db'"
  shows "resolve_intent (force_reload db' c) ''unclassified'' = Inr ''ollama-llama3''"
proof -
  from assms have "list_active_intent_mappings db' = list_active_intent_mappings db @
      [\<lparr>ir_id = i, ir_intent_name = ''unclassified'', ir_service_id = ''ollama-llama3'', ir_is_active = Some True,
        ir_taxonomy_version = ''1.0'', ir_created_by = ''admin''\<rparr>]"
    by (auto simp: seed_unclassified_def list_active_intent_mappings_def split: if_splits)
  then show ?thesis
    using load_mappings_get [of "list_active_intent_mappings db'" "[]" "''unknown''" "''unclassified''"]
    by (auto simp: resolve_intent_def force_reload_def split: prod.splits)
qed

lemma asyncpg_url_once: "asyncpg_url (asyncpg_url url) = asyncpg_url url"
  by (simp add: asyncpg_url_def)

end
