(* ===== verification/Dashboard.thy ===== *)
theory Dashboard
  imports Request_Effects Py_Num
begin

text \<open>
  The dashboard of the administrators (src/fastapi\_backend/app/api/admin/metrics.py): figures over the
  rows of the requests, the services and the usage log that the session sees. What SQL computes and
  does not fix by itself is the parameter \<open>sql\<close>: which rows are of the last day, the order of groups
  under \<open>ORDER BY ... DESC\<close>, averages and sums of floating point columns, the epoch of a time stamp.
\<close>

section \<open>The figures\<close>

record sql_functions =
  sq_recent_request :: "ai_request_record \<Rightarrow> bool"
  sq_recent_usage :: "usage_token_log \<Rightarrow> bool"
  sq_order_desc :: "(string \<times> int) list \<Rightarrow> (string \<times> int) list"
  sq_avg :: "rat list \<Rightarrow> rat"
  sq_sum :: "rat list \<Rightarrow> rat"
  sq_epoch :: "nat \<Rightarrow> rat"

text \<open>\<open>SELECT key, SUM(weight) ... GROUP BY key\<close>.\<close>

definition group_sum :: "('a \<Rightarrow> string) \<Rightarrow> ('a \<Rightarrow> int) \<Rightarrow> 'a list \<Rightarrow> (string \<times> int) list" where
  "group_sum key weight rows =
     map (\<lambda>k. (k, sum_list (map weight (filter (\<lambda>r. key r = k) rows)))) (remdups (map key rows))"

definition success_rate :: "nat \<Rightarrow> nat \<Rightarrow> rat" where
  "success_rate successes all_requests =
     (if 0 < all_requests then fpercent (of_nat successes) (of_nat all_requests) else 100)"

definition top_intent :: "sql_functions \<Rightarrow> ai_request_record list \<Rightarrow> string" where
  "top_intent sql requests =
     (case sq_order_desc sql (group_sum ar_intent (\<lambda>_. 1) (filter (sq_recent_request sql) requests)) of
        [] \<Rightarrow> ''N/A''
      | (i, _) # _ \<Rightarrow> i @ '' (Top)'')"

definition blocked_count :: "ai_request_record list \<Rightarrow> nat" where
  "blocked_count requests = length (filter (\<lambda>r. ar_status r = ''denied'') requests)"

definition pii_upgrades :: "ai_request_record list \<Rightarrow> nat" where
  "pii_upgrades requests = length (filter (\<lambda>r.
     case ar_resolved_sensitivity r of None \<Rightarrow> False | Some s \<Rightarrow> ar_sensitivity r \<noteq> s) requests)"

text \<open>The service types of the requests, by the outer join with the services.\<close>

definition routed_types :: "ai_request_record list \<Rightarrow> ai_service list \<Rightarrow> string list" where
  "routed_types requests services =
     concat (map (\<lambda>r. List.map_filter (\<lambda>s. if sv_service_id s = ar_service_id r then sv_service_type s else None)
       services) requests)"

text \<open>The loop over the groups: cloud, edge and all traffic.\<close>

fun routing_totals :: "(string \<times> int) list \<Rightarrow> int \<times> int \<times> int \<Rightarrow> int \<times> int \<times> int" where
  "routing_totals [] acc = acc"
| "routing_totals ((service_type, cnt) # rows) (cloud_traffic, edge_traffic, total_routed) =
     routing_totals rows
       (if service_type = ''cloud'' then (cloud_traffic + cnt, edge_traffic, total_routed + cnt)
        else (cloud_traffic, edge_traffic + cnt, total_routed + cnt))"

definition traffic_share :: "int \<Rightarrow> int \<Rightarrow> rat" where
  "traffic_share part total_routed =
     (if 0 < total_routed then fpercent (of_int part) (of_int total_routed) else 0)"

text \<open>\<open>int(x)\<close> of a number.\<close>

definition int_of_num :: "rat \<Rightarrow> int" where
  "int_of_num x = (if 0 \<le> x then floor x else - floor (- x))"

definition avg_latency_ms :: "sql_functions \<Rightarrow> ai_request_record list \<Rightarrow> int" where
  "avg_latency_ms sql requests =
     (let latencies = List.map_filter (\<lambda>r. if ar_status r = ''completed''
            then map_option (\<lambda>c. sq_epoch sql c - sq_epoch sql (ar_started_at r)) (ar_completed_at r) else None) requests
      in if latencies = [] \<or> sq_avg sql latencies = 0 then 0 else int_of_num (sq_avg sql latencies * 1000))"

definition top_consumer :: "sql_functions \<Rightarrow> usage_token_log list \<Rightarrow> string" where
  "top_consumer sql usage =
     (case sq_order_desc sql (group_sum ut_tenant_id ut_total_tokens (filter (sq_recent_usage sql) usage)) of
        [] \<Rightarrow> ''No traffic'' | (t, _) # _ \<Rightarrow> t)"

definition projected_cost :: "sql_functions \<Rightarrow> usage_token_log list \<Rightarrow> rat" where
  "projected_cost sql usage =
     (let costs = map ut_cost_estimate (filter (sq_recent_usage sql) usage)
      in if costs = [] then 0 else sq_sum sql costs)"

record dashboard =
  db_total_requests :: nat
  db_success_rate :: rat
  db_top_intent :: string
  db_blocked :: nat
  db_pii_upgrades :: nat
  db_prompt_injections :: nat
  db_cloud_percentage :: rat
  db_edge_percentage :: rat
  db_denied_pre_proxy :: nat
  db_backend_latency_ms :: int
  db_top_consumer :: string
  db_projected_cost :: rat

definition get_dashboard_metrics :: "sql_functions \<Rightarrow> ai_request_record list \<Rightarrow> ai_service list \<Rightarrow> usage_token_log list
    \<Rightarrow> dashboard" where
  "get_dashboard_metrics sql requests services usage =
     (let recent = filter (sq_recent_request sql) requests;
          successes = length (filter (\<lambda>r. ar_status r = ''completed'') recent);
          (cloud_traffic, edge_traffic, total_routed) =
            routing_totals (group_sum (\<lambda>t. t) (\<lambda>_. 1) (routed_types requests services)) (0, 0, 0)
      in \<lparr>db_total_requests = length recent,
          db_success_rate = round1 (success_rate successes (length recent)),
          db_top_intent = top_intent sql requests,
          db_blocked = blocked_count requests, db_pii_upgrades = pii_upgrades requests, db_prompt_injections = 0,
          db_cloud_percentage = round1 (traffic_share cloud_traffic total_routed),
          db_edge_percentage = round1 (traffic_share edge_traffic total_routed),
          db_denied_pre_proxy = blocked_count requests,
          db_backend_latency_ms = avg_latency_ms sql requests,
          db_top_consumer = top_consumer sql usage,
          db_projected_cost = projected_cost sql usage\<rparr>)"

section \<open>Groups\<close>

lemma sum_list_once: "distinct xs \<Longrightarrow> (\<Sum>k \<leftarrow> xs. if k = a then (b :: int) else 0) = (if a \<in> set xs then b else 0)"
  by (induction xs) auto

lemma sum_group: "sum_list (map snd (group_sum key w rows)) = sum_list (map w rows)"
proof -
  define f where "f = (\<lambda>xs k. sum_list (map w (filter (\<lambda>r. key r = k) xs)))"
  have "(\<Sum>k \<leftarrow> remdups (map key rows). f rows k) = sum_list (map w rows)"
  proof (induction rows)
    case (Cons r rows)
    define ks where "ks = remdups (map key rows)"
    have add: "f (r # rows) k = (if k = key r then w r else 0) + f rows k" for k by (simp add: f_def)
    have total_ks: "(\<Sum>k \<leftarrow> ks. f (r # rows) k) = (if key r \<in> set ks then w r else 0) + (\<Sum>k \<leftarrow> ks. f rows k)"
      by (simp only: add sum_list_addf) (simp add: sum_list_once ks_def)
    show ?case
    proof (cases "key r \<in> set (map key rows)")
      case True
      with total_ks Cons.IH show ?thesis by (simp add: ks_def)
    next
      case False
      then have "\<forall>x \<in> set rows. key x \<noteq> key r" by (metis image_eqI list.set_map)
      then have "filter (\<lambda>x. key x = key r) rows = []" by (simp add: filter_empty_conv)
      then have "f (r # rows) (key r) = w r" by (simp add: f_def)
      moreover have "remdups (map key (r # rows)) = key r # ks" using False by (simp add: ks_def)
      ultimately show ?thesis using total_ks Cons.IH False by (simp add: ks_def)
    qed
  qed (simp add: f_def)
  then show ?thesis by (simp add: group_sum_def comp_def f_def)
qed

lemma routing_totals_eq:
  "routing_totals rows (c, e, t) =
     (c + sum_list (map snd (filter (\<lambda>p. fst p = ''cloud'') rows)),
      e + sum_list (map snd (filter (\<lambda>p. fst p \<noteq> ''cloud'') rows)), t + sum_list (map snd rows))"
proof (induction rows arbitrary: c e t)
  case (Cons p rows)
  obtain ty n where "p = (ty, n)" by (cases p)
  with Cons show ?case by simp
qed simp

text \<open>Cloud and edge traffic share the routed requests between them.\<close>

lemma routing_totals_split:
  assumes "routing_totals (group_sum (\<lambda>t. t) (\<lambda>_. 1) types) (0, 0, 0) = (c, e, t)"
  shows "0 \<le> c \<and> 0 \<le> e \<and> c + e = t \<and> t = int (length types)"
proof -
  let ?g = "group_sum (\<lambda>t. t) (\<lambda>_. 1) types"
  have pos: "0 \<le> sum_list (map snd (filter P ?g))" for P
    by (intro sum_list_nonneg) (auto simp: group_sum_def intro!: sum_list_nonneg)
  have "sum_list (map snd (filter P g)) + sum_list (map snd (filter (\<lambda>p. \<not> P p) g)) = sum_list (map snd g)"
    for P and g :: "(string \<times> int) list"
    by (induction g) auto
  moreover have "sum_list (map snd ?g) = int (length types)" by (simp add: sum_group sum_list_triv)
  ultimately show ?thesis using assms pos by (simp add: routing_totals_eq) (metis add.commute)
qed

section \<open>Properties\<close>

text \<open>The figures are figures: whatever the tables hold, the success rate and both shares of the
  traffic are percentages, cloud and edge traffic together are the requests with a service of a
  known type, so that a share is 100 when the other is none, and without traffic nothing is divided
  by zero: the rate is 100 and the shares are 0.\<close>

theorem dashboard_percentages:
  "(let d = get_dashboard_metrics sql requests services usage;
        types = routed_types requests services
    in list_all (\<lambda>x. 0 \<le> x \<and> x \<le> 100) [db_success_rate d, db_cloud_percentage d, db_edge_percentage d]
       \<and> (db_total_requests d = 0 \<longrightarrow> db_success_rate d = 100)
       \<and> (types = [] \<longrightarrow> db_cloud_percentage d = 0 \<and> db_edge_percentage d = 0)
       \<and> (types \<noteq> [] \<and> set types = {''cloud''} \<longrightarrow> db_cloud_percentage d = 100 \<and> db_edge_percentage d = 0))"
proof -
  let ?types = "routed_types requests services"
  obtain c e t where r: "routing_totals (group_sum (\<lambda>t. t) (\<lambda>_. 1) ?types) (0, 0, 0) = (c, e, t)"
    using prod_cases3 by blast
  note split = routing_totals_split [OF r]
  define recent where "recent = filter (sq_recent_request sql) requests"
  define good where "good = length (filter (\<lambda>r. ar_status r = ''completed'') recent)"
  have d: "db_success_rate (get_dashboard_metrics sql requests services usage) = round1 (success_rate good (length recent))"
    "db_cloud_percentage (get_dashboard_metrics sql requests services usage) = round1 (traffic_share c t)"
    "db_edge_percentage (get_dashboard_metrics sql requests services usage) = round1 (traffic_share e t)"
    "db_total_requests (get_dashboard_metrics sql requests services usage) = length recent"
    by (simp_all add: get_dashboard_metrics_def Let_def r recent_def good_def)
  have share: "0 \<le> traffic_share p t \<and> traffic_share p t \<le> 100" if "0 \<le> p" "p \<le> t" for p
    using that fpercent_bounds [of "of_int p" "of_int t"] by (simp add: traffic_share_def)
  have "good \<le> length recent" by (simp add: good_def)
  then have rate: "0 \<le> success_rate good (length recent) \<and> success_rate good (length recent) \<le> 100"
    using fpercent_bounds [of "of_nat good" "of_nat (length recent)"] by (simp add: success_rate_def)
  have cloud: "c = t \<and> e = 0" if "set ?types = {''cloud''}"
  proof -
    have "filter (\<lambda>p. fst p \<noteq> ''cloud'') (group_sum (\<lambda>t. t) (\<lambda>_. 1) ?types) = []"
      using that by (auto simp: group_sum_def filter_empty_conv)
    with r split show ?thesis by (simp add: routing_totals_eq)
  qed
  have t: "t = 0 \<longleftrightarrow> ?types = []" using split by simp
  have bounds: "list_all (\<lambda>x. 0 \<le> x \<and> x \<le> 100) [round1 (success_rate good (length recent)),
      round1 (traffic_share c t), round1 (traffic_share e t)]"
    using round1_bounds rate share split by simp
  have none: "?types = [] \<longrightarrow> round1 (traffic_share c t) = 0 \<and> round1 (traffic_share e t) = 0"
    using t by (auto simp: traffic_share_def)
  have all: "?types \<noteq> [] \<and> set ?types = {''cloud''} \<longrightarrow> round1 (traffic_share c t) = 100 \<and> round1 (traffic_share e t) = 0"
  proof (intro impI)
    assume a: "?types \<noteq> [] \<and> set ?types = {''cloud''}"
    from a cloud have ce: "c = t" "e = 0" by blast+
    from a split have "0 < t" by (metis length_greater_0_conv of_nat_0_less_iff)
    with ce show "round1 (traffic_share c t) = 100 \<and> round1 (traffic_share e t) = 0"
      by (simp add: traffic_share_def fpercent_full) (simp add: fpercent_def fdiv_def fmul_def)
  qed
  have idle: "length recent = 0 \<longrightarrow> round1 (success_rate good (length recent)) = 100" by (simp add: success_rate_def)
  show ?thesis unfolding Let_def d using bounds none all idle by blast
qed

text \<open>C32. The dashboard is blind to refusals: it counts the requests with the status \<open>denied\<close>, and no
  request ever gets that status, however it ends. As long as the table held none before, the
  number of blocked requests shown is 0 after any request, also one that was refused.\<close>

theorem dashboard_blind_to_refusals:
  assumes "submit_ai_request gw dr pv accept user body w = (w', reply)"
    and "blocked_count (t_ai_requests (w_db w)) = 0"
  shows "db_blocked (get_dashboard_metrics sql (t_ai_requests (w_db w')) services usage) = 0
    \<and> db_denied_pre_proxy (get_dashboard_metrics sql (t_ai_requests (w_db w')) services usage) = 0"
proof -
  have none: "blocked_count rs = 0 \<longleftrightarrow> ''denied'' \<notin> set (map ar_status rs)" for rs
    by (auto simp: blocked_count_def filter_empty_conv image_iff)
  have "statuses_within (w_db w) (w_db w')"
    using submit_own_effects [OF assms(1)] by (simp add: own_effects_def request_touches_def)
  with assms(2) have "blocked_count (t_ai_requests (w_db w')) = 0"
    unfolding none by (auto simp: statuses_within_def list_all_iff request_statuses_def)
  then show ?thesis by (simp add: get_dashboard_metrics_def Let_def split: prod.split)
qed

theorem dashboard_blind_to_refusals_witness:
  "\<forall>sql. db_blocked (get_dashboard_metrics sql (t_ai_requests (w_db (fst (submit_ai_request (sample_gateway strict_scanner)
     sample_draws sample_side [] sample_admin sample_body sample_start)))) [] []) = 0"
proof
  fix sql
  obtain w' reply where r: "submit_ai_request (sample_gateway strict_scanner) sample_draws sample_side [] sample_admin
     sample_body sample_start = (w', reply)" by fastforce
  have "blocked_count (t_ai_requests (w_db sample_start)) = 0"
    by (simp add: blocked_count_def sample_start_def sample_world_def sample_routing_def empty_database_def)
  from dashboard_blind_to_refusals [OF r this, of sql "[]" "[]"] r
  show "db_blocked (get_dashboard_metrics sql (t_ai_requests (w_db (fst (submit_ai_request (sample_gateway strict_scanner)
     sample_draws sample_side [] sample_admin sample_body sample_start)))) [] []) = 0" by simp
qed

end
