(* ===== verification/Operations.thy ===== *)
theory Operations
  imports Actions Py_Num
begin

text \<open>
  Operations of the platform: the health endpoint (src/fastapi\_backend/app/api/health.py) and the
  retention of logs (api/admin/log\_retention.py with the stored procedure of
  src/backend/scripts/log-retention.sql). Parameters: what each probe meets and the time it took, the
  clock, the text of an exception, and the age of a row in days. The sizes of tables come from the
  database as they are.
\<close>

section \<open>Probes\<close>

text \<open>What the guarded part of a probe meets: the text of an exception, or its value.\<close>

type_synonym 'a outcome = "string + 'a"

definition latency_ms :: "rat \<Rightarrow> json" where
  "latency_ms elapsed = JFloat (round1 (fmul elapsed 1000))"

definition down_check :: "rat \<Rightarrow> string \<Rightarrow> (string \<times> json) list" where
  "down_check elapsed e = [(''status'', JStr ''down''), (''latency_ms'', latency_ms elapsed), (''error'', JStr e)]"

definition check_dependency :: "rat \<Rightarrow> unit outcome \<Rightarrow> (string \<times> json) list" where
  "check_dependency elapsed r =
     (case r of
        Inr _ \<Rightarrow> [(''status'', JStr ''up''), (''latency_ms'', latency_ms elapsed)]
      | Inl e \<Rightarrow> down_check elapsed e)"

text \<open>\<open>len(resp.json().get("models", []))\<close>.\<close>

definition loaded_models :: "json \<Rightarrow> nat py" where
  "loaded_models answer =
     bind_py (as_dict answer) (\<lambda>d.
       case dict_get_default d ''models'' (JArr []) of
         JArr xs \<Rightarrow> Inr (length xs) | JObj e \<Rightarrow> Inr (length e) | JStr s \<Rightarrow> Inr (length s) | _ \<Rightarrow> Inl TypeError)"

definition check_ollama :: "(py_exc \<Rightarrow> string) \<Rightarrow> rat \<Rightarrow> json outcome \<Rightarrow> (string \<times> json) list" where
  "check_ollama exc_text elapsed r =
     (case r of
        Inl e \<Rightarrow> down_check elapsed e
      | Inr answer \<Rightarrow>
          (case loaded_models answer of
             Inl x \<Rightarrow> down_check elapsed (exc_text x)
           | Inr n \<Rightarrow> [(''status'', JStr ''up''), (''latency_ms'', latency_ms elapsed), (''loaded_models'', JInt (int n))]))"

text \<open>The model's metadata gives its name.\<close>

definition check_spacy :: "((string \<times> json) list) outcome \<Rightarrow> (string \<times> json) list" where
  "check_spacy r =
     (case r of
        Inl e \<Rightarrow> [(''status'', JStr ''not_loaded''), (''error'', JStr e)]
      | Inr meta \<Rightarrow> [(''status'', JStr ''loaded''), (''model'', dict_get_default meta ''name'' (JStr ''unknown''))])"

section \<open>The health endpoint\<close>

record probes =
  pr_database :: "rat \<times> unit outcome"
  pr_redis :: "rat \<times> unit outcome"
  pr_opa :: "rat \<times> unit outcome"
  pr_ollama :: "rat \<times> json outcome"
  pr_spacy :: "((string \<times> json) list) outcome"

definition uptime_seconds :: "rat option \<Rightarrow> rat \<Rightarrow> json" where
  "uptime_seconds startup_time now =
     (case startup_time of
        None \<Rightarrow> JNull
      | Some t \<Rightarrow> (if t = 0 then JNull else JFloat (round1 (fl (now - t)))))"

definition is_up :: "(string \<times> json) list \<Rightarrow> bool" where
  "is_up c = (dict_get c ''status'' = Some (JStr ''up''))"

definition health_check :: "(py_exc \<Rightarrow> string) \<Rightarrow> rat option \<Rightarrow> rat \<Rightarrow> string \<Rightarrow> probes \<Rightarrow> (string \<times> json) list" where
  "health_check exc_text startup_time now timestamp p =
     (let db_check = check_dependency (fst (pr_database p)) (snd (pr_database p));
          redis_check = check_dependency (fst (pr_redis p)) (snd (pr_redis p));
          opa_check = check_dependency (fst (pr_opa p)) (snd (pr_opa p));
          ollama_check = check_ollama exc_text (fst (pr_ollama p)) (snd (pr_ollama p));
          spacy_check = check_spacy (pr_spacy p);
          all_critical_up = list_all is_up [db_check, redis_check]
      in [(''status'', JStr (if all_critical_up then ''healthy'' else ''degraded'')),
          (''version'', JStr ''1.0.0''), (''uptime_seconds'', uptime_seconds startup_time now),
          (''checks'', JObj [(''database'', JObj db_check), (''redis'', JObj redis_check), (''opa'', JObj opa_check),
             (''ollama'', JObj ollama_check), (''spacy_nlp'', JObj spacy_check)]),
          (''timestamp'', JStr timestamp)])"

section \<open>Retention\<close>

record retention_config =
  usage_days :: int
  requests_days :: int
  tokens_days :: int
  security_days :: int
  policy_days :: int
  audit_days :: int

definition default_retention :: retention_config where
  "default_retention = \<lparr>usage_days = 30, requests_days = 30, tokens_days = 90, security_days = 90,
     policy_days = 60, audit_days = 180\<rparr>"

text \<open>The bounds the schema puts on each member.\<close>

definition retention_ok :: "retention_config \<Rightarrow> bool" where
  "retention_ok c = list_all (\<lambda>d. 1 \<le> d \<and> d \<le> 365)
     [usage_days c, requests_days c, tokens_days c, security_days c, policy_days c, audit_days c]"

definition log_tables :: "retention_config \<Rightarrow> (string \<times> int) list" where
  "log_tables c =
     [(''api_usage_records'', usage_days c), (''ai_requests'', requests_days c), (''usage_token_logs'', tokens_days c),
      (''security_events'', security_days c), (''policy_evaluation_audit_logs'', policy_days c),
      (''permission_audit_logs'', audit_days c), (''intent_mapping_audit_logs'', audit_days c)]"

text \<open>The log tables by name, and the age of a row; a row without its time stamp is never older.\<close>

type_synonym 'r logs = "string \<Rightarrow> 'r list"

definition expired :: "('r \<Rightarrow> rat option) \<Rightarrow> int \<Rightarrow> 'r \<Rightarrow> bool" where
  "expired age days r = (case age r of None \<Rightarrow> False | Some a \<Rightarrow> of_int days < a)"

definition delete_expired :: "('r \<Rightarrow> rat option) \<Rightarrow> int \<Rightarrow> 'r list \<Rightarrow> 'r list" where
  "delete_expired age days rows = filter (\<lambda>r. \<not> expired age days r) rows"

fun cleanup_old_logs :: "('r \<Rightarrow> rat option) \<Rightarrow> (string \<times> int) list \<Rightarrow> 'r logs \<Rightarrow> 'r logs \<times> (string \<times> nat) list" where
  "cleanup_old_logs age [] logs = (logs, [])"
| "cleanup_old_logs age ((table_name, days) # ts) logs =
     (let kept = delete_expired age days (logs table_name);
          (logs', counts) = cleanup_old_logs age ts (logs(table_name := kept))
      in (logs', (table_name, length (logs table_name) - length kept) # counts))"

definition retention_json :: "retention_config \<Rightarrow> json" where
  "retention_json c = JObj
     [(''usage_days'', JInt (usage_days c)), (''requests_days'', JInt (requests_days c)),
      (''tokens_days'', JInt (tokens_days c)), (''security_days'', JInt (security_days c)),
      (''policy_days'', JInt (policy_days c)), (''audit_days'', JInt (audit_days c))]"

record cleanup_reply =
  cl_total_rows_deleted :: nat
  cl_retention_config :: json
  cl_results :: "(string \<times> nat) list"

definition run_cleanup :: "('r \<Rightarrow> rat option) \<Rightarrow> retention_config option \<Rightarrow> 'r logs \<Rightarrow> 'r logs \<times> cleanup_reply" where
  "run_cleanup age config logs =
     (let retention = (case config of None \<Rightarrow> default_retention | Some c \<Rightarrow> c);
          (logs', rows) = cleanup_old_logs age (log_tables retention) logs
      in (logs', \<lparr>cl_total_rows_deleted = sum_list (map snd rows), cl_retention_config = retention_json retention,
                 cl_results = rows\<rparr>))"

section \<open>Sizes\<close>

text \<open>\<open>f"{n:.1f}"\<close>.\<close>

definition fixed1 :: "rat \<Rightarrow> string" where
  "fixed1 n =
     (let tenths = nat (round_half_even (\<bar>n\<bar> * 10))
      in (if n < 0 then ''-'' else []) @ str_nat (tenths div 10) @ ''.'' @ str_nat (tenths mod 10))"

fun pretty_units :: "string list \<Rightarrow> rat \<Rightarrow> string" where
  "pretty_units [] n = fixed1 n @ '' PB''"
| "pretty_units (u # us) n =
     (if \<bar>n\<bar> < 1024 then fixed1 n @ '' '' @ u else pretty_units us (fdiv n 1024))"

definition pretty_bytes :: "int \<Rightarrow> string" where
  "pretty_bytes n = pretty_units [''B'', ''KB'', ''MB'', ''GB'', ''TB''] (of_int n)"

record table_row =
  tr_table_name :: string
  tr_estimated_rows :: int
  tr_total_size :: string
  tr_total_bytes :: int

definition get_table_stats :: "table_row list \<Rightarrow> table_row list \<times> int \<times> string" where
  "get_table_stats rows =
     (let total_bytes = sum_list (map tr_total_bytes rows) in (rows, total_bytes, pretty_bytes total_bytes))"

section \<open>Properties of the health endpoint\<close>

lemma is_up_check: "is_up (check_dependency t r) \<longleftrightarrow> r = Inr ()"
  by (cases r) (simp_all add: check_dependency_def down_check_def is_up_def)

text \<open>Health depends on the two critical dependencies and on nothing else: the endpoint answers
  \<open>healthy\<close> exactly when the database and Redis could be reached, whatever OPA, the language models
  and the clock do, and it always reports all five checks, each with a status.\<close>

theorem health_is_database_and_redis:
  "dict_get (health_check exc_text startup_time now timestamp p) ''status''
     = Some (JStr (if snd (pr_database p) = Inr () \<and> snd (pr_redis p) = Inr () then ''healthy'' else ''degraded''))
   \<and> (\<exists>checks. dict_get (health_check exc_text startup_time now timestamp p) ''checks'' = Some (JObj checks)
        \<and> map fst checks = [''database'', ''redis'', ''opa'', ''ollama'', ''spacy_nlp'']
        \<and> list_all (\<lambda>(n, c). \<exists>s. jobj_get c ''status'' = Some (JStr s)) checks)"
proof -
  have st: "\<exists>s. jobj_get (JObj (check_dependency t r)) ''status'' = Some (JStr s)" for t r
    by (simp add: check_dependency_def down_check_def jobj_get_def split: sum.split)
  have ol: "\<exists>s. jobj_get (JObj (check_ollama exc_text t r)) ''status'' = Some (JStr s)" for t r
    by (simp add: check_ollama_def down_check_def jobj_get_def split: sum.split)
  have sp: "\<exists>s. jobj_get (JObj (check_spacy r)) ''status'' = Some (JStr s)" for r
    by (simp add: check_spacy_def jobj_get_def split: sum.split)
  show ?thesis by (simp add: health_check_def Let_def is_up_check st ol sp)
qed

section \<open>Properties of the retention\<close>

lemma cleanup_tables:
  assumes "distinct (map fst ts)" and "cleanup_old_logs age ts logs = (logs', counts)"
  shows "logs' = (\<lambda>n. case map_of ts n of None \<Rightarrow> logs n | Some d \<Rightarrow> delete_expired age d (logs n))
    \<and> counts = map (\<lambda>(n, d). (n, length (logs n) - length (delete_expired age d (logs n)))) ts"
  using assms
proof (induction ts arbitrary: logs logs' counts)
  case (Cons p ts)
  obtain n d where p: "p = (n, d)" by (cases p)
  define kept where "kept = delete_expired age d (logs n)"
  obtain c where c: "cleanup_old_logs age ts (logs(n := kept)) = (logs', c)"
      "counts = (n, length (logs n) - length kept) # c"
    using Cons.prems(2) by (auto simp: p kept_def Let_def split: prod.splits)
  from Cons.prems(1) have n: "n \<notin> fst ` set ts" by (simp add: p)
  then have "map_of ts n = None" by (simp add: map_of_eq_None_iff)
  moreover have "map (\<lambda>(m, e). (m, length ((logs(n := kept)) m) - length (delete_expired age e ((logs(n := kept)) m)))) ts
      = map (\<lambda>(m, e). (m, length (logs m) - length (delete_expired age e (logs m)))) ts"
    using n by (intro map_cong refl) force
  ultimately show ?case using Cons.IH [OF _ c(1)] Cons.prems(1) c(2)
    by (auto simp: p kept_def fun_eq_iff split: option.splits)
qed simp

lemma log_tables_distinct: "distinct (map fst (log_tables c))"
  by (simp add: log_tables_def)

text \<open>The limits of a run.\<close>

abbreviation limits :: "retention_config option \<Rightarrow> (string \<times> int) list" where
  "limits config \<equiv> log_tables (case config of None \<Rightarrow> default_retention | Some c \<Rightarrow> c)"

lemma run_cleanup_tables:
  assumes "run_cleanup age config logs = (logs', reply)"
  shows "logs' = (\<lambda>n. case map_of (limits config) n of None \<Rightarrow> logs n | Some d \<Rightarrow> delete_expired age d (logs n))"
    and "cl_results reply = map (\<lambda>(n, d). (n, length (logs n) - length (delete_expired age d (logs n)))) (limits config)"
    and "cl_total_rows_deleted reply = sum_list (map snd (cl_results reply))"
proof -
  obtain l c where lc: "cleanup_old_logs age (limits config) logs = (l, c)" by fastforce
  with assms have e: "logs' = l" "cl_results reply = c" "cl_total_rows_deleted reply = sum_list (map snd c)"
    by (auto simp: run_cleanup_def Let_def)
  from cleanup_tables [OF log_tables_distinct lc] e
  show "logs' = (\<lambda>n. case map_of (limits config) n of None \<Rightarrow> logs n | Some d \<Rightarrow> delete_expired age d (logs n))"
    and "cl_results reply = map (\<lambda>(n, d). (n, length (logs n) - length (delete_expired age d (logs n)))) (limits config)"
    and "cl_total_rows_deleted reply = sum_list (map snd (cl_results reply))" by simp_all
qed

lemma log_tables_names: "map fst (log_tables c) = map fst (log_tables default_retention)"
  by (simp add: log_tables_def)

lemma limits_at_least_1:
  assumes "case config of None \<Rightarrow> True | Some c \<Rightarrow> retention_ok c" and "map_of (limits config) n = Some d"
  shows "1 \<le> d"
proof -
  have "retention_ok c \<Longrightarrow> \<forall>d \<in> snd ` set (log_tables c). 1 \<le> d" for c
    by (simp add: retention_ok_def log_tables_def)
  moreover have "retention_ok default_retention" by (simp add: retention_ok_def default_retention_def)
  moreover have "d \<in> snd ` set (limits config)" using map_of_SomeD [OF assms(2)] by force
  ultimately show ?thesis using assms(1) by (auto split: option.splits)
qed

lemma deleted_and_kept:
  "sum_list (map snd (map (\<lambda>(n, d). (n, length (logs n) - length (delete_expired age d (logs n)))) ts))
     + (\<Sum>(n, d) \<leftarrow> ts. length (delete_expired age d (logs n))) = (\<Sum>(n, d) \<leftarrow> ts. length (logs n))"
proof (induction ts)
  case (Cons p ts)
  obtain n d where p: "p = (n, d)" by (cases p)
  have "length (delete_expired age d (logs n)) \<le> length (logs n)" by (simp add: delete_expired_def)
  with Cons show ?case by (simp add: p)
qed simp

text \<open>C38. A cleanup deletes what is too old and nothing else: afterwards each of the seven log tables
  holds its rows that are not older than its limit, in their order, every other table is as before,
  the total reported is the number of rows that are gone, and a second cleanup with the same limits
  finds nothing. With limits the schema accepts no row of the last day is lost.\<close>

theorem cleanup_keeps_the_recent:
  assumes "run_cleanup age config logs = (logs', reply)"
    and "case config of None \<Rightarrow> True | Some c \<Rightarrow> retention_ok c"
  shows "logs' = (\<lambda>n. case map_of (limits config) n of
        None \<Rightarrow> logs n | Some d \<Rightarrow> filter (\<lambda>r. \<not> expired age d r) (logs n))
    \<and> cl_total_rows_deleted reply + (\<Sum>n \<leftarrow> map fst (limits config). length (logs' n))
        = (\<Sum>n \<leftarrow> map fst (limits config). length (logs n))
    \<and> (\<exists>reply'. run_cleanup age config logs' = (logs', reply') \<and> cl_total_rows_deleted reply' = 0)
    \<and> (\<forall>n. list_all (\<lambda>r. r \<in> set (logs' n)) (filter (\<lambda>r. case age r of None \<Rightarrow> True | Some a \<Rightarrow> a \<le> 1) (logs n)))"
    (is "?kept \<and> ?total \<and> ?again \<and> ?recent")
proof (intro conjI)
  note t = run_cleanup_tables [OF assms(1)]
  show l: ?kept
    by (simp only: t(1) delete_expired_def)
  have at: "logs' n = delete_expired age d (logs n)" if "(n, d) \<in> set (limits config)" for n d
    using that log_tables_distinct by (simp add: t(1))
  have "(\<Sum>n \<leftarrow> map fst (limits config). length (logs' n))
      = (\<Sum>(n, d) \<leftarrow> limits config. length (delete_expired age d (logs n)))"
    unfolding map_map comp_def by (rule arg_cong [where f = sum_list], rule map_cong) (auto simp: at)
  with deleted_and_kept [of logs age "limits config"]
  show ?total
    by (simp add: t(2,3) comp_def case_prod_unfold)
  obtain l2 r2 where r2: "run_cleanup age config logs' = (l2, r2)" by fastforce
  note t2 = run_cleanup_tables [OF r2]
  have again: "delete_expired age d (logs' n) = logs' n" if "(n, d) \<in> set (limits config)" for n d
    using that by (simp add: at delete_expired_def)
  have "l2 = logs'"
    unfolding t2(1) using again by (auto simp: fun_eq_iff split: option.split dest: map_of_SomeD)
  moreover have "cl_total_rows_deleted r2 = 0"
    unfolding t2(3) t2(2) using again by (auto intro!: sum_list_0 simp: sum_list_eq_0_iff)
  ultimately show ?again
    using r2 by blast
  have "r \<in> set (logs' n)" if r: "r \<in> set (logs n)" "case age r of None \<Rightarrow> True | Some a \<Rightarrow> a \<le> 1" for r n
  proof (cases "map_of (limits config) n")
    case (Some d)
    from limits_at_least_1 [OF assms(2) Some] have "\<not> expired age d r"
      using r(2) by (auto simp: expired_def not_less split: option.splits)
    with r(1) Some show ?thesis by (simp add: l)
  qed (use r l in simp)
  then show ?recent by (simp add: list_all_iff)
qed

section \<open>Witnesses\<close>

theorem cleanup_keeps_the_recent_witness:
  "\<exists>logs' reply. run_cleanup (\<lambda>r :: rat. Some r) None (\<lambda>n. if n = ''ai_requests'' then [1, 31, 10] else []) = (logs', reply)
     \<and> logs' ''ai_requests'' = [1, 10]"
proof -
  obtain logs' reply where r: "run_cleanup (\<lambda>r :: rat. Some r) None (\<lambda>n. if n = ''ai_requests'' then [1, 31, 10] else [])
     = (logs', reply)" by fastforce
  from cleanup_keeps_the_recent [OF r] r show ?thesis
    by (simp add: log_tables_def default_retention_def expired_def)
qed

end
