(* ===== verification/Evaluation.thy ===== *)
theory Evaluation
  imports Actions Classifier_Service "HOL-Library.Multiset"
begin

text \<open>
  The acceptance scripts of the classifier service (src/intent\_classifier\_service/scripts): the
  accuracy of a running service on a file of examples (evaluate\_accuracy.py), the percentiles and the
  gate of a latency benchmark (benchmark\_latency.py), and the script that runs both
  (run\_slo\_gate.py). Parameters: the lines of the file, \<open>json.loads\<close>, what the service answers to
  a text, and the latencies that were measured. What is printed is left out, but for the figures.
\<close>

section \<open>The examples\<close>

datatype load_error = Value_Error string | Other_Error py_exc

definition eval_row :: "(string \<Rightarrow> string + json) \<Rightarrow> (rat \<Rightarrow> string) \<Rightarrow> nat \<Rightarrow> string \<Rightarrow> load_error + string \<times> string" where
  "eval_row loads fr idx line =
     (case loads line of
        Inl m \<Rightarrow> Inl (Value_Error (''Invalid JSON on line '' @ str_nat idx @ '': '' @ m))
      | Inr payload \<Rightarrow>
          (case payload of
             JObj d \<Rightarrow>
               (let t = strip (json_str fr (dict_get_default d ''text'' (JStr [])));
                    expected = strip (json_str fr (dict_get_default d ''expected_intent'' (JStr [])))
                in if t = [] \<or> expected = []
                   then Inl (Value_Error (''Line '' @ str_nat idx @ '' must include non-empty '' @ [CHR 0x27] @ ''text''
                     @ [CHR 0x27] @ '' and '' @ [CHR 0x27] @ ''expected_intent'' @ [CHR 0x27]))
                   else Inr (t, expected))
           | _ \<Rightarrow> Inl (Other_Error AttributeError)))"

fun load_eval_rows :: "(string \<Rightarrow> string + json) \<Rightarrow> (rat \<Rightarrow> string) \<Rightarrow> nat \<Rightarrow> string list
    \<Rightarrow> load_error + (string \<times> string) list" where
  "load_eval_rows loads fr idx [] = Inr []"
| "load_eval_rows loads fr idx (line # lines) =
     (if strip line = [] then load_eval_rows loads fr (Suc idx) lines
      else case eval_row loads fr idx (strip line) of
          Inl e \<Rightarrow> Inl e
        | Inr row \<Rightarrow>
            (case load_eval_rows loads fr (Suc idx) lines of Inl e \<Rightarrow> Inl e | Inr rows \<Rightarrow> Inr (row # rows)))"

section \<open>Scoring\<close>

record scores =
  sc_correct :: nat
  sc_unclassified :: nat
  sc_tp :: "string \<Rightarrow> nat"
  sc_fp :: "string \<Rightarrow> nat"
  sc_fn :: "string \<Rightarrow> nat"

definition no_scores :: scores where
  "no_scores = \<lparr>sc_correct = 0, sc_unclassified = 0, sc_tp = (\<lambda>_. 0), sc_fp = (\<lambda>_. 0), sc_fn = (\<lambda>_. 0)\<rparr>"

definition known_label :: "string list \<Rightarrow> string \<Rightarrow> string" where
  "known_label labels l = (if l \<in> set labels then l else unclassified_label)"

definition bump :: "(string \<Rightarrow> nat) \<Rightarrow> string \<Rightarrow> string \<Rightarrow> nat" where
  "bump f k = f(k := Suc (f k))"

definition score_row :: "string list \<Rightarrow> string \<Rightarrow> string \<Rightarrow> scores \<Rightarrow> scores" where
  "score_row labels predicted expected s =
     (let pred = known_label labels predicted; gold = known_label labels expected;
          s1 = (if pred = unclassified_label then s\<lparr>sc_unclassified := Suc (sc_unclassified s)\<rparr> else s)
      in if pred = gold then s1\<lparr>sc_correct := Suc (sc_correct s1), sc_tp := bump (sc_tp s1) gold\<rparr>
         else s1\<lparr>sc_fp := bump (sc_fp s1) pred, sc_fn := bump (sc_fn s1) gold\<rparr>)"

text \<open>The prediction read off an answer of the service.\<close>

definition predicted_label :: "(rat \<Rightarrow> string) \<Rightarrow> json \<Rightarrow> string py" where
  "predicted_label fr answer =
     bind_py (as_dict answer) (\<lambda>d. Inr (json_str fr (dict_get_default d ''intent_label'' (JStr unclassified_label))))"

fun score_rows :: "(rat \<Rightarrow> string) \<Rightarrow> (string \<Rightarrow> exn + json) \<Rightarrow> string list \<Rightarrow> (string \<times> string) list \<Rightarrow> scores
    \<Rightarrow> exn + scores" where
  "score_rows fr ask labels [] s = Inr s"
| "score_rows fr ask labels ((t, expected) # rows) s =
     (case ask t of
        Inl e \<Rightarrow> Inl e
      | Inr answer \<Rightarrow>
          (case predicted_label fr answer of
             Inl e \<Rightarrow> Inl (Runtime e)
           | Inr predicted \<Rightarrow> score_rows fr ask labels rows (score_row labels predicted expected s)))"

definition safe_div :: "rat \<Rightarrow> rat \<Rightarrow> rat" where
  "safe_div a b = (if b \<noteq> 0 then fdiv a b else 0)"

definition precision :: "scores \<Rightarrow> string \<Rightarrow> rat" where
  "precision s l = safe_div (of_nat (sc_tp s l)) (of_nat (sc_tp s l + sc_fp s l))"

definition recall :: "scores \<Rightarrow> string \<Rightarrow> rat" where
  "recall s l = safe_div (of_nat (sc_tp s l)) (of_nat (sc_tp s l + sc_fn s l))"

definition f1_score :: "scores \<Rightarrow> string \<Rightarrow> rat" where
  "f1_score s l =
     (let p = precision s l; r = recall s l
      in if fadd p r \<noteq> 0 then safe_div (fmul (fmul 2 p) r) (fadd p r) else 0)"

definition accuracy :: "scores \<Rightarrow> nat \<Rightarrow> rat" where
  "accuracy s all_rows = fdiv (of_nat (sc_correct s)) (of_nat all_rows)"

text \<open>\<open>_run\<close>: the exit code and, when the examples were scored, the figures.\<close>

definition run_evaluation :: "(string \<Rightarrow> string + json) \<Rightarrow> (rat \<Rightarrow> string) \<Rightarrow> string list option \<Rightarrow> string list
    \<Rightarrow> bool \<Rightarrow> (string \<Rightarrow> exn + json) \<Rightarrow> rat \<Rightarrow> exn + int \<times> scores option" where
  "run_evaluation loads fr eval_file cands healthy ask accuracy_threshold =
     (case eval_file of
        None \<Rightarrow> Inr (2, None)
      | Some lines \<Rightarrow>
          (let labels = cands @ [unclassified_label] in
           case load_eval_rows loads fr 1 lines of
             Inl (Value_Error _) \<Rightarrow> Inr (2, None)
           | Inl (Other_Error e) \<Rightarrow> Inl (Runtime e)
           | Inr rows \<Rightarrow>
               (if rows = [] \<or> \<not> healthy then Inr (2, None)
                else case score_rows fr ask labels rows no_scores of
                    Inl e \<Rightarrow> Inl e
                  | Inr s \<Rightarrow> Inr (if accuracy s (length rows) < accuracy_threshold then 1 else 0, Some s))))"

section \<open>Latencies\<close>

definition percentile :: "rat list \<Rightarrow> int \<Rightarrow> rat" where
  "percentile sorted_ms p =
     (if sorted_ms = [] then 0
      else let k = fdiv (of_int ((int (length sorted_ms) - 1) * p)) 100;
               f = nat (floor k);
               c = min (f + 1) (length sorted_ms - 1)
           in if f = c then sorted_ms ! f
              else fadd (sorted_ms ! f) (fmul (fl (sorted_ms ! c - sorted_ms ! f)) (fl (k - of_nat f))))"

text \<open>The gate: the model path when it was measured, else the path of cache hits.\<close>

definition latency_gate :: "rat \<Rightarrow> rat list \<Rightarrow> rat list option \<Rightarrow> int" where
  "latency_gate max_p95_ms cache_hits model_path =
     (let gate_to_check = (case model_path of Some ls \<Rightarrow> ls | None \<Rightarrow> cache_hits)
      in if max_p95_ms < percentile (sort gate_to_check) 95 then 1 else 0)"

section \<open>Both gates\<close>

text \<open>A command line as \<open>argparse\<close> reads it, option by option: it exits with 2 when an option is no
  prefix of one it knows.\<close>

definition accuracy_options :: "string list" where
  "accuracy_options = [''--help'', ''--service-url'', ''--eval-file'', ''--taxonomy'', ''--accuracy-threshold'']"

definition parses :: "string list \<Rightarrow> (string \<times> string) list \<Rightarrow> bool" where
  "parses options args = list_all (\<lambda>(opt, _). list_ex (starts_with opt) options) args"

definition evaluate_main :: "((string \<times> string) list \<Rightarrow> int) \<Rightarrow> (string \<times> string) list \<Rightarrow> int" where
  "evaluate_main run args = (if parses accuracy_options args then run args else 2)"

definition run_slo_gate :: "((string \<times> string) list \<Rightarrow> int) \<Rightarrow> ((string \<times> string) list \<Rightarrow> int) \<Rightarrow> string \<Rightarrow> string
    \<Rightarrow> string \<Rightarrow> string \<Rightarrow> string \<Rightarrow> bool \<Rightarrow> int" where
  "run_slo_gate run_accuracy run_latency taxonomy_path test_set classifier_url min_accuracy max_p95 skip_latency =
     (let r1 = evaluate_main run_accuracy
            [(''--taxonomy'', taxonomy_path), (''--test-set'', test_set), (''--min-accuracy'', min_accuracy)]
      in if r1 \<noteq> 0 then r1
         else if skip_latency then 0
         else run_latency [(''--url'', classifier_url), (''--max-p95-ms'', max_p95)])"

section \<open>Properties of the scores\<close>

text \<open>What each counter counts.\<close>

fun predictions :: "(rat \<Rightarrow> string) \<Rightarrow> (string \<Rightarrow> exn + json) \<Rightarrow> string list \<Rightarrow> (string \<times> string) list
    \<Rightarrow> (string \<times> string) list" where
  "predictions fr ask labels [] = []"
| "predictions fr ask labels ((t, expected) # rows) =
     (case ask t of Inr answer \<Rightarrow> (case predicted_label fr answer of
          Inr l \<Rightarrow> [(known_label labels l, known_label labels expected)] | _ \<Rightarrow> []) | _ \<Rightarrow> [])
     @ predictions fr ask labels rows"

lemma score_rows_counts:
  assumes "score_rows fr ask labels rows s = Inr s'"
  shows "length (predictions fr ask labels rows) = length rows
    \<and> sc_correct s' = sc_correct s + length (filter (\<lambda>x. fst x = snd x) (predictions fr ask labels rows))
    \<and> sc_unclassified s' = sc_unclassified s + length (filter (\<lambda>x. fst x = unclassified_label) (predictions fr ask labels rows))
    \<and> sc_tp s' l = sc_tp s l + length (filter (\<lambda>x. fst x = l \<and> fst x = snd x) (predictions fr ask labels rows))
    \<and> sc_fp s' l = sc_fp s l + length (filter (\<lambda>x. fst x = l \<and> fst x \<noteq> snd x) (predictions fr ask labels rows))
    \<and> sc_fn s' l = sc_fn s l + length (filter (\<lambda>x. snd x = l \<and> fst x \<noteq> snd x) (predictions fr ask labels rows))"
  using assms
proof (induction rows arbitrary: s)
  case (Cons row rows)
  obtain t expected where row: "row = (t, expected)" by (cases row)
  from Cons.prems obtain answer x where a: "ask t = Inr answer" "predicted_label fr answer = Inr x"
    "score_rows fr ask labels rows (score_row labels x expected s) = Inr s'"
    by (auto simp: row split: sum.splits)
  from Cons.IH [OF a(3)] show ?case
    by (simp add: row a(1,2) score_row_def Let_def bump_def)
qed simp

lemma predictions_known:
  "unclassified_label \<in> set labels \<Longrightarrow> (p, g) \<in> set (predictions fr ask labels rows) \<Longrightarrow> p \<in> set labels \<and> g \<in> set labels"
  by (induction fr ask labels rows rule: predictions.induct) (auto simp: known_label_def split: sum.splits if_splits)

lemma sum_list_one_hot: "distinct ls \<Longrightarrow> (\<Sum>l \<leftarrow> ls. if a = l then (1 :: nat) else 0) = (if a \<in> set ls then 1 else 0)"
  by (induction ls) auto

lemma sum_over_labels:
  assumes "distinct ls" and "\<And>x. x \<in> set xs \<Longrightarrow> f x \<in> set ls"
  shows "(\<Sum>l \<leftarrow> ls. length (filter (\<lambda>x. f x = l \<and> P x) xs)) = length (filter P xs)"
  using assms(2)
proof (induction xs)
  case (Cons x xs)
  have "(\<Sum>l \<leftarrow> ls. length (filter (\<lambda>x. f x = l \<and> P x) (x # xs)))
      = (\<Sum>l \<leftarrow> ls. (if P x then (if f x = l then 1 else 0) else 0) + length (filter (\<lambda>x. f x = l \<and> P x) xs))"
    by (intro arg_cong [where f = sum_list] map_cong) auto
  also have "\<dots> = (\<Sum>l \<leftarrow> ls. if P x then (if f x = l then 1 else 0) else 0) + length (filter P xs)"
    using Cons by (simp add: sum_list_addf)
  also have "(\<Sum>l \<leftarrow> ls. if P x then (if f x = l then 1 else 0) else 0) = (if P x then 1 else (0 :: nat))"
    using sum_list_one_hot [OF assms(1), of "f x"] Cons.prems [of x] by simp
  finally show ?case by simp
qed simp

lemma share_bounds: "0 \<le> safe_div (of_nat a) (of_nat (a + b)) \<and> safe_div (of_nat a) (of_nat (a + b)) \<le> 1"
  using fl_mono [of "of_nat a / of_nat (a + b)" 1] by (auto simp: safe_div_def fdiv_def divide_le_eq_1)

text \<open>The figures of an evaluation add up: a run that scores its examples scored every one of them
  once; the wrong answers counted for the labels predicted are those counted for the labels
  expected, together with the right ones they are all examples, precision and recall of every label
  are between 0 and 1, and the exit code is 0 exactly when the accuracy reaches the threshold.\<close>

theorem evaluation_adds_up:
  assumes "run_evaluation loads fr (Some lines) cands healthy ask threshold = Inr (code, Some s)"
  shows "\<exists>rows. load_eval_rows loads fr 1 lines = Inr rows \<and> rows \<noteq> []
    \<and> (let labels = remdups (cands @ [unclassified_label]) in
        (\<Sum>l \<leftarrow> labels. sc_tp s l) = sc_correct s
        \<and> sc_correct s + (\<Sum>l \<leftarrow> labels. sc_fp s l) = length rows
        \<and> (\<Sum>l \<leftarrow> labels. sc_fp s l) = (\<Sum>l \<leftarrow> labels. sc_fn s l))
    \<and> (code = 0 \<longleftrightarrow> threshold \<le> accuracy s (length rows)) \<and> code \<in> {0, 1}
    \<and> (\<forall>l. 0 \<le> precision s l \<and> precision s l \<le> 1 \<and> 0 \<le> recall s l \<and> recall s l \<le> 1)"
proof -
  let ?labels = "cands @ [unclassified_label]"
  from assms obtain rows where r: "load_eval_rows loads fr 1 lines = Inr rows" "rows \<noteq> []"
    "score_rows fr ask ?labels rows no_scores = Inr s" "code = (if accuracy s (length rows) < threshold then 1 else 0)"
    by (auto simp: run_evaluation_def Let_def split: sum.splits load_error.splits if_splits)
  define ps where "ps = predictions fr ask ?labels rows"
  note c = score_rows_counts [OF r(3), folded ps_def, unfolded no_scores_def, simplified]
  have k: "fst x \<in> set (remdups ?labels) \<and> snd x \<in> set (remdups ?labels)" if "x \<in> set ps" for x
    using that predictions_known [of ?labels "fst x" "snd x" fr ask rows] by (simp add: ps_def)
  have d: "distinct (remdups ?labels)" by simp
  have counts: "length ps = length rows" "sc_correct s = length (filter (\<lambda>x. fst x = snd x) ps)"
    "sc_tp s = (\<lambda>l. length (filter (\<lambda>x. fst x = l \<and> fst x = snd x) ps))"
    "sc_fp s = (\<lambda>l. length (filter (\<lambda>x. fst x = l \<and> fst x \<noteq> snd x) ps))"
    "sc_fn s = (\<lambda>l. length (filter (\<lambda>x. snd x = l \<and> fst x \<noteq> snd x) ps))"
    using c by (simp_all add: fun_eq_iff)
  have sums: "(\<Sum>l \<leftarrow> remdups ?labels. sc_tp s l) = sc_correct s"
    "(\<Sum>l \<leftarrow> remdups ?labels. sc_fp s l) = length (filter (\<lambda>x. fst x \<noteq> snd x) ps)"
    "(\<Sum>l \<leftarrow> remdups ?labels. sc_fn s l) = length (filter (\<lambda>x. fst x \<noteq> snd x) ps)"
    unfolding counts using k by (simp_all only: sum_over_labels [OF d])
  have "sc_correct s + length (filter (\<lambda>x. fst x \<noteq> snd x) ps) = length rows"
    unfolding counts(2) counts(1) [symmetric] by (rule sum_length_filter_compl)
  with sums have "(let labels = remdups ?labels in (\<Sum>l \<leftarrow> labels. sc_tp s l) = sc_correct s
        \<and> sc_correct s + (\<Sum>l \<leftarrow> labels. sc_fp s l) = length rows
        \<and> (\<Sum>l \<leftarrow> labels. sc_fp s l) = (\<Sum>l \<leftarrow> labels. sc_fn s l))" by (simp only: Let_def)
  moreover have "(code = 0 \<longleftrightarrow> threshold \<le> accuracy s (length rows)) \<and> code \<in> {0, 1}" using r(4) by auto
  ultimately show ?thesis using r(1,2) share_bounds unfolding precision_def recall_def by blast
qed

section \<open>Properties of the gates\<close>

lemma sorted_count:
  assumes "sorted xs" and "i < length xs" and "xs ! i \<le> m"
  shows "Suc i \<le> length (filter (\<lambda>x. x \<le> m) xs)"
proof -
  have "list_all (\<lambda>x. x \<le> m) (take (Suc i) xs)"
    using assms(2,3) order_trans [OF sorted_nth_mono [OF assms(1) _ assms(2)] assms(3)]
    by (auto simp: list_all_iff in_set_conv_nth less_Suc_eq_le)
  then have "filter (\<lambda>x. x \<le> m) (take (Suc i) xs) = take (Suc i) xs" by (simp add: list_all_iff filter_id_conv)
  then have "Suc i \<le> length (filter (\<lambda>x. x \<le> m) (take (Suc i) xs))" using assms(2) by simp
  also have "\<dots> \<le> length (filter (\<lambda>x. x \<le> m) (take (Suc i) xs @ drop (Suc i) xs))"
    unfolding filter_append length_append by simp
  finally show ?thesis by (simp only: append_take_drop_id)
qed

lemma length_filter_sort: "length (filter P (sort xs)) = length (filter P xs)"
  by (metis mset_filter mset_sort size_mset)

lemma percentile_ge:
  assumes "sorted xs" and "xs \<noteq> []" and "list_all is_double xs" and "0 \<le> p" and "p \<le> 100"
    and "length xs \<le> 2 ^ 53"
  shows "\<exists>i < length xs. nat ((int (length xs) - 1) * p div 100) \<le> i \<and> xs ! i \<le> percentile xs p"
proof -
  define n where "n = length xs - 1"
  define a where "a = int n * p"
  define k where "k = fdiv (of_int a) 100"
  define i where "i = nat (floor k)"
  define c where "c = min (i + 1) n"
  have n: "int (length xs) - 1 = int n" "n < length xs" using assms(2) by (cases xs; simp add: n_def)+
  have a: "0 \<le> a" "a \<le> int n * 100" unfolding a_def using assms(4,5) by (simp_all add: mult_left_mono)
  have dbl: "fl (of_nat j) = of_nat j" if "j \<le> n" for j
    using that n(2) assms(6) by (intro is_double_of_nat) simp
  have "(of_int a :: rat) \<le> of_int (int n * 100)" using a(2) by (simp only: of_int_le_iff)
  then have "(of_int a :: rat) / 100 \<le> of_nat n" by simp
  from fl_mono [OF this] have kn: "k \<le> of_nat n" by (simp add: k_def fdiv_def dbl)
  have k0: "0 \<le> k" using a(1) by (simp add: k_def fdiv_def)
  define j where "j = nat (a div 100)"
  have j: "int j = a div 100" using a(1) by (simp add: j_def)
  have "int j * 100 \<le> a" unfolding j by simp
  then have "(of_int (int j * 100) :: rat) \<le> of_int a" by (simp only: of_int_le_iff)
  then have "(of_nat j :: rat) \<le> of_int a / 100" by simp
  moreover have "j \<le> n" using a(2) j by linarith
  ultimately have "of_nat j \<le> k" using fl_mono [of "of_nat j" "of_int a / 100"] by (simp add: k_def fdiv_def dbl)
  then have "int j \<le> floor k" by (simp add: le_floor_iff)
  then have ji: "j \<le> i" by (simp add: i_def)
  have "floor k \<le> int n" using kn by (simp add: floor_le_iff)
  then have i: "i \<le> n" by (simp add: i_def)
  have "of_nat i \<le> k" using k0 by (simp add: i_def)
  have p: "percentile xs p = (if i = c then xs ! i
      else fadd (xs ! i) (fmul (fl (xs ! c - xs ! i)) (fl (k - of_nat i))))"
    using assms(2) by (simp add: percentile_def Let_def n(1) a_def k_def i_def c_def n_def)
  have "xs ! i \<le> percentile xs p"
  proof (cases "i = c")
    case False
    then have "i \<le> c" "c < length xs" using i n(2) by (auto simp: c_def)
    with assms(1) have "0 \<le> fl (xs ! c - xs ! i)" by (simp add: sorted_nth_mono)
    with \<open>of_nat i \<le> k\<close> have "0 \<le> fmul (fl (xs ! c - xs ! i)) (fl (k - of_nat i))" by (simp add: fmul_def)
    moreover have "is_double (xs ! i)" using assms(3) i n(2) by (simp add: list_all_length)
    ultimately show ?thesis using False p fadd_ge_left by simp
  qed (simp add: p)
  with ji i n show ?thesis by (intro exI [of _ i]) (simp add: a_def j_def)
qed

text \<open>What the latency gate guarantees when it passes: of the \<open>n\<close> requests measured on the path it
  checks, at least \<open>(n - 1) * 95 div 100 + 1\<close> took no longer than the limit, in spite of the rounding
  in the interpolated percentile.\<close>

theorem latency_gate_guarantee:
  assumes "latency_gate m cache_hits model_path = 0"
    and "ls = (case model_path of Some xs \<Rightarrow> xs | None \<Rightarrow> cache_hits)"
    and "ls \<noteq> []" and "list_all is_double ls" and "length ls \<le> 2 ^ 53"
  shows "(length ls - 1) * 95 div 100 + 1 \<le> length (filter (\<lambda>x. x \<le> m) ls)"
proof -
  have "percentile (sort ls) 95 \<le> m" using assms(1,2) by (auto simp: latency_gate_def Let_def split: if_splits)
  moreover have "list_all is_double (sort ls)" "sort ls \<noteq> []"
    using assms(3,4) by (simp_all add: list_all_iff flip: length_greater_0_conv)
  ultimately obtain i where i: "i < length ls" "nat ((int (length ls) - 1) * 95 div 100) \<le> i" "sort ls ! i \<le> m"
    using percentile_ge [of "sort ls" 95] assms(5) by auto
  have "(length ls - 1) * 95 div 100 \<le> i"
    using i(2) assms(3) by (cases ls) (simp_all add: nat_le_iff zdiv_int)
  moreover have "Suc i \<le> length (filter (\<lambda>x. x \<le> m) (sort ls))" using i by (intro sorted_count) simp_all
  ultimately show ?thesis by (simp only: length_filter_sort)
qed

text \<open>The gate for roll-outs can never pass: it calls the script for the accuracy with options that the
  script does not know, whatever the classifier does.\<close>

lemma slo_gate_never_passes:
  "run_slo_gate run_accuracy run_latency taxonomy_path test_set url min_acc max_p95 skip = 2"
  by (simp add: run_slo_gate_def evaluate_main_def parses_def accuracy_options_def Let_def)

section \<open>Witnesses\<close>

definition echo_service :: "string \<Rightarrow> exn + json" where
  "echo_service t = Inr (JObj [(''intent_label'', JStr t)])"

definition sample_loads :: "string \<Rightarrow> string + json" where
  "sample_loads line = Inr (JObj [(''text'', JStr line), (''expected_intent'', JStr ''chat'')])"

lemma sample_rows: "load_eval_rows sample_loads (\<lambda>_. []) 1 [''chat'', [], ''code''] = Inr [(''chat'', ''chat''), (''code'', ''chat'')]"
  by (simp add: eval_row_def sample_loads_def dict_get_default_def json_str_def strip_def lstrip_def rstrip_def
      is_space_def cp_def Let_def)

theorem evaluation_adds_up_witness:
  "\<exists>code s. run_evaluation sample_loads (\<lambda>_. []) (Some [''chat'', [], ''code'']) [''chat'', ''code''] True echo_service 1
     = Inr (code, Some s) \<and> sc_correct s = 1 \<and> (code = 0 \<longleftrightarrow> 1 \<le> accuracy s 2)"
proof -
  obtain s where sc: "score_rows (\<lambda>_. []) echo_service ([''chat'', ''code''] @ [unclassified_label])
      [(''chat'', ''chat''), (''code'', ''chat'')] no_scores = Inr s" "sc_correct s = 1"
    by (simp add: echo_service_def predicted_label_def as_dict_def dict_get_default_def json_str_def score_row_def
        known_label_def unclassified_label_def no_scores_def Let_def)
  define code :: int where "code = (if accuracy s 2 < 1 then 1 else 0)"
  have r: "run_evaluation sample_loads (\<lambda>_. []) (Some [''chat'', [], ''code'']) [''chat'', ''code''] True
      echo_service 1 = Inr (code, Some s)"
    unfolding run_evaluation_def sample_rows Let_def option.case sum.case sc(1) by (simp add: code_def numeral_2_eq_2)
  from evaluation_adds_up [OF r] sample_rows have "code = 0 \<longleftrightarrow> 1 \<le> accuracy s 2" by (auto simp: numeral_2_eq_2)
  with r sc(2) show ?thesis by blast
qed

theorem latency_gate_guarantee_witness:
  "latency_gate 3 [1, 2, 3] None = 0 \<and> 2 \<le> length (filter (\<lambda>x. x \<le> 3) [1, 2, 3 :: rat])"
proof -
  have d: "is_double 1" "is_double 2" "is_double 3"
    using is_double_of_nat [of 1] is_double_of_nat [of 2] is_double_of_nat [of 3] by (simp_all add: is_double_def)
  have g: "latency_gate 3 [1, 2, 3] None = 0" by code_simp
  from latency_gate_guarantee [OF g] d have "(3 - 1) * 95 div 100 + 1 \<le> length (filter (\<lambda>x. x \<le> 3) [1, 2, 3 :: rat])" by simp
  with g show ?thesis by simp
qed

end
