(* ===== verification/Session_Scope.thy ===== *)
theory Session_Scope
  imports Pre_Flight
begin

text \<open>
  Two things decide which rows a request sees: the context variables behind the filter on SELECTs
  and the settings that the row-level security policies of PostgreSQL read. Both are set by
  \<open>get_db_with_user\<close> (src/fastapi\_backend/app/infrastructure/db/session.py). The first half of this
  theory models the dependency around a handler: it opens a session, sets settings and variables and
  resets the variables in its \<open>finally\<close> block. The second half models what the policies of
  src/backend/scripts/init-platform-db.sql do to the pre-flight: the settings are local to a
  transaction, and the repository functions commit.
\<close>

section \<open>Sessions\<close>

text \<open>A session of the database: whether its role is exempt from row-level security, the settings of
  the open transaction, and what a setting that is not set reads as (NULL, or the empty text once
  the connection has known it).\<close>

record pg_session =
  bypasses_rls :: bool
  tx_settings :: "string \<rightharpoonup> string"
  pg_unset :: "string option"

definition fresh_session :: "bool \<Rightarrow> string option \<Rightarrow> pg_session" where
  "fresh_session bypass unset = \<lparr>bypasses_rls = bypass, tx_settings = Map.empty, pg_unset = unset\<rparr>"

text \<open>\<open>set_config(name, value, true)\<close>, \<open>current_setting(name, true)\<close> and the end of a transaction.\<close>

definition set_config :: "string \<Rightarrow> string \<Rightarrow> pg_session \<Rightarrow> pg_session" where
  "set_config nm v pg = pg\<lparr>tx_settings := (tx_settings pg)(nm \<mapsto> v)\<rparr>"

definition current_setting :: "string \<Rightarrow> pg_session \<Rightarrow> string option" where
  "current_setting nm pg = (case tx_settings pg nm of None \<Rightarrow> pg_unset pg | Some v \<Rightarrow> Some v)"

definition commit :: "pg_session \<Rightarrow> pg_session" where
  "commit pg = pg\<lparr>tx_settings := Map.empty\<rparr>"

text \<open>The policy \<open>tenant_isolation_policy\<close>, the same on every table that has one; it has no CHECK of
  its own, so it says which rows may be inserted as well.\<close>

definition row_visible :: "pg_session \<Rightarrow> string \<Rightarrow> bool" where
  "row_visible pg row_tenant = (if bypasses_rls pg then True
     else current_setting ''app.is_admin'' pg = Some ''true''
       \<or> current_setting ''app.current_tenant'' pg = Some row_tenant)"

section \<open>The session dependency\<close>

type_synonym ('d, 'a) scoped_handler = "(tenant_scope \<times> pg_session \<times> 'd, 'a) action"

text \<open>The claims are \<open>None\<close> when they are empty. \<open>fault\<close> is what the two statements raise, if they do.\<close>

definition user_settings :: "user_claims \<Rightarrow> pg_session \<Rightarrow> pg_session" where
  "user_settings u pg =
     set_config ''app.is_admin'' (if ''admin'' \<in> set (claim_roles u) then ''true'' else ''false'')
       (set_config ''app.current_tenant'' (the (current_tenant_id (scope_of_user u))) pg)"

definition get_db_with_user :: "pg_session \<Rightarrow> exn option \<Rightarrow> user_claims option
    \<Rightarrow> ('d, 'a) scoped_handler \<Rightarrow> (tenant_scope \<times> 'd, 'a) action" where
  "get_db_with_user pg fault claims handler st =
     (case st of (sc, d) \<Rightarrow>
        (case claims of
           None \<Rightarrow> (case handler (sc, pg, d) of ((sc', _, d'), r) \<Rightarrow> ((sc', d'), r))
         | Some u \<Rightarrow>
             (case fault of
                Some e \<Rightarrow> ((sc, d), Inl e)
              | None \<Rightarrow>
                  (let tenant_token = current_tenant_id sc; admin_token = current_is_admin sc;
                       inside = sc\<lparr>current_tenant_id := current_tenant_id (scope_of_user u),
                         current_is_admin := current_is_admin (scope_of_user u)\<rparr>
                   in (case handler (inside, user_settings u pg, d) of ((sc', _, d'), r) \<Rightarrow>
                         ((sc'\<lparr>current_is_admin := admin_token, current_tenant_id := tenant_token\<rparr>, d'), r))))))"

text \<open>A context that serves one request after the other; the results are kept in order.\<close>

type_synonym ('d, 'a) served = "pg_session \<times> exn option \<times> user_claims option \<times> ('d, 'a) scoped_handler"

fun serve :: "('d, 'a) served list \<Rightarrow> tenant_scope \<times> 'd \<Rightarrow> (tenant_scope \<times> 'd) \<times> (exn + 'a) list" where
  "serve [] st = (st, [])"
| "serve ((pg, fault, claims, handler) # rs) st =
     (case get_db_with_user pg fault claims handler st of (st1, r) \<Rightarrow>
        (case serve rs st1 of (st2, out) \<Rightarrow> (st2, r # out)))"

text \<open>The reference: every request has its own variables, made from its own claims.\<close>

definition alone :: "tenant_scope \<Rightarrow> ('d, 'a) served \<Rightarrow> 'd \<Rightarrow> 'd \<times> (exn + 'a)" where
  "alone sc req d = (case req of (pg, fault, claims, handler) \<Rightarrow>
     (case (claims, fault) of
        (Some u, Some e) \<Rightarrow> (d, Inl e)
      | (Some u, None) \<Rightarrow> (case handler (scope_of_user u, user_settings u pg, d) of ((_, _, d'), r) \<Rightarrow> (d', r))
      | (None, _) \<Rightarrow> (case handler (sc, pg, d) of ((_, _, d'), r) \<Rightarrow> (d', r))))"

fun serve_alone :: "tenant_scope \<Rightarrow> ('d, 'a) served list \<Rightarrow> 'd \<Rightarrow> 'd \<times> (exn + 'a) list" where
  "serve_alone sc [] d = (d, [])"
| "serve_alone sc (req # rs) d =
     (case alone sc req d of (d1, r) \<Rightarrow> (case serve_alone sc rs d1 of (d2, out) \<Rightarrow> (d2, r # out)))"

text \<open>A request without claims leaves the variables to its handler.\<close>

definition keeps_scope :: "('d, 'a) served \<Rightarrow> bool" where
  "keeps_scope req = (case req of (pg, fault, claims, handler) \<Rightarrow>
     claims = None \<longrightarrow> (\<forall>sc pg' d. fst (fst (handler (sc, pg', d))) = sc))"

lemma one_request:
  fixes req :: "('d, 'a) served"
  assumes "keeps_scope req"
  shows "(case req of (pg, fault, claims, handler) \<Rightarrow> get_db_with_user pg fault claims handler (sc, d))
    = ((sc, fst (alone sc req d)), snd (alone sc req d))"
proof -
  obtain pg fault claims handler where r: "req = (pg, fault, claims, handler)" by (cases req)
  show ?thesis
  proof (cases claims)
    case None
    with assms have "fst (fst (handler (sc, pg, d))) = sc" by (simp add: keeps_scope_def r)
    with None show ?thesis by (auto simp: r get_db_with_user_def alone_def split: prod.splits)
  next
    case (Some u)
    then show ?thesis
      by (cases sc) (auto simp: r get_db_with_user_def alone_def scope_of_user_def Let_def split: prod.splits option.splits)
  qed
qed

lemma serve_is_alone:
  "list_all keeps_scope rs \<Longrightarrow> serve rs (sc, d) = ((sc, fst (serve_alone sc rs d)), snd (serve_alone sc rs d))"
proof (induction rs arbitrary: d)
  case Nil
  then show ?case by simp
next
  case (Cons req rs)
  obtain pg fault claims handler where r: "req = (pg, fault, claims, handler)" by (cases req)
  from Cons.prems have k: "keeps_scope req" and ks: "list_all keeps_scope rs" by simp_all
  from one_request [OF k, of sc d] Cons.IH [OF ks] show ?case by (simp add: r split: prod.splits)
qed

text \<open>C9. No scope leaks from one request into another: a worker that serves requests one after the other,
  each with the session dependency, gives every handler exactly the tenant and the role of its own
  claims, gives the results and the data that requests with variables of their own would give, and
  ends with the variables it started with, whatever the handlers do to them and whether or not they
  or the statements raise.\<close>

theorem scopes_do_not_leak:
  fixes rs :: "('d, 'a) served list"
  assumes "list_all keeps_scope rs"
  shows "serve rs (sc, d) = ((sc, fst (serve_alone sc rs d)), snd (serve_alone sc rs d))"
  by (rule serve_is_alone [OF assms])

section \<open>Row-level security\<close>

lemma row_visible_bypass [simp]: "bypasses_rls pg \<Longrightarrow> row_visible pg t"
  by (simp add: row_visible_def)

lemma commit_bypass [simp]: "bypasses_rls (commit pg) = bypasses_rls pg"
  by (simp add: commit_def)

text \<open>Before its first commit a session of \<open>get_db_with_user\<close> sees what the filter of the
  variables lets through.\<close>

lemma first_transaction_agrees:
  assumes "\<not> bypasses_rls pg" and "current_tenant_id (scope_of_user u) \<noteq> Some []"
  shows "row_visible (user_settings u pg) t = tenant_visible (scope_of_user u) t"
  using assms
  by (auto simp: row_visible_def user_settings_def tenant_visible_def set_config_def current_setting_def
      scope_of_user_def split: claim.splits)

text \<open>After a commit nothing of the settings is left.\<close>

definition unset_is_blank :: "pg_session \<Rightarrow> bool" where
  "unset_is_blank pg = (pg_unset pg = None \<or> pg_unset pg = Some [])"

lemma after_commit:
  "\<not> bypasses_rls pg \<Longrightarrow> unset_is_blank pg \<Longrightarrow> t \<noteq> [] \<Longrightarrow> \<not> row_visible (commit pg) t"
  by (auto simp: row_visible_def commit_def current_setting_def unset_is_blank_def)

type_synonym 'a pg_action = "(pg_session \<times> database, 'a) action"

text \<open>What the server answers to an insert that the policy refuses.\<close>

definition rls_violation :: exn where
  "rls_violation = Runtime (RuntimeError ''new row violates row-level security policy'')"

text \<open>Stages that touch no table with a policy.\<close>

definition unsecured :: "'a db_action \<Rightarrow> 'a pg_action" where
  "unsecured m st = (case st of (pg, db) \<Rightarrow> (case m db of (db', r) \<Rightarrow> ((pg, db'), r)))"

text \<open>The permission check: the SELECT sees the visible rows, the audit row is inserted and the
  function commits.\<close>

definition visible_permissions :: "pg_session \<Rightarrow> database \<Rightarrow> database" where
  "visible_permissions pg db = db\<lparr>t_permissions := filter (\<lambda>p. row_visible pg (tp_tenant_id p)) (t_permissions db)\<rparr>"

definition secured_permission :: "tenant_scope \<Rightarrow> string \<Rightarrow> string \<Rightarrow> string \<Rightarrow> unit pg_action" where
  "secured_permission sc tenant service_id intent_nm st =
     (case st of (pg, db) \<Rightarrow>
        (if \<not> row_visible pg tenant then ((pg, db), Inl rls_violation)
         else (case check_permission sc tenant service_id intent_nm (visible_permissions pg db) of
           (db', r) \<Rightarrow> ((commit pg, db'\<lparr>t_permissions := t_permissions db\<rparr>), r))))"

definition secured_persist :: "draws \<Rightarrow> string \<Rightarrow> string \<Rightarrow> string \<Rightarrow> ai_request_schema \<Rightarrow> unit pg_action" where
  "secured_persist dr tenant intent_nm service_id body st =
     (case st of (pg, db) \<Rightarrow>
        (if \<not> row_visible pg tenant
         then ((pg, db), Inl (Domain (ProviderError ''Failed to persist request record'')))
         else (case persist_record dr tenant intent_nm service_id body db of (db', r) \<Rightarrow> ((commit pg, db'), r))))"

text \<open>An UPDATE changes the visible rows.\<close>

definition secured_update :: "pg_session \<Rightarrow> string \<Rightarrow> (ai_request_record \<Rightarrow> ai_request_record) \<Rightarrow> database \<Rightarrow> database" where
  "secured_update pg rid f =
     update_requests rid (\<lambda>r. if row_visible pg (ar_tenant_id r) then f r else r)"

definition secured_inspect :: "'s gateway \<Rightarrow> draws \<Rightarrow> ai_request_schema
    \<Rightarrow> (sensitivity_level \<times> string list \<times> nat) pg_action" where
  "secured_inspect gw dr body st =
     (case st of (pg, db) \<Rightarrow>
        (case inspect_content (gw_nlp gw) (gw_allowed_intents gw) body of
           Inl e \<Rightarrow> ((pg, db), Inl (Runtime e))
         | Inr (lvl, types, count) \<Rightarrow>
             ((commit pg, secured_update pg (dr_request_id dr)
                 (\<lambda>r. r\<lparr>ar_resolved_sensitivity := Some (sensitivity_value lvl)\<rparr>) db), Inr (lvl, types, count))))"

text \<open>The writes in sessions of their own, which set \<open>app.is_admin\<close> first and commit once.\<close>

definition admin_session :: "pg_session \<Rightarrow> pg_session" where
  "admin_session pg = set_config ''app.is_admin'' ''true'' (fresh_session (bypasses_rls pg) (pg_unset pg))"

definition secured_event :: "pg_session \<Rightarrow> string \<Rightarrow> string \<Rightarrow> scan_result \<Rightarrow> string \<Rightarrow> database \<Rightarrow> database option" where
  "secured_event pg tenant rid sr decision db =
     (if row_visible pg tenant then Some (injection_event tenant rid sr decision db) else None)"

definition secured_status :: "pg_session \<Rightarrow> string \<Rightarrow> string \<Rightarrow> nat option \<Rightarrow> string option \<Rightarrow> database \<Rightarrow> database" where
  "secured_status pg rid status completed_at error_detail =
     secured_update pg rid (\<lambda>r. r
       \<lparr>ar_status := status,
        ar_completed_at := (case completed_at of None \<Rightarrow> ar_completed_at r | Some t \<Rightarrow> Some t),
        ar_error_detail := (case error_detail of None \<Rightarrow> ar_error_detail r | Some e \<Rightarrow> Some e)\<rparr>)"

definition secured_scan :: "'s gateway \<Rightarrow> draws \<Rightarrow> string \<Rightarrow> (string \<times> string) list list
    \<Rightarrow> nat option \<Rightarrow> string list option \<Rightarrow> unit pg_action" where
  "secured_scan gw dr tenant msgs pii_count types st =
     (case st of (pg, db) \<Rightarrow>
       (let sr = scan_messages (gw_security gw) msgs; rid = dr_request_id dr
        in if is_blocked sr then
             (case secured_event (admin_session pg) tenant rid sr ''blocked'' db of
                None \<Rightarrow> ((pg, db), Inl rls_violation)
              | Some db1 \<Rightarrow>
                  ((pg, secured_status (admin_session pg) rid ''blocked'' (Some (dr_completed_at dr))
                     (Some (''Prompt injection detected: '' @ repr_list (matched_patterns sr))) db1),
                   Inl (Domain (SecurityViolationError (prompt_hash sr) (matched_patterns sr) (total_score sr)
                     pii_count types))))
           else if matched_patterns sr \<noteq> [] then
             (case secured_event (admin_session pg) tenant rid sr ''allowed'' db of
                None \<Rightarrow> ((pg, db), Inl rls_violation) | Some db1 \<Rightarrow> ((pg, db1), Inr ()))
           else ((pg, db), Inr ())))"

text \<open>The audit rows of the policies are in a table without a policy; each is committed.\<close>

definition secured_policies :: "'s gateway \<Rightarrow> draws \<Rightarrow> string \<Rightarrow> ai_service
    \<Rightarrow> sensitivity_level \<times> string list \<times> nat \<Rightarrow> unit pg_action" where
  "secured_policies gw dr tenant service found st =
     (case st of (pg, db) \<Rightarrow>
        (case apply_policies gw dr tenant service found db of (db', r) \<Rightarrow>
           ((if t_policy_audit db' = t_policy_audit db then pg else commit pg, db'), r)))"

definition secured_checks :: "'s gateway \<Rightarrow> draws \<Rightarrow> user_claims \<Rightarrow> ai_request_schema \<Rightarrow> 's
    \<Rightarrow> string \<Rightarrow> intent_decision \<Rightarrow> string \<Rightarrow> pre_flight_result pg_action" where
  "secured_checks gw dr user body store tenant decision service_id =
     then_act (secured_permission (scope_of_user user) tenant service_id (id_name decision)) (\<lambda>_.
     then_act (unsecured (require_quota gw (dr_check_day dr) tenant store)) (\<lambda>_.
     then_act (unsecured (find_service service_id)) (\<lambda>service.
     then_act (secured_persist dr tenant (id_name decision) service_id body) (\<lambda>_.
     then_act (secured_inspect gw dr body) (\<lambda>found.
     then_act (secured_policies gw dr tenant service found) (\<lambda>_.
     then_act (secured_scan gw dr tenant (outbound_messages body)
       (Some (snd (snd found))) (Some (fst (snd found)))) (\<lambda>_.
     return_act \<lparr>pf_request_id = dr_request_id dr, pf_tenant_id = tenant, pf_provided_intent = intent body,
       pf_intent = decision, pf_resolved_service_id = service_id, pf_service = service,
       pf_final_sensitivity = fst found, pf_detected_pii_types = fst (snd found),
       pf_pii_count = snd (snd found), pf_messages = outbound_messages body\<rparr>)))))))"

text \<open>The pre-flight on the session that \<open>get_db_with_user\<close> hands to the endpoint.\<close>

definition secured_pre_flight :: "'s gateway \<Rightarrow> draws \<Rightarrow> user_claims \<Rightarrow> ai_request_schema \<Rightarrow> 's
    \<Rightarrow> pre_flight_result pg_action" where
  "secured_pre_flight gw dr user body store st =
     (case st of (pg, db) \<Rightarrow>
       (let tenant = tenant_or_default user; session = user_settings user pg
        in if tenant = [] then raise_act (Domain TenantIdMissingError) (session, db)
           else case classify_intent gw tenant body of
               Inl e \<Rightarrow> raise_act (Runtime e) (session, db)
             | Inr decision \<Rightarrow>
                 (case resolve_intent (gw_intents gw) (id_name decision) of
                    Inl e \<Rightarrow> raise_act (Domain e) (session, db)
                  | Inr service_id \<Rightarrow>
                      secured_checks gw dr user body store tenant decision service_id (session, db))))"

section \<open>An exempt role\<close>

text \<open>A secured stage behaves like a plain one on the sessions that \<open>P\<close> describes.\<close>

definition behaves_as :: "(pg_session \<Rightarrow> bool) \<Rightarrow> 'a pg_action \<Rightarrow> 'a db_action \<Rightarrow> bool" where
  "behaves_as P m m' = (\<forall>pg db. P pg \<longrightarrow> P (fst (fst (m (pg, db)))) \<and> m' db = (snd (fst (m (pg, db))), snd (m (pg, db))))"

named_theorems as_plain "secured stages that behave like the plain ones"

lemma as_plain_then:
  assumes "behaves_as P m m'" and "\<And>x. behaves_as P (k x) (k' x)"
  shows "behaves_as P (then_act m k) (then_act m' k')"
  unfolding behaves_as_def
proof (intro allI impI)
  fix pg db assume p: "P pg"
  obtain pg1 db1 r where m: "m (pg, db) = ((pg1, db1), r)" by (metis prod.collapse)
  with assms(1) [unfolded behaves_as_def, rule_format, OF p, of db] have "P pg1" and "m' db = (db1, r)" by simp_all
  with assms(2) m show "P (fst (fst (then_act m k (pg, db))))
      \<and> then_act m' k' db = (snd (fst (then_act m k (pg, db))), snd (then_act m k (pg, db)))"
    by (cases r) (auto simp: then_act_def behaves_as_def)
qed

lemma as_plain_return [as_plain]: "behaves_as P (return_act x) (return_act x)"
  by (simp add: behaves_as_def return_act_def)

lemma as_plain_unsecured [as_plain]: "behaves_as P (unsecured m) m"
  by (simp add: behaves_as_def unsecured_def split: prod.splits)

text \<open>The writes in sessions of their own pass under every role.\<close>

lemma admin_session_sees_all: "row_visible (admin_session pg) t"
  by (simp add: row_visible_def admin_session_def set_config_def current_setting_def fresh_session_def)

lemma secured_scan_plain: "secured_scan gw dr t ms n tys = unsecured (run_prompt_security_scan gw dr t ms n tys)"
  by (auto simp: fun_eq_iff secured_scan_def unsecured_def run_prompt_security_scan_def secured_event_def
      secured_status_def secured_update_def update_ai_request_status_def admin_session_sees_all Let_def)

lemma as_plain_permission [as_plain]:
  "behaves_as bypasses_rls (secured_permission sc t s i) (check_permission sc t s i)"
  by (auto simp: behaves_as_def secured_permission_def visible_permissions_def check_permission_def
      check_tenant_service_permission_and_audit_def Let_def split: prod.splits)

lemma as_plain_persist [as_plain]:
  "behaves_as bypasses_rls (secured_persist dr t i s body) (persist_record dr t i s body)"
  by (auto simp: behaves_as_def secured_persist_def split: prod.splits)

lemma as_plain_inspect [as_plain]: "behaves_as bypasses_rls (secured_inspect gw dr body) (inspect_request gw dr body)"
  by (auto simp: behaves_as_def secured_inspect_def inspect_request_def secured_update_def
      update_resolved_sensitivity_def split: prod.splits sum.splits)

lemma as_plain_policies [as_plain]:
  "behaves_as bypasses_rls (secured_policies gw dr t sv found) (apply_policies gw dr t sv found)"
  by (auto simp: behaves_as_def secured_policies_def split: prod.splits)

lemma as_plain_checks:
  "behaves_as bypasses_rls (secured_checks gw dr user body store t d s) (run_checks gw dr user body store t d s)"
  unfolding secured_checks_def run_checks_def secured_scan_plain by (intro as_plain_then as_plain)

lemma exempt_pre_flight:
  assumes "bypasses_rls pg"
  shows "run_pre_flight gw dr user body store db
    = (snd (fst (secured_pre_flight gw dr user body store (pg, db))), snd (secured_pre_flight gw dr user body store (pg, db)))"
proof -
  from assms have "bypasses_rls (user_settings user pg)" by (simp add: user_settings_def set_config_def)
  from as_plain_checks [unfolded behaves_as_def, rule_format, OF this]
  have "run_checks gw dr user body store t d s db
      = (snd (fst (secured_checks gw dr user body store t d s (user_settings user pg, db))),
         snd (secured_checks gw dr user body store t d s (user_settings user pg, db)))" for t d s by (rule conjunct2)
  then show ?thesis
    by (simp add: run_pre_flight_def secured_pre_flight_def raise_act_def Let_def split: sum.split)
qed


section \<open>A role the policies apply to\<close>

text \<open>The permission check agrees with the plain one in the first transaction, and ends it.\<close>

lemma secured_permission_first:
  assumes "row_visible pg t"
  shows "secured_permission sc t s i (pg, db)
    = ((commit pg, fst (check_permission sc t s i db)), snd (check_permission sc t s i db))"
proof -
  have "find (\<lambda>p. tp_tenant_id p = t \<and> tp_service_id p = s \<and> tenant_visible sc (tp_tenant_id p))
        (filter (\<lambda>p. row_visible pg (tp_tenant_id p)) (t_permissions db))
      = find (\<lambda>p. tp_tenant_id p = t \<and> tp_service_id p = s \<and> tenant_visible sc (tp_tenant_id p)) (t_permissions db)"
    unfolding find_filter using assms by (intro find_cong_set) auto
  then show ?thesis
    using assms by (simp add: secured_permission_def visible_permissions_def check_permission_def
        check_tenant_service_permission_and_audit_def Let_def split: prod.split)
qed

lemma secured_checks_refused:
  assumes role: "\<not> bypasses_rls pg" "unset_is_blank pg" and first: "row_visible pg t" and t: "t \<noteq> []"
    and passed: "run_checks gw dr user body store t decision sid db = (db', Inr pf)"
  shows "\<exists>pg' db''. secured_checks gw dr user body store t decision sid (pg, db)
      = ((pg', db''), Inl (Domain (ProviderError ''Failed to persist request record'')))
    \<and> t_ai_requests db'' = t_ai_requests db"
  using passed
proof (rule run_checks_Inr)
  fix db1 service and x :: unit
  assume h: "check_permission (scope_of_user user) t sid (id_name decision) db = (db1, Inr x)"
    "check_quota (gw_quota gw) (gw_redis gw) (dr_check_day dr) t store = Inr True"
    "get_ai_service_by_id sid db1 = Some service"
  have p: "secured_permission (scope_of_user user) t sid (id_name decision) (pg, db) = ((commit pg, db1), Inr x)"
    using secured_permission_first [OF first] h(1) by simp
  have "secured_persist dr t (id_name decision) sid body (commit pg, db1)
      = ((commit pg, db1), Inl (Domain (ProviderError ''Failed to persist request record'')))"
    using after_commit [OF role t] by (simp add: secured_persist_def)
  then have "secured_checks gw dr user body store t decision sid (pg, db)
      = ((commit pg, db1), Inl (Domain (ProviderError ''Failed to persist request record'')))"
    by (simp add: secured_checks_def then_act_def p unsecured_def require_quota_def h find_service_def)
  with check_permission_Inr [OF h(1)] show ?thesis by blast
qed

lemma user_settings_keep:
  "bypasses_rls (user_settings u pg) = bypasses_rls pg" "pg_unset (user_settings u pg) = pg_unset pg"
  by (simp_all add: user_settings_def set_config_def)

lemma own_rows_visible: "claim_tenant_id u = Claim t \<Longrightarrow> row_visible (user_settings u pg) t"
  by (simp add: row_visible_def user_settings_def set_config_def current_setting_def scope_of_user_def)

text \<open>C10. Under a role that the policies apply to, the gateway serves nobody: a request that passes every
  check of the pre-flight is refused with a provider error and leaves no record, whoever sends it,
  because the settings of \<open>get_db_with_user\<close> last for one transaction and the permission check
  commits it before the record is inserted.\<close>

theorem secured_role_serves_nobody:
  assumes "\<not> bypasses_rls pg" and "unset_is_blank pg" and "claim_tenant_id user = Claim t" and "t \<noteq> []"
    and "run_pre_flight gw dr user body store db = (db', Inr pf)"
  shows "\<exists>pg' db''. secured_pre_flight gw dr user body store (pg, db)
      = ((pg', db''), Inl (Domain (ProviderError ''Failed to persist request record'')))
    \<and> t_ai_requests db'' = t_ai_requests db"
proof -
  have t: "tenant_or_default user = t" using assms(3,4) by (simp add: tenant_or_default_def)
  from assms(5) obtain decision sid where c: "classify_intent gw t body = Inr decision"
    "resolve_intent (gw_intents gw) (id_name decision) = Inr sid"
    "run_checks gw dr user body store t decision sid db = (db', Inr pf)"
    by (auto simp: run_pre_flight_def Let_def raise_act_def t split: if_splits sum.splits)
  from secured_checks_refused [OF _ _ own_rows_visible [OF assms(3)] assms(4) c(3), of pg] assms(1,2)
  have "\<exists>pg' db''. secured_checks gw dr user body store t decision sid (user_settings user pg, db)
      = ((pg', db''), Inl (Domain (ProviderError ''Failed to persist request record'')))
    \<and> t_ai_requests db'' = t_ai_requests db"
    by (simp add: user_settings_keep unset_is_blank_def)
  with c assms(4) show ?thesis by (simp add: secured_pre_flight_def t)
qed

section \<open>Witnesses\<close>

text \<open>Two requests, the second by an administrator; the first handler meddles with the scope and raises.\<close>

definition sample_served :: "(nat, string) served list" where
  "sample_served =
     [(fresh_session False None, None, Some (sample_admin\<lparr>claim_roles := []\<rparr>),
        (\<lambda>(sc, pg, n). ((sc\<lparr>current_is_admin := True\<rparr>, pg, n + 1), Inl (Runtime ValueError)))),
      (fresh_session False None, None, Some sample_admin,
        (\<lambda>(sc, pg, n). ((sc, commit pg, n + 1), Inr (the (current_tenant_id sc)))))]"

theorem scopes_do_not_leak_witness:
  "serve sample_served (\<lparr>current_tenant_id = None, current_is_admin = False\<rparr>, 0)
    = ((\<lparr>current_tenant_id = None, current_is_admin = False\<rparr>, 2), [Inl (Runtime ValueError), Inr ''tenant-a''])"
  by (subst scopes_do_not_leak)
    (simp_all add: sample_served_def keeps_scope_def alone_def sample_admin_def scope_of_user_def)


theorem secured_role_serves_nobody_witness:
  "\<exists>pg' db''. secured_pre_flight (sample_gateway quiet_scanner) sample_draws sample_admin sample_body Map.empty
      (fresh_session False None, sample_world)
    = ((pg', db''), Inl (Domain (ProviderError ''Failed to persist request record'')))
   \<and> t_ai_requests db'' = t_ai_requests sample_world"
proof -
  from sample_passes obtain db' pf where p: "run_pre_flight (sample_gateway quiet_scanner) sample_draws sample_admin
      sample_body Map.empty sample_world = (db', Inr pf)" by blast
  show ?thesis
    by (rule secured_role_serves_nobody [where t = "''tenant-a''", OF _ _ _ _ p])
      (simp_all add: fresh_session_def unset_is_blank_def sample_admin_def)
qed

end
