(* ===== verification/Validation.thy ===== *)
theory Validation
  imports Database
begin

text \<open>
  Validation of request bodies against the schemas of src/fastapi\_backend/app/schemas. A schema is a
  class of typed fields; the framework reads a body into it by its documented rules: every field
  is looked up, a missing one takes its default or is a flaw, members without a field are ignored or,
  with \<open>extra="forbid"\<close>, flaws, and all flaws are collected with the place of each. A validator
  is a function from JSON to flaws or a value; a pair of a validator and the JSON of its values that
  it reads back is a \<open>codec\<close>. What the framework takes for a truth value or a number besides
  the JSON ones is a parameter.
\<close>

datatype loc = Key string | Index nat

datatype flaw = Missing_Field | Extra_Forbidden | Wrong_Type | No_Member

type_synonym 'a valid = "(loc list \<times> flaw) list + 'a"

section \<open>Combining validators\<close>

definition flawed :: "flaw \<Rightarrow> 'a valid" where
  "flawed f = Inl [([], f)]"

definition at_loc :: "loc \<Rightarrow> 'a valid \<Rightarrow> 'a valid" where
  "at_loc l r = (case r of Inl es \<Rightarrow> Inl (map (\<lambda>(p, f). (l # p, f)) es) | Inr x \<Rightarrow> Inr x)"

definition map_valid :: "('a \<Rightarrow> 'b) \<Rightarrow> 'a valid \<Rightarrow> 'b valid" where
  "map_valid f r = (case r of Inl es \<Rightarrow> Inl es | Inr x \<Rightarrow> Inr (f x))"

definition both :: "'a valid \<Rightarrow> 'b valid \<Rightarrow> ('a \<times> 'b) valid" where
  "both a b = (case a of
       Inl es \<Rightarrow> Inl (es @ (case b of Inl fs \<Rightarrow> fs | Inr _ \<Rightarrow> []))
     | Inr x \<Rightarrow> (case b of Inl fs \<Rightarrow> Inl fs | Inr y \<Rightarrow> Inr (x, y)))"

definition required :: "(json \<Rightarrow> 'a valid) \<Rightarrow> (string \<times> json) list \<Rightarrow> string \<Rightarrow> 'a valid" where
  "required dec d k = at_loc (Key k) (case dict_get d k of None \<Rightarrow> flawed Missing_Field | Some v \<Rightarrow> dec v)"

definition defaulted :: "'a \<Rightarrow> (json \<Rightarrow> 'a valid) \<Rightarrow> (string \<times> json) list \<Rightarrow> string \<Rightarrow> 'a valid" where
  "defaulted x dec d k = at_loc (Key k) (case dict_get d k of None \<Rightarrow> Inr x | Some v \<Rightarrow> dec v)"

definition forbid_extra :: "string list \<Rightarrow> (string \<times> json) list \<Rightarrow> unit valid" where
  "forbid_extra known d =
     (case filter (\<lambda>k. k \<notin> set known) (map fst d) of
        [] \<Rightarrow> Inr () | ks \<Rightarrow> Inl (map (\<lambda>k. ([Key k], Extra_Forbidden)) ks))"

definition as_object :: "((string \<times> json) list \<Rightarrow> 'a valid) \<Rightarrow> json \<Rightarrow> 'a valid" where
  "as_object dec v = (case v of JObj d \<Rightarrow> dec d | _ \<Rightarrow> flawed Wrong_Type)"

definition as_str :: "json \<Rightarrow> string valid" where
  "as_str v = (case v of JStr s \<Rightarrow> Inr s | _ \<Rightarrow> flawed Wrong_Type)"

definition as_member :: "(string \<times> 'a) list \<Rightarrow> json \<Rightarrow> 'a valid" where
  "as_member table v = (case v of
       JStr s \<Rightarrow> (case dict_get table s of None \<Rightarrow> flawed No_Member | Some x \<Rightarrow> Inr x)
     | _ \<Rightarrow> flawed No_Member)"

definition as_optional :: "(json \<Rightarrow> 'a valid) \<Rightarrow> json \<Rightarrow> 'a option valid" where
  "as_optional dec v = (case v of JNull \<Rightarrow> Inr None | _ \<Rightarrow> map_valid Some (dec v))"

fun items_from :: "nat \<Rightarrow> (json \<Rightarrow> 'a valid) \<Rightarrow> json list \<Rightarrow> 'a list valid" where
  "items_from n dec [] = Inr []"
| "items_from n dec (v # vs) = map_valid (\<lambda>(x, xs). x # xs) (both (at_loc (Index n) (dec v)) (items_from (Suc n) dec vs))"

definition as_list :: "(json \<Rightarrow> 'a valid) \<Rightarrow> json \<Rightarrow> 'a list valid" where
  "as_list dec v = (case v of JArr vs \<Rightarrow> items_from 0 dec vs | _ \<Rightarrow> flawed Wrong_Type)"

text \<open>A value the framework may convert: \<open>conv\<close> gives the value it makes, if any.\<close>

definition as_converted :: "(json \<Rightarrow> 'a option) \<Rightarrow> json \<Rightarrow> 'a valid" where
  "as_converted conv v = (case conv v of None \<Rightarrow> flawed Wrong_Type | Some x \<Rightarrow> Inr x)"

text \<open>When the combinators succeed.\<close>

named_theorems valid_iff "when a validator succeeds"

lemma flawed_Inr [valid_iff]: "flawed f \<noteq> Inr x" "Inr x \<noteq> flawed f"
  by (simp_all add: flawed_def)

lemma at_loc_Inr [valid_iff]: "at_loc l r = Inr x \<longleftrightarrow> r = Inr x"
  by (simp add: at_loc_def split: sum.split)

lemma map_valid_Inr [valid_iff]: "map_valid f r = Inr y \<longleftrightarrow> (\<exists>x. r = Inr x \<and> y = f x)"
  by (auto simp: map_valid_def split: sum.split)

lemma both_Inr [valid_iff]: "both a b = Inr p \<longleftrightarrow> a = Inr (fst p) \<and> b = Inr (snd p)"
  by (cases p) (auto simp: both_def split: sum.split)

lemma required_Inr [valid_iff]: "required dec d k = Inr x \<longleftrightarrow> (\<exists>v. dict_get d k = Some v \<and> dec v = Inr x)"
  by (auto simp: required_def valid_iff split: option.split)

lemma defaulted_Inr [valid_iff]:
  "defaulted y dec d k = Inr x \<longleftrightarrow> (case dict_get d k of None \<Rightarrow> x = y | Some v \<Rightarrow> dec v = Inr x)"
  by (auto simp: defaulted_def valid_iff split: option.split)

lemma forbid_extra_Inr [valid_iff]: "forbid_extra known d = Inr u \<longleftrightarrow> fst ` set d \<subseteq> set known"
proof -
  have "filter (\<lambda>k. k \<notin> set known) (map fst d) = [] \<longleftrightarrow> fst ` set d \<subseteq> set known"
    by (auto simp: filter_empty_conv)
  then show ?thesis by (cases "filter (\<lambda>k. k \<notin> set known) (map fst d)") (auto simp: forbid_extra_def)
qed

lemma as_object_Inr [valid_iff]: "as_object dec v = Inr x \<longleftrightarrow> (\<exists>d. v = JObj d \<and> dec d = Inr x)"
  by (auto simp: as_object_def valid_iff split: json.split)

lemma as_str_Inr [valid_iff]: "as_str v = Inr s \<longleftrightarrow> v = JStr s"
  by (auto simp: as_str_def valid_iff split: json.split)

lemma as_member_Inr [valid_iff]: "as_member table v = Inr x \<longleftrightarrow> (\<exists>s. v = JStr s \<and> dict_get table s = Some x)"
  by (auto simp: as_member_def valid_iff split: json.split option.split)

lemma as_optional_Inr [valid_iff]:
  "as_optional dec v = Inr x \<longleftrightarrow> (if v = JNull then x = None else (\<exists>y. dec v = Inr y \<and> x = Some y))"
  by (cases v) (auto simp: as_optional_def valid_iff)

lemma items_from_Inr [valid_iff]: "items_from n dec vs = Inr xs \<longleftrightarrow> list_all2 (\<lambda>v x. dec v = Inr x) vs xs"
  by (induction vs arbitrary: n xs) (auto simp: valid_iff list_all2_Cons1)

lemma as_list_Inr [valid_iff]:
  "as_list dec v = Inr xs \<longleftrightarrow> (\<exists>vs. v = JArr vs \<and> list_all2 (\<lambda>v x. dec v = Inr x) vs xs)"
  by (auto simp: as_list_def valid_iff split: json.split)

lemma as_converted_Inr [valid_iff]: "as_converted conv v = Inr x \<longleftrightarrow> conv v = Some x"
  by (simp add: as_converted_def valid_iff split: option.split)

section \<open>The AI request\<close>

definition sensitivities :: "(string \<times> sensitivity_level) list" where
  "sensitivities = map (\<lambda>l. (sensitivity_value l, l)) [LOW, MEDIUM, HIGH]"

definition environments :: "(string \<times> string) list" where
  "environments = [(''dev'', ''dev''), (''prod'', ''prod'')]"

definition read_message :: "json \<Rightarrow> message_schema valid" where
  "read_message = as_object (\<lambda>d. map_valid (\<lambda>((r, c), _). \<lparr>role = r, content = c\<rparr>)
     (both (both (required as_str d ''role'') (required as_str d ''content''))
       (forbid_extra [''role'', ''content''] d)))"

definition read_request_payload :: "json \<Rightarrow> message_schema list valid" where
  "read_request_payload = as_object (\<lambda>d. map_valid fst
     (both (required (as_list read_message) d ''messages'') (forbid_extra [''messages''] d)))"

definition read_metadata :: "json \<Rightarrow> ai_request_metadata valid" where
  "read_metadata = as_object (\<lambda>d. map_valid (\<lambda>((s, e), _). \<lparr>sensitivity = s, environment = e\<rparr>)
     (both (both (defaulted LOW (as_member sensitivities) d ''sensitivity'')
         (defaulted ''dev'' (as_member environments) d ''environment''))
       (forbid_extra [''sensitivity'', ''environment''] d)))"

definition read_request :: "json \<Rightarrow> ai_request_schema valid" where
  "read_request = as_object (\<lambda>d. map_valid (\<lambda>(((i, ms), m), _). \<lparr>intent = i, messages = ms, metadata = m\<rparr>)
     (both (both (both (defaulted ''general_chat'' as_str d ''intent'') (required read_request_payload d ''payload''))
         (required read_metadata d ''metadata''))
       (forbid_extra [''intent'', ''payload'', ''metadata''] d)))"

text \<open>The JSON of a request with every field written out (\<open>model_dump(mode="json")\<close>).\<close>

definition message_json :: "message_schema \<Rightarrow> json" where
  "message_json m = JObj [(''role'', JStr (role m)), (''content'', JStr (content m))]"

definition request_json :: "ai_request_schema \<Rightarrow> json" where
  "request_json r = JObj
     [(''intent'', JStr (intent r)),
      (''payload'', JObj [(''messages'', JArr (map message_json (messages r)))]),
      (''metadata'', JObj [(''sensitivity'', JStr (sensitivity_value (sensitivity (metadata r)))),
         (''environment'', JStr (environment (metadata r)))])]"

text \<open>What a body says, independently of how it is read: the members of an object, which may be left
  out when the field has a default.\<close>

definition members_within :: "(string \<times> json) list \<Rightarrow> string list \<Rightarrow> bool" where
  "members_within d ks = list_all (\<lambda>(k, _). k \<in> set ks) d"

definition says :: "(string \<times> json) list \<Rightarrow> string \<Rightarrow> json option \<Rightarrow> json \<Rightarrow> bool" where
  "says d k default_value v = (case dict_get d k of None \<Rightarrow> default_value = Some v | Some w \<Rightarrow> w = v)"

definition body_says :: "json \<Rightarrow> ai_request_schema \<Rightarrow> bool" where
  "body_says body r =
     (\<exists>d p ms m. body = JObj d \<and> dict_get d ''payload'' = Some (JObj p) \<and> dict_get p ''messages'' = Some (JArr ms)
        \<and> dict_get d ''metadata'' = Some (JObj m)
        \<and> members_within d [''intent'', ''payload'', ''metadata''] \<and> members_within p [''messages'']
        \<and> members_within m [''sensitivity'', ''environment'']
        \<and> says d ''intent'' (Some (JStr ''general_chat'')) (JStr (intent r))
        \<and> list_all2 (\<lambda>v x. \<exists>e. v = JObj e \<and> members_within e [''role'', ''content'']
             \<and> says e ''role'' None (JStr (role x)) \<and> says e ''content'' None (JStr (content x))) ms (messages r)
        \<and> says m ''sensitivity'' (Some (JStr ''LOW'')) (JStr (sensitivity_value (sensitivity (metadata r))))
        \<and> says m ''environment'' (Some (JStr ''dev'')) (JStr (environment (metadata r)))
        \<and> environment (metadata r) \<in> {''dev'', ''prod''})"

lemma members_within_iff: "members_within d ks \<longleftrightarrow> fst ` set d \<subseteq> set ks"
  by (auto simp: members_within_def list_all_iff)

lemma sensitivities_iff: "dict_get sensitivities s = Some l \<longleftrightarrow> s = sensitivity_value l"
  by (cases l) (auto simp: sensitivities_def split: if_splits)

lemma environments_iff: "dict_get environments s = Some e \<longleftrightarrow> s = e \<and> e \<in> {''dev'', ''prod''}"
  by (auto simp: environments_def)

lemma sensitivity_value_inject [simp]: "sensitivity_value a = sensitivity_value b \<longleftrightarrow> a = b"
  by (cases a; cases b) simp_all

lemma read_message_iff:
  "read_message v = Inr x \<longleftrightarrow> (\<exists>e. v = JObj e \<and> members_within e [''role'', ''content'']
     \<and> says e ''role'' None (JStr (role x)) \<and> says e ''content'' None (JStr (content x)))"
  by (cases x) (auto simp: read_message_def valid_iff members_within_iff says_def case_prod_beta split: option.splits)

lemma read_metadata_iff:
  "read_metadata v = Inr x \<longleftrightarrow> (\<exists>m. v = JObj m \<and> members_within m [''sensitivity'', ''environment'']
     \<and> says m ''sensitivity'' (Some (JStr ''LOW'')) (JStr (sensitivity_value (sensitivity x)))
     \<and> says m ''environment'' (Some (JStr ''dev'')) (JStr (environment x)) \<and> environment x \<in> {''dev'', ''prod''})"
proof -
  obtain s e where x: "x = \<lparr>sensitivity = s, environment = e\<rparr>" by (cases x)
  have s: "defaulted LOW (as_member sensitivities) m ''sensitivity'' = Inr s
      \<longleftrightarrow> says m ''sensitivity'' (Some (JStr ''LOW'')) (JStr (sensitivity_value s))" for m
    by (cases s) (auto simp: valid_iff says_def sensitivities_iff split: option.split)
  have e: "defaulted ''dev'' (as_member environments) m ''environment'' = Inr e
      \<longleftrightarrow> says m ''environment'' (Some (JStr ''dev'')) (JStr e) \<and> e \<in> {''dev'', ''prod''}" for m
    by (auto simp: valid_iff says_def environments_iff split: option.split)
  show ?thesis
    unfolding read_metadata_def as_object_Inr map_valid_Inr both_Inr forbid_extra_Inr members_within_iff [symmetric]
    by (auto simp: x case_prod_beta s e)
qed

lemma read_request_payload_iff:
  "read_request_payload v = Inr xs \<longleftrightarrow> (\<exists>p ms. v = JObj p \<and> members_within p [''messages'']
     \<and> dict_get p ''messages'' = Some (JArr ms) \<and> list_all2 (\<lambda>v x. read_message v = Inr x) ms xs)"
  by (auto simp: read_request_payload_def valid_iff members_within_iff)

lemma read_request_iff: "read_request body = Inr r \<longleftrightarrow> body_says body r"
proof -
  obtain i ms m where r: "r = \<lparr>intent = i, messages = ms, metadata = m\<rparr>" by (cases r)
  have i: "defaulted ''general_chat'' as_str d ''intent'' = Inr i
      \<longleftrightarrow> says d ''intent'' (Some (JStr ''general_chat'')) (JStr i)" for d
    by (auto simp: valid_iff says_def split: option.split)
  have "read_request body = Inr r \<longleftrightarrow>
      (\<exists>d pv mv. body = JObj d \<and> members_within d [''intent'', ''payload'', ''metadata'']
         \<and> says d ''intent'' (Some (JStr ''general_chat'')) (JStr i)
         \<and> dict_get d ''payload'' = Some pv \<and> read_request_payload pv = Inr ms
         \<and> dict_get d ''metadata'' = Some mv \<and> read_metadata mv = Inr m)"
    unfolding read_request_def as_object_Inr map_valid_Inr both_Inr forbid_extra_Inr members_within_iff [symmetric]
    by (auto simp: r case_prod_beta i required_Inr)
  also have "\<dots> \<longleftrightarrow> body_says body r"
    unfolding body_says_def read_request_payload_iff read_metadata_iff read_message_iff by (auto simp: r)
  finally show ?thesis .
qed

section \<open>Codecs\<close>

text \<open>A validator and the JSON it reads back: values that are \<open>ok\<close> are read as they are, and only such
  values come out.\<close>

locale codec =
  fixes dec :: "json \<Rightarrow> 'a valid" and enc :: "'a \<Rightarrow> json" and ok :: "'a \<Rightarrow> bool"
  assumes dec_enc: "ok x \<Longrightarrow> dec (enc x) = Inr x"
    and dec_ok: "dec v = Inr x \<Longrightarrow> ok x"
begin

lemma reads_back_iff: "dec (enc x) = Inr x \<longleftrightarrow> ok x"
  using dec_enc dec_ok by blast

text \<open>Reading twice is reading once, and different values have different JSON.\<close>

lemma normal_form: "dec v = Inr x \<Longrightarrow> dec (enc x) = Inr x"
  using dec_enc dec_ok by blast

lemma enc_inject: "ok x \<Longrightarrow> ok y \<Longrightarrow> enc x = enc y \<Longrightarrow> x = y"
  by (metis dec_enc Inr_inject)

lemma list_reads_back: "list_all ok xs \<Longrightarrow> as_list dec (JArr (map enc xs)) = Inr xs"
  by (auto simp: as_list_Inr list_all2_map1 list_all2_same list_all_iff dec_enc)

lemma optional_reads_back: "\<forall>y. x = Some y \<longrightarrow> ok y \<and> enc y \<noteq> JNull \<Longrightarrow>
    as_optional dec (case x of None \<Rightarrow> JNull | Some y \<Rightarrow> enc y) = Inr x"
  by (auto simp: as_optional_Inr dec_enc split: option.split)

end

definition request_ok :: "ai_request_schema \<Rightarrow> bool" where
  "request_ok r = (environment (metadata r) \<in> {''dev'', ''prod''})"

interpretation str: codec as_str JStr "\<lambda>_. True"
  by unfold_locales (simp_all add: as_str_Inr)

interpretation message: codec read_message message_json "\<lambda>_. True"
  by unfold_locales (simp_all add: read_message_iff message_json_def members_within_def says_def)

lemma request_json_read: "request_ok r \<Longrightarrow> read_request (request_json r) = Inr r"
proof -
  have "list_all2 (\<lambda>v x. read_message v = Inr x) (map message_json (messages r)) (messages r)"
    by (simp add: list_all2_map1 list_all2_same message.dec_enc)
  then show "request_ok r \<Longrightarrow> read_request (request_json r) = Inr r"
    unfolding read_request_iff body_says_def request_json_def read_message_iff request_ok_def
    by (simp add: members_within_def says_def)
qed

interpretation request: codec read_request request_json request_ok
  by unfold_locales (simp add: request_json_read, auto simp: read_request_iff body_says_def request_ok_def)

section \<open>Policies\<close>

definition effects :: "(string \<times> policy_effect) list" where
  "effects = map (\<lambda>e. (effect_value e, e)) [ALLOW_ONPREM_ONLY, DENY_CLOUD, ALLOW_ALL, DENY_ALL]"

definition read_condition :: "json \<Rightarrow> policy_condition valid" where
  "read_condition = as_object (\<lambda>d. map_valid (\<lambda>((s, t), _). \<lparr>cond_sensitivity = s, cond_tenant = t\<rparr>)
     (both (both (defaulted None (as_optional (as_member sensitivities)) d ''sensitivity'')
         (defaulted None (as_optional as_str) d ''tenant''))
       (forbid_extra [''sensitivity'', ''tenant''] d)))"

text \<open>The truth values the framework takes are the parameter \<open>to_bool\<close>.\<close>

definition read_policy_create :: "(json \<Rightarrow> bool option) \<Rightarrow> json \<Rightarrow> policy_create valid" where
  "read_policy_create to_bool = as_object (\<lambda>d. map_valid (\<lambda>((((desc, c), e), a), v).
       \<lparr>pc_description = desc, pc_condition = c, pc_effect = e, pc_is_active = a, pc_version = v\<rparr>)
     (both (both (both (both (defaulted None (as_optional as_str) d ''description'')
         (required read_condition d ''condition''))
         (required (as_member effects) d ''effect''))
         (defaulted True (as_converted to_bool) d ''is_active''))
         (defaulted ''1.0.0'' as_str d ''version'')))"

text \<open>A member that may be left out altogether; \<open>Some None\<close> is a null that was sent.\<close>

definition sent :: "(json \<Rightarrow> 'a valid) \<Rightarrow> (string \<times> json) list \<Rightarrow> string \<Rightarrow> 'a option option valid" where
  "sent dec d k = at_loc (Key k)
     (case dict_get d k of None \<Rightarrow> Inr None | Some v \<Rightarrow> map_valid Some (as_optional dec v))"

text \<open>The condition as \<open>model_dump(exclude_unset=True)\<close> gives it: its members that were sent, in the
  order of the fields.\<close>

definition sent_members :: "string list \<Rightarrow> json \<Rightarrow> json" where
  "sent_members ks v = (case v of
       JObj d \<Rightarrow> JObj (List.map_filter (\<lambda>k. map_option (\<lambda>w. (k, w)) (dict_get d k)) ks) | _ \<Rightarrow> v)"

definition sent_condition :: "(string \<times> json) list \<Rightarrow> json option valid" where
  "sent_condition d = map_valid (\<lambda>_. map_option (sent_members [''sensitivity'', ''tenant'']) (dict_get d ''condition''))
     (sent read_condition d ''condition'')"

definition read_policy_update :: "(json \<Rightarrow> bool option) \<Rightarrow> json \<Rightarrow> policy_update valid" where
  "read_policy_update to_bool = as_object (\<lambda>d. map_valid (\<lambda>((((desc, c), e), a), v).
       \<lparr>pu_description = desc, pu_condition = c, pu_effect = e, pu_is_active = a, pu_version = v\<rparr>)
     (both (both (both (both (sent as_str d ''description'')
         (sent_condition d))
         (sent (as_member effects) d ''effect''))
         (sent (as_converted to_bool) d ''is_active''))
         (sent as_str d ''version'')))"

text \<open>The response of a policy endpoint is made from the row by the same rules: \<open>None\<close> when the row
  does not fit the schema.\<close>

definition policy_response :: "governance_policy \<Rightarrow> json option" where
  "policy_response p =
     (case (read_condition (gp_condition p), as_member effects (JStr (gp_effect p))) of
        (Inr c, Inr e) \<Rightarrow> Some (JObj
          [(''id'', JStr (gp_id p)), (''description'', opt_str (gp_description p)),
           (''condition'', condition_json c), (''effect'', JStr (effect_value e)),
           (''is_active'', JBool (gp_is_active p)), (''version'', JStr (gp_version p))])
      | _ \<Rightarrow> None)"

text \<open>The reader of policy rows in the policy service and the schema agree.\<close>

lemma effects_iff: "dict_get effects s = Some e \<longleftrightarrow> parse_effect s = Some e"
  by (simp add: effects_def parse_effect_def)

lemma sensitivities_of: "dict_get sensitivities s = Some l \<longleftrightarrow> sensitivity_of s = Inr l"
  by (simp add: sensitivities_def sensitivity_of_def)

lemma read_condition_iff: "read_condition v = Inr c \<longleftrightarrow> parse_condition v = Some c"
proof -
  obtain s t where c: "c = \<lparr>cond_sensitivity = s, cond_tenant = t\<rparr>" by (cases c)
  have s: "defaulted None (as_optional (as_member sensitivities)) d ''sensitivity'' = Inr s
      \<longleftrightarrow> parse_sensitivity (dict_get d ''sensitivity'') = Some s" for d
    by (cases "dict_get d ''sensitivity''"; cases "the (dict_get d ''sensitivity'')")
      (auto simp: valid_iff parse_sensitivity_def sensitivities_of split: sum.splits)
  have t: "defaulted None (as_optional as_str) d ''tenant'' = Inr t \<longleftrightarrow> parse_opt_str (dict_get d ''tenant'') = Some t" for d
    by (cases "dict_get d ''tenant''"; cases "the (dict_get d ''tenant'')") (auto simp: valid_iff parse_opt_str_def)
  have k: "fst ` set d \<subseteq> set [''sensitivity'', ''tenant''] \<longleftrightarrow> list_all (\<lambda>(k, _). k = ''sensitivity'' \<or> k = ''tenant'') d"
    for d :: "(string \<times> json) list"
    by (auto simp: list_all_iff)
  show ?thesis
    unfolding read_condition_def as_object_Inr map_valid_Inr both_Inr forbid_extra_Inr k
    by (auto simp: c case_prod_beta s t parse_condition_def split: json.split option.split)
qed

section \<open>The envelope of Ollama\<close>

text \<open>\<open>OllamaProviderEnvelope\<close>: a dictionary of any members as the response, one for the usage, and
  the text of the message in it, whatever kind of value the content is.\<close>

record ollama_envelope =
  env_response :: "(string \<times> json) list"
  env_usage :: "(string \<times> json) list"

definition read_envelope :: "json \<Rightarrow> ollama_envelope valid" where
  "read_envelope = as_object (\<lambda>d. map_valid (\<lambda>((r, u), _). \<lparr>env_response = r, env_usage = u\<rparr>)
     (both (both (required (as_object Inr) d ''response'') (defaulted [] (as_object Inr) d ''usage''))
       (forbid_extra [''response'', ''usage''] d)))"

definition envelope_content :: "(rat \<Rightarrow> string) \<Rightarrow> ollama_envelope \<Rightarrow> string" where
  "envelope_content fr env =
     (case dict_get (env_response env) ''message'' of
        Some (JObj msg) \<Rightarrow>
          (let c = dict_get_default msg ''content'' JNull in if truthy c then json_str fr c else [])
      | _ \<Rightarrow> [])"

lemma envelope_text:
  "read_envelope (JObj [(''response'', JObj [(''message'', JObj [(''role'', JStr r), (''content'', JStr s)])])])
     = Inr env \<Longrightarrow> envelope_content fr env = s"
  by (auto simp: read_envelope_def valid_iff envelope_content_def dict_get_default_def json_str_def)

end
