(* ===== verification/Raw_Requests.thy ===== *)
theory Raw_Requests
  imports Validation Policy_Admin Security_Admin AI_Request
begin

text \<open>
  Endpoints as a client meets them: the JSON of the body is read by the schema before the handler runs,
  and a body that does not fit is answered by status 422 without running it; what a policy endpoint
  returns is put through the response schema, which a stored row may fail. The handlers are those of
  AI\_Request, Policy\_Admin and Intent\_Routing.
\<close>

section \<open>Replies\<close>

text \<open>Status 422 with the place of every flaw in the body, an exception, or an answer.\<close>

datatype 'a reply = Unprocessable "(loc list \<times> flaw) list" | Raised exn | Answer 'a

definition unprocessable :: "(loc list \<times> flaw) list \<Rightarrow> 'a reply" where
  "unprocessable es = Unprocessable (map (\<lambda>(p, f). (Key ''body'' # p, f)) es)"

definition response_error :: exn where
  "response_error = Runtime (RuntimeError ''ResponseValidationError'')"

definition respond :: "('a \<Rightarrow> json option) \<Rightarrow> exn + 'a \<Rightarrow> json reply" where
  "respond model r = (case r of Inl e \<Rightarrow> Raised e
     | Inr x \<Rightarrow> (case model x of None \<Rightarrow> Raised response_error | Some j \<Rightarrow> Answer j))"

text \<open>A list is shown when every row fits.\<close>

definition listed :: "('a \<Rightarrow> json option) \<Rightarrow> 'a list \<Rightarrow> json reply" where
  "listed model xs = respond (\<lambda>xs. map_option JArr (those (map model xs))) (Inr xs)"

definition reply_status :: "'a reply \<Rightarrow> nat" where
  "reply_status r = (case r of Unprocessable _ \<Rightarrow> 422 | Raised e \<Rightarrow> client_status e | Answer _ \<Rightarrow> 200)"

section \<open>AI requests\<close>

definition post_ai_request :: "'s gateway \<Rightarrow> draws \<Rightarrow> provider_side \<Rightarrow> string \<Rightarrow> user_claims \<Rightarrow> json \<Rightarrow> 's world
    \<Rightarrow> 's world \<times> api_reply reply" where
  "post_ai_request gw dr pv accept user raw w =
     (case read_request raw of
        Inl es \<Rightarrow> (w, unprocessable es)
      | Inr body \<Rightarrow> (case submit_ai_request gw dr pv accept user body w of (w', r) \<Rightarrow> (w', Answer r)))"

section \<open>Policies\<close>

definition post_policy :: "(json \<Rightarrow> bool option) \<Rightarrow> opa_settings \<Rightarrow> (json \<Rightarrow> http_reply) \<Rightarrow> string \<Rightarrow> string \<Rightarrow> nat
    \<Rightarrow> json \<Rightarrow> database \<Rightarrow> policy_service \<Rightarrow> database \<times> policy_service \<times> json reply" where
  "post_policy to_bool cfg put now new_id created_at raw db ps =
     (case read_policy_create to_bool raw of
        Inl es \<Rightarrow> (db, ps, unprocessable es)
      | Inr payload \<Rightarrow> (case create_governance_policy cfg put now new_id created_at payload db ps of
            (db', ps', r) \<Rightarrow> (db', ps', respond policy_response r)))"

definition put_policy :: "(json \<Rightarrow> bool option) \<Rightarrow> opa_settings \<Rightarrow> (json \<Rightarrow> http_reply) \<Rightarrow> string \<Rightarrow> string
    \<Rightarrow> json \<Rightarrow> database \<Rightarrow> policy_service \<Rightarrow> database \<times> policy_service \<times> json reply" where
  "put_policy to_bool cfg put now i raw db ps =
     (case read_policy_update to_bool raw of
        Inl es \<Rightarrow> (db, ps, unprocessable es)
      | Inr payload \<Rightarrow> (case update_governance_policy cfg put now i payload db ps of
            (db', ps', r) \<Rightarrow> (db', ps', respond policy_response r)))"

definition get_policies :: "database \<Rightarrow> json reply" where
  "get_policies db = listed policy_response (list_governance_policies db)"

section \<open>Mappings, services, patterns\<close>

definition read_mapping_create :: "(json \<Rightarrow> bool option) \<Rightarrow> json \<Rightarrow> mapping_create valid" where
  "read_mapping_create to_bool = as_object (\<lambda>d. map_valid (\<lambda>(((nm, s), v), a).
       \<lparr>mc_intent_name = nm, mc_service_id = s, mc_taxonomy_version = v, mc_is_active = a\<rparr>)
     (both (both (both (required as_str d ''intent_name'') (required as_str d ''service_id''))
         (defaulted ''1.0.0'' as_str d ''taxonomy_version''))
         (defaulted True (as_converted to_bool) d ''is_active'')))"

definition read_mapping_update :: "(json \<Rightarrow> bool option) \<Rightarrow> json \<Rightarrow> mapping_update valid" where
  "read_mapping_update to_bool = as_object (\<lambda>d. map_valid (\<lambda>((s, a), v).
       \<lparr>mu_service_id = s, mu_is_active = a, mu_taxonomy_version = v\<rparr>)
     (both (both (sent as_str d ''service_id'') (sent (as_converted to_bool) d ''is_active''))
         (sent as_str d ''taxonomy_version'')))"

text \<open>The responses; the times of the rows are not part of the tables.\<close>

definition mapping_response :: "intent_routing \<Rightarrow> json option" where
  "mapping_response m = (case ir_is_active m of None \<Rightarrow> None | Some a \<Rightarrow> Some (JObj
     [(''intent_name'', JStr (ir_intent_name m)), (''service_id'', JStr (ir_service_id m)),
      (''taxonomy_version'', JStr (ir_taxonomy_version m)), (''is_active'', JBool a),
      (''id'', JStr (ir_id m)), (''created_by'', JStr (ir_created_by m))]))"

definition service_response :: "ai_service \<Rightarrow> json option" where
  "service_response sv = (case (sv_provider_type sv, sv_service_type sv) of
     (Some p, Some t) \<Rightarrow> Some (JObj
       [(''service_id'', JStr (sv_service_id sv)), (''model_name'', JStr (sv_model_name sv)),
        (''provider_url'', JStr (sv_provider_url sv)), (''provider_type'', JStr p), (''service_type'', JStr t)])
   | _ \<Rightarrow> None)"

definition read_service_update :: "json \<Rightarrow> string valid" where
  "read_service_update = as_object (\<lambda>d. required as_str d ''service_type'')"

definition read_pattern :: "(json \<Rightarrow> rat option) \<Rightarrow> (json \<Rightarrow> bool option) \<Rightarrow> json \<Rightarrow> security_pattern valid" where
  "read_pattern to_float to_bool = as_object (\<lambda>d. map_valid (\<lambda>((((nm, p), w), desc), a).
       \<lparr>sp_name = nm, sp_pattern = p, sp_weight = w, sp_description = desc, sp_is_active = a\<rparr>)
     (both (both (both (both (required as_str d ''name'') (required as_str d ''pattern''))
         (defaulted 1 (as_converted to_float) d ''weight''))
         (defaulted None (as_optional as_str) d ''description''))
         (defaulted True (as_converted to_bool) d ''is_active'')))"

definition pattern_response :: "int \<times> security_pattern \<Rightarrow> json option" where
  "pattern_response p = (case p of (i, sp) \<Rightarrow> Some (JObj
     [(''name'', JStr (sp_name sp)), (''pattern'', JStr (sp_pattern sp)), (''weight'', JFloat (sp_weight sp)),
      (''description'', opt_str (sp_description sp)), (''is_active'', JBool (sp_is_active sp)), (''id'', JInt i)]))"

definition post_mapping :: "(json \<Rightarrow> bool option) \<Rightarrow> string \<Rightarrow> user_claims \<Rightarrow> json \<Rightarrow> database \<Rightarrow> database \<times> json reply" where
  "post_mapping to_bool new_id admin raw db =
     (case read_mapping_create to_bool raw of
        Inl es \<Rightarrow> (db, unprocessable es)
      | Inr payload \<Rightarrow> (case create_mapping_endpoint new_id admin payload db of
            (db', r) \<Rightarrow> (db', respond mapping_response r)))"

definition put_mapping :: "(json \<Rightarrow> bool option) \<Rightarrow> string \<Rightarrow> user_claims \<Rightarrow> json \<Rightarrow> database \<Rightarrow> database \<times> json reply" where
  "put_mapping to_bool i admin raw db =
     (case read_mapping_update to_bool raw of
        Inl es \<Rightarrow> (db, unprocessable es)
      | Inr payload \<Rightarrow> (case update_mapping_endpoint i admin payload db of
            (db', r) \<Rightarrow> (db', respond mapping_response r)))"

definition get_one_mapping :: "string \<Rightarrow> database \<Rightarrow> json reply" where
  "get_one_mapping i db = respond mapping_response (get_mapping_endpoint i db)"

definition get_mappings :: "database \<Rightarrow> json reply" where
  "get_mappings db = listed mapping_response (list_mappings db)"

definition put_service :: "string \<Rightarrow> json \<Rightarrow> database \<Rightarrow> database \<times> json reply" where
  "put_service sid raw db =
     (case read_service_update raw of
        Inl es \<Rightarrow> (db, unprocessable es)
      | Inr ty \<Rightarrow> (case update_service sid ty db of (db', r) \<Rightarrow> (db', respond service_response r)))"

definition get_all_services :: "database \<Rightarrow> json reply" where
  "get_all_services db = listed service_response (get_services db)"

definition post_pattern :: "(json \<Rightarrow> rat option) \<Rightarrow> (json \<Rightarrow> bool option) \<Rightarrow> re_compile
    \<Rightarrow> (security_pattern \<Rightarrow> security_pattern option) \<Rightarrow> string \<Rightarrow> int \<Rightarrow> json \<Rightarrow> database \<Rightarrow> database \<times> json reply" where
  "post_pattern to_float to_bool compile column_values error_text new_id raw db =
     (case read_pattern to_float to_bool raw of
        Inl es \<Rightarrow> (db, unprocessable es)
      | Inr data \<Rightarrow> (case create_pattern compile column_values error_text new_id data db of
            (db', r) \<Rightarrow> (db', respond pattern_response r)))"

definition get_patterns :: "database \<Rightarrow> json reply" where
  "get_patterns db = listed pattern_response (list_patterns db)"

section \<open>Bodies of AI requests\<close>

lemma body_says_unique: "body_says raw r \<Longrightarrow> body_says raw r' \<Longrightarrow> r = r'"
  by (simp add: read_request_iff [symmetric])

text \<open>A request written out in full is posted as itself.\<close>

lemma posted_json:
  "request_ok r \<Longrightarrow> post_ai_request gw dr pv accept user (request_json r) w
    = (fst (submit_ai_request gw dr pv accept user r w), Answer (snd (submit_ai_request gw dr pv accept user r w)))"
  by (cases "submit_ai_request gw dr pv accept user r w") (simp add: post_ai_request_def request.dec_enc)

text \<open>C15. The gateway does what the body says or nothing: a body of the documented shape (an object with
  the members intent, payload and metadata only, at every level no member unknown and none missing
  that has no default, every message a pair of texts, sensitivity and environment among the declared
  values) says exactly one request, and posting it has the effect and the answer of the handler on
  that request; any other body changes nothing, reaches no provider and is answered by status 422.\<close>

theorem posted_body_is_what_it_says:
  "if \<exists>r. body_says raw r
   then \<exists>!r. body_says raw r \<and> post_ai_request gw dr pv accept user raw w
      = (fst (submit_ai_request gw dr pv accept user r w), Answer (snd (submit_ai_request gw dr pv accept user r w)))
   else fst (post_ai_request gw dr pv accept user raw w) = w
      \<and> reply_status (snd (post_ai_request gw dr pv accept user raw w)) = 422"
proof (cases "read_request raw")
  case (Inl es)
  then have "\<nexists>r. body_says raw r" by (simp add: read_request_iff [symmetric])
  with Inl show ?thesis by (simp add: post_ai_request_def unprocessable_def reply_status_def)
next
  case (Inr r)
  then have b: "body_says raw r" by (simp add: read_request_iff)
  have "post_ai_request gw dr pv accept user raw w
      = (fst (submit_ai_request gw dr pv accept user r w), Answer (snd (submit_ai_request gw dr pv accept user r w)))"
    using Inr by (simp add: post_ai_request_def split: prod.split)
  with b have "\<exists>!r. body_says raw r \<and> post_ai_request gw dr pv accept user raw w
      = (fst (submit_ai_request gw dr pv accept user r w), Answer (snd (submit_ai_request gw dr pv accept user r w)))"
    by (intro ex1I [of _ r]) (simp, blast intro: body_says_unique)
  with b show ?thesis by auto
qed

section \<open>Bodies of policies\<close>

text \<open>A policy written out in full is created as it is, and shown as it is.\<close>

definition policy_create_json :: "policy_create \<Rightarrow> json" where
  "policy_create_json p = JObj
     [(''description'', opt_str (pc_description p)), (''condition'', condition_json (pc_condition p)),
      (''effect'', JStr (effect_value (pc_effect p))), (''is_active'', JBool (pc_is_active p)),
      (''version'', JStr (pc_version p))]"

lemma read_condition_json [simp]: "read_condition (condition_json c) = Inr c"
  by (simp add: read_condition_iff)

lemma as_member_effects [simp]: "as_member effects (JStr (effect_value e)) = Inr e"
  by (simp add: as_member_Inr effects_iff)

lemma as_optional_str [simp]: "as_optional as_str (opt_str x) = Inr x"
  by (cases x) (simp_all add: as_optional_Inr as_str_Inr opt_str_def)

lemma read_policy_create_json:
  assumes "\<And>b. to_bool (JBool b) = Some b"
  shows "read_policy_create to_bool (policy_create_json p) = Inr p"
  by (cases p) (simp add: read_policy_create_def as_object_Inr map_valid_Inr both_Inr required_Inr defaulted_Inr
      as_str_Inr as_converted_Inr assms policy_create_json_def case_prod_beta)

interpretation condition: codec read_condition condition_json "\<lambda>_. True"
  by unfold_locales simp_all

section \<open>A null condition\<close>

definition null_condition :: json where
  "null_condition = JObj [(''condition'', JNull)]"

definition null_update :: policy_update where
  "null_update = \<lparr>pu_description = None, pu_condition = Some JNull, pu_effect = None, pu_is_active = None,
     pu_version = None\<rparr>"

lemma read_null_condition: "read_policy_update to_bool null_condition = Inr null_update"
  by (simp add: read_policy_update_def null_condition_def null_update_def as_object_def sent_def sent_condition_def
      as_optional_def both_def map_valid_def at_loc_def sent_members_def)

lemma null_update_simps [simp]: "\<not> is_empty_update null_update" "\<not> nulls_a_column null_update"
  by (simp_all add: is_empty_update_def nulls_a_column_def null_update_def)

lemma null_condition_stored:
  assumes "update_policy i null_update db = Some (db', q)"
  shows "get_policy i db' = q" and "\<forall>p \<in> set (t_policies db'). gp_id p = i \<longrightarrow> gp_condition p = JNull"
proof -
  define D where "D = db\<lparr>t_policies := map (\<lambda>p. if gp_id p = i then apply_policy_update null_update p else p) (t_policies db)\<rparr>"
  have "update_policy i null_update db = Some (D, get_policy i D)"
    by (simp add: update_policy_def D_def Let_def)
  with assms have d: "D = db'" and "get_policy i D = q" by (metis option.inject prod.inject)+
  then show "get_policy i db' = q" unfolding d by (rule conjunct2 [OF conjI])
  show "\<forall>p \<in> set (t_policies db'). gp_id p = i \<longrightarrow> gp_condition p = JNull"
  proof (intro ballI impI)
    fix p assume "p \<in> set (t_policies db')" and i: "gp_id p = i"
    then obtain p0 where "p = (if gp_id p0 = i then apply_policy_update null_update p0 else p0)"
      unfolding d [symmetric] D_def by force
    with i show "gp_condition p = JNull" by (simp add: apply_policy_update_def null_update_def split: if_splits)
  qed
qed

lemma null_condition_unparsed:
  assumes "\<forall>p \<in> set (t_policies db). gp_id p = i \<longrightarrow> gp_condition p = JNull"
  shows "\<forall>q \<in> set (load_policies (list_policies db)). policy_id q \<noteq> i"
proof
  fix q assume "q \<in> set (load_policies (list_policies db))"
  then obtain p where p: "p \<in> set (t_policies db)" "parse_policy p = Some q" by (auto simp: set_load_policies)
  then have "gp_condition p \<noteq> JNull" and "policy_id q = gp_id p"
    by (auto simp: parse_policy_def parse_condition_def split: option.splits)
  with assms p(1) show "policy_id q \<noteq> i" by auto
qed

lemma null_condition_unshown: "gp_condition p = JNull \<Longrightarrow> policy_response p = None"
  by (simp add: policy_response_def read_condition_def as_object_def flawed_def)

lemma broken_row_breaks_list:
  assumes "p \<in> set (t_policies db)" and "policy_response p = None"
  shows "get_policies db = Raised response_error"
proof -
  have "None \<in> set rs \<Longrightarrow> those rs = None" for rs :: "json option list"
    by (induction rs) (auto split: option.split)
  moreover from assms have "None \<in> set (map policy_response (list_policies db))" by force
  ultimately have "those (map policy_response (list_policies db)) = None" by blast
  then show ?thesis by (simp add: get_policies_def listed_def list_governance_policies_def respond_def)
qed

lemma safe_sync_error: "safe_sync cfg put now db ps = (ps', Inl e) \<Longrightarrow> \<exists>d. e = HTTPException 502 d"
  by (auto simp: safe_sync_def sync_from_db_def Let_def split: prod.splits sum.splits if_splits option.splits exn.splits
      domain_error.splits)

text \<open>C16. A null condition disarms a policy and breaks the listing: an administrator who sends
  \<open>{"condition": null}\<close> for a policy is answered by a server error, yet the null is stored, the policy
  is in force nowhere from then on, whatever it denied, and the list of policies fails for everybody
  until the row is repaired.\<close>

theorem null_condition_disarms:
  assumes "get_policy i db \<noteq> None"
    and "put_policy to_bool cfg put now i null_condition db ps = (db', ps', r)"
  shows "500 \<le> reply_status r \<and> (\<forall>q \<in> set (policies ps'). policy_id q \<noteq> i) \<and> reply_status (get_policies db') = 500"
proof -
  have "update_policy i null_update db \<noteq> None"
    by (simp add: update_policy_def Let_def)
  then obtain db1 q1 where u: "update_policy i null_update db = Some (db1, q1)" by auto
  with update_found_policy [OF assms(1) u] obtain q where q: "update_policy i null_update db = Some (db1, Some q)" by auto
  from updated_policies [OF q, of cfg put now ps] obtain ps1 r1 where
    h: "update_governance_policy cfg put now i null_update db ps = (db1, ps1, r1)"
    and c: "policies ps1 = load_policies (list_policies db1)" by blast
  from null_condition_stored [OF q] have g: "get_policy i db1 = Some q"
    and n: "\<forall>p \<in> set (t_policies db1). gp_id p = i \<longrightarrow> gp_condition p = JNull" by simp_all
  from g have "q \<in> set (t_policies db1)" "gp_id q = i" by (auto simp: get_policy_def find_Some_iff)
  with n have b: "policy_response q = None" "get_policies db1 = Raised response_error"
    using null_condition_unshown broken_row_breaks_list by blast+
  have "r1 = Inr q \<or> (\<exists>d. r1 = Inl (HTTPException 502 d))"
    using h q by (auto simp: update_governance_policy_def split: prod.splits sum.splits dest: safe_sync_error)
  with b have "500 \<le> reply_status (respond policy_response r1)"
    by (auto simp: respond_def reply_status_def response_error_def client_status_def)
  moreover have "db' = db1" "ps' = ps1" "r = respond policy_response r1"
    using assms(2) h by (simp_all add: put_policy_def read_null_condition)
  ultimately show ?thesis
    using null_condition_unparsed [OF n] c b
    by (simp add: reply_status_def response_error_def client_status_def)
qed

section \<open>Mappings as they are posted\<close>

text \<open>The member \<open>is_active\<close> of a new mapping is read and then ignored: every mapping is created
  active, also one posted as inactive.\<close>

lemma posted_mapping_is_active:
  assumes "post_mapping to_bool new_id admin raw db = (db', Answer j)"
  shows "jobj_get j ''is_active'' = Some (JBool True)"
  using assms
  by (auto simp: post_mapping_def create_mapping_endpoint_def create_mapping_def create_intent_mapping_def committed_def
      answer_def respond_def mapping_response_def jobj_get_def unprocessable_def Let_def
      split: sum.splits prod.splits option.splits if_splits exn.splits)

text \<open>A null for \<open>is_active\<close> is stored, answered by a server error, and so is every later look at the
  mapping.\<close>

definition null_active :: json where
  "null_active = JObj [(''is_active'', JNull)]"

lemma read_null_active:
  "read_mapping_update to_bool null_active
    = Inr \<lparr>mu_service_id = None, mu_is_active = Some None, mu_taxonomy_version = None\<rparr>"
  by (simp add: read_mapping_update_def null_active_def as_object_def sent_def as_optional_def both_def
      map_valid_def at_loc_def)

lemma null_active_breaks_mapping:
  assumes "get_intent_mapping_by_id i db = Some m" and "service_exists (ir_service_id m) db" and "acting_user admin = Some who"
    and "put_mapping to_bool i admin null_active db = (db', r)"
  shows "r = Raised response_error \<and> get_one_mapping i db' = Raised response_error"
proof -
  define u where "u = \<lparr>mu_service_id = None, mu_is_active = Some None, mu_taxonomy_version = None\<rparr>"
  have a: "apply_update u m = Some (m\<lparr>ir_is_active := None\<rparr>)"
    by (simp add: apply_update_def u_def)
  define db1 where "db1 = fst (update_mapping_endpoint i admin u db)"
  have e: "update_mapping_endpoint i admin u db = (db1, Inr (m\<lparr>ir_is_active := None\<rparr>))"
    using assms(1-3) by (simp add: db1_def update_mapping_endpoint_def update_mapping_def update_intent_mapping_def
        a committed_def answer_def Let_def)
  have rows: "t_intent_routing db1
      = map (\<lambda>x. if ir_id x = ir_id m then m\<lparr>ir_is_active := None\<rparr> else x) (t_intent_routing db)"
    using assms(1-3) by (simp add: db1_def update_mapping_endpoint_def update_mapping_def update_intent_mapping_def
        a committed_def answer_def Let_def replace_mapping_def)
  have id: "ir_id m = i" using assms(1) by (auto simp: get_intent_mapping_by_id_def find_Some_iff)
  have "find (\<lambda>x. ir_id x = i) (map (\<lambda>x. if ir_id x = i then m\<lparr>ir_is_active := None\<rparr> else x) ms)
      = Some (m\<lparr>ir_is_active := None\<rparr>)" if "find (\<lambda>x. ir_id x = i) ms = Some m" for ms
    using that id by (induction ms) (auto split: if_splits)
  with assms(1) rows id have "get_intent_mapping_by_id i db1 = Some (m\<lparr>ir_is_active := None\<rparr>)"
    by (simp add: get_intent_mapping_by_id_def)
  moreover have "db' = db1" "r = Raised response_error"
    using assms(4) e by (simp_all add: put_mapping_def read_null_active u_def [symmetric] respond_def mapping_response_def)
  ultimately show ?thesis
    by (simp add: get_one_mapping_def get_mapping_endpoint_def get_mapping_def answer_def respond_def mapping_response_def)
qed

section \<open>Witnesses\<close>

text \<open>A table with one policy, which denies everything until its condition is nulled.\<close>

definition one_policy :: database where
  "one_policy = empty_database\<lparr>t_policies := [\<lparr>gp_id = ''p1'', gp_description = None,
     gp_condition = condition_json \<lparr>cond_sensitivity = None, cond_tenant = None\<rparr>,
     gp_effect = effect_value DENY_ALL, gp_is_active = True, gp_version = ''1'', gp_created_at = 0\<rparr>]\<rparr>"

theorem null_condition_disarms_witness:
  "\<exists>db' ps' r. put_policy (\<lambda>_. None) embedded_only (\<lambda>_. Transport_Error []) ''now'' ''p1'' null_condition one_policy
      init_policy_service = (db', ps', r) \<and> 500 \<le> reply_status r
    \<and> (\<forall>q \<in> set (policies ps'). policy_id q \<noteq> ''p1'') \<and> reply_status (get_policies db') = 500"
proof -
  obtain db' ps' r where p: "put_policy (\<lambda>_. None) embedded_only (\<lambda>_. Transport_Error []) ''now'' ''p1'' null_condition
      one_policy init_policy_service = (db', ps', r)" using prod_cases3 by blast
  have "get_policy ''p1'' one_policy \<noteq> None" by (simp add: get_policy_def one_policy_def)
  from null_condition_disarms [OF this p] p show ?thesis by blast
qed

text \<open>Before, the same policy was in force.\<close>

lemma one_policy_denies:
  "\<exists>e. evaluate (fst (safe_sync embedded_only (\<lambda>_. Transport_Error []) ''now'' one_policy init_policy_service)) ctx = Inl e"
proof -
  let ?ps = "fst (safe_sync embedded_only (\<lambda>_. Transport_Error []) ''now'' one_policy init_policy_service)"
  have "\<exists>row \<in> set (t_policies one_policy). gp_is_active row \<and> parse_policy row = Some
      \<lparr>policy_id = ''p1'', description = None, condition = \<lparr>cond_sensitivity = None, cond_tenant = None\<rparr>, effect = DENY_ALL\<rparr>"
    by (simp add: one_policy_def parse_policy_def parse_effect_def)
  then have "\<lparr>policy_id = ''p1'', description = None, condition = \<lparr>cond_sensitivity = None, cond_tenant = None\<rparr>,
      effect = DENY_ALL\<rparr> \<in> set (policies ?ps)"
    by (auto simp: safe_sync_policies set_load_policies)
  moreover have "blocks (canonicalize_context ctx) \<lparr>policy_id = ''p1'', description = None,
      condition = \<lparr>cond_sensitivity = None, cond_tenant = None\<rparr>, effect = DENY_ALL\<rparr>"
    by (simp add: blocks_def policy_matches_def should_block_def)
  ultimately show ?thesis unfolding evaluate_def by (intro embedded.denied_by_any) simp_all
qed

end
