(* ===== verification/Taxonomy_Files.thy ===== *)
theory Taxonomy_Files
  imports Validation Intent_Routing Intent_Classification Classifier_Service Lru_Cache
begin

text \<open>
  Where taxonomies come from: the files, the paths that are tried, and the \<open>functools.lru\_cache\<close>
  in front of both loaders (src/fastapi\_backend/app/intent\_classification/contract.py,
  src/intent\_classifier\_service/app/taxonomy.py), and \<open>TaxonomyService.load\<close>
  (src/fastapi\_backend/app/services/taxonomy\_service.py). A file holds the decoded document or the
  exception of decoding it. The locale \<open>memoized\<close> shows that a bounded cache which is asked for few
  enough keys answers like one that never forgets; both loaders interpret it.
\<close>

section \<open>Files\<close>

datatype node = Directory | File "py_exc + json"

type_synonym files = "string \<Rightarrow> node option"

definition is_file :: "files \<Rightarrow> string \<Rightarrow> bool" where
  "is_file fs p = (case fs p of Some (File _) \<Rightarrow> True | _ \<Rightarrow> False)"

text \<open>Opening and decoding; a directory cannot be opened.\<close>

definition read_yaml :: "files \<Rightarrow> string \<Rightarrow> json py" where
  "read_yaml fs p = (case fs p of
     Some (File r) \<Rightarrow> r | Some Directory \<Rightarrow> Inl (RuntimeError ''IsADirectoryError'') | None \<Rightarrow> Inl (FileNotFoundError p))"

section \<open>A memoized function\<close>

text \<open>\<open>functools.lru_cache(maxsize=m)\<close>: what raises is not kept.\<close>

definition lru_call :: "nat \<Rightarrow> ('k \<Rightarrow> 'e + 'v) \<Rightarrow> 'k \<Rightarrow> ('k \<times> 'v) list \<Rightarrow> ('k \<times> 'v) list \<times> ('e + 'v)" where
  "lru_call m f k memo =
     (case lru_get k memo of
        (memo', Some v) \<Rightarrow> (memo', Inr v)
      | (memo', None) \<Rightarrow> (case f k of Inl e \<Rightarrow> (memo', Inl e) | Inr v \<Rightarrow> (lru_set m k v memo', Inr v)))"

text \<open>Calls while the world changes: each with the world it meets.\<close>

fun lru_calls :: "nat \<Rightarrow> ('w \<Rightarrow> 'k \<Rightarrow> 'e + 'v) \<Rightarrow> ('w \<times> 'k) list \<Rightarrow> ('k \<times> 'v) list \<Rightarrow> ('e + 'v) list" where
  "lru_calls m load [] memo = []"
| "lru_calls m load ((w, k) # cs) memo =
     (case lru_call m (load w) k memo of (memo', r) \<Rightarrow> r # lru_calls m load cs memo')"

text \<open>The reference: what was loaded once stays.\<close>

fun once_calls :: "('w \<Rightarrow> 'k \<Rightarrow> 'e + 'v) \<Rightarrow> ('w \<times> 'k) list \<Rightarrow> ('k \<rightharpoonup> 'v) \<Rightarrow> ('e + 'v) list" where
  "once_calls load [] known = []"
| "once_calls load ((w, k) # cs) known =
     (case known k of
        Some v \<Rightarrow> Inr v # once_calls load cs known
      | None \<Rightarrow> (case load w k of
            Inl e \<Rightarrow> Inl e # once_calls load cs known
          | Inr v \<Rightarrow> Inr v # once_calls load cs (known(k \<mapsto> v))))"

lemma lru_set_keeps_all:
  assumes "distinct (map fst d)" and "fst ` set d \<subseteq> K" and "k \<in> K" and "finite K" and "card K \<le> m"
    and "k \<notin> fst ` set d"
  shows "lru_set m k v d = d @ [(k, v)]"
proof -
  have "dict_del d k = d" using assms(6) unfolding dict_del_def by (intro filter_True) force
  moreover have "length d + 1 \<le> m"
  proof -
    have "card (insert k (fst ` set d)) \<le> card K" using assms by (intro card_mono) auto
    moreover have "card (fst ` set d) = length d" using distinct_card [OF assms(1)] by simp
    ultimately show ?thesis using assms(5,6) by simp
  qed
  ultimately show ?thesis by (simp add: lru_set_eq take_last_def)
qed

lemma dict_get_move: "dict_get (move_to_end d k) k' = dict_get d k'"
  by (auto simp: move_to_end_def dict_get_append dict_get_del split: option.split)

lemma set_move: "set (move_to_end d k) \<subseteq> set d"
  by (auto simp: move_to_end_def dict_del_def split: option.split dest: dict_get_Some_in)

lemma distinct_move: "distinct (map fst d) \<Longrightarrow> distinct (map fst (move_to_end d k))"
  by (auto simp: move_to_end_def distinct_dict_del set_keys_dict_del [unfolded image_def] split: option.split)
    (auto simp: dict_del_def)

locale memoized =
  fixes size :: nat and load :: "'w \<Rightarrow> 'k \<Rightarrow> 'e + 'v"
  assumes size_pos: "0 < size"
begin

lemma call_refines:
  assumes "distinct (map fst memo)" and "fst ` set memo \<subseteq> K" and "k \<in> K" and "finite K" and "card K \<le> size"
  shows "case lru_call size (load w) k memo of (memo', r) \<Rightarrow>
      distinct (map fst memo') \<and> fst ` set memo' \<subseteq> K
    \<and> (case dict_get memo k of
        Some v \<Rightarrow> r = Inr v \<and> dict_get memo' = dict_get memo
      | None \<Rightarrow> r = load w k \<and> dict_get memo' = (case r of Inl _ \<Rightarrow> dict_get memo | Inr v \<Rightarrow> (dict_get memo)(k \<mapsto> v)))"
proof (cases "dict_get memo k")
  case None
  then have k: "k \<notin> fst ` set memo" by (simp add: dict_get_None_iff)
  have "dict_get (memo @ [(k, v)]) = (dict_get memo)(k \<mapsto> v)" for v
    using None by (auto simp: fun_eq_iff dict_get_append split: option.split)
  with None k assms lru_set_keeps_all [OF assms k] show ?thesis
    by (auto simp: lru_call_def lru_get_def split: sum.split)
next
  case (Some v)
  have "fst ` set (move_to_end memo k) \<subseteq> K" using set_move [of memo k] assms(2) by blast
  with Some distinct_move [OF assms(1)] show ?thesis
    by (simp add: lru_call_def lru_get_def fun_eq_iff dict_get_move)
qed

lemma calls_refine:
  assumes "distinct (map fst memo)" and "fst ` set memo \<subseteq> K" and "snd ` set cs \<subseteq> K" and "finite K" and "card K \<le> size"
  shows "lru_calls size load cs memo = once_calls load cs (dict_get memo)"
  using assms(1-3)
proof (induction cs arbitrary: memo)
  case (Cons c cs)
  obtain w k where c: "c = (w, k)" by (cases c)
  obtain memo' r where m: "lru_call size (load w) k memo = (memo', r)" by (cases "lru_call size (load w) k memo")
  from Cons.prems c have "k \<in> K" by simp
  from call_refines [OF Cons.prems(1,2) this assms(4,5), of w] Cons.IH [of memo'] Cons.prems(3)
  show ?case by (auto simp: c m split: option.splits sum.splits)
qed simp

lemma few_keys:
  "card (snd ` set cs) \<le> size \<Longrightarrow> lru_calls size load cs [] = once_calls load cs Map.empty"
  using calls_refine [of "[]" "snd ` set cs" cs] by (simp add: fun_eq_iff)
   (metis dict_get.simps(1) ext)

end

text \<open>One key: the first load that succeeds answers every later call.\<close>

lemma once_known: "known k = Some v \<Longrightarrow> once_calls load (map (\<lambda>w. (w, k)) ws) known = replicate (length ws) (Inr v)"
  by (induction ws) simp_all

lemma once_single:
  "once_calls load (map (\<lambda>w. (w, k)) ws) Map.empty =
     (let failed = takeWhile (\<lambda>w. isl (load w k)) ws; rest = drop (length failed) ws
      in map (\<lambda>w. load w k) failed @ replicate (length rest) (load (hd rest) k))"
proof (induction ws)
  case (Cons w ws)
  show ?case
  proof (cases "load w k")
    case (Inl e)
    with Cons show ?thesis by (simp add: Let_def)
  next
    case (Inr v)
    then show ?thesis by (simp add: once_known)
  qed
qed simp

section \<open>The taxonomy of the backend\<close>

text \<open>What a call meets: the files and the variable \<open>INTENT_TAXONOMY_PATH\<close> of the process.\<close>

record world_now =
  wn_files :: files
  wn_env_path :: "string option"

text \<open>The two places next to the module: in the backend and in the repository.\<close>

definition default_taxonomy_path :: "files \<Rightarrow> string \<Rightarrow> string \<Rightarrow> string" where
  "default_taxonomy_path fs backend_place repo_place =
     (case find (is_file fs) [backend_place, repo_place] of Some p \<Rightarrow> p | None \<Rightarrow> repo_place)"

definition resolved_path :: "string \<Rightarrow> string \<Rightarrow> world_now \<Rightarrow> string option \<Rightarrow> string" where
  "resolved_path backend_place repo_place w path =
     (case path of Some (c # p) \<Rightarrow> c # p
      | _ \<Rightarrow> (case wn_env_path w of Some (c # p) \<Rightarrow> c # p
              | _ \<Rightarrow> default_taxonomy_path (wn_files w) backend_place repo_place))"

definition read_taxonomy_v1 :: "(string \<Rightarrow> rat py) \<Rightarrow> (rat \<Rightarrow> string) \<Rightarrow> string \<Rightarrow> string \<Rightarrow> world_now
    \<Rightarrow> string option \<Rightarrow> intent_taxonomy py" where
  "read_taxonomy_v1 float_text fr backend_place repo_place w path =
     (let p = resolved_path backend_place repo_place w path
      in if \<not> is_file (wn_files w) p then Inl (FileNotFoundError p)
         else (case read_yaml (wn_files w) p of Inl e \<Rightarrow> Inl e | Inr doc \<Rightarrow> load_taxonomy_v1 float_text fr doc))"

definition taxonomy_v1_calls :: "(string \<Rightarrow> rat py) \<Rightarrow> (rat \<Rightarrow> string) \<Rightarrow> string \<Rightarrow> string
    \<Rightarrow> (world_now \<times> string option) list \<Rightarrow> intent_taxonomy py list" where
  "taxonomy_v1_calls float_text fr backend_place repo_place cs =
     lru_calls 16 (read_taxonomy_v1 float_text fr backend_place repo_place) cs []"

interpretation backend: memoized 16 "read_taxonomy_v1 float_text fr backend_place repo_place"
    for float_text fr backend_place repo_place
  by unfold_locales simp

text \<open>\<open>settings.intent_taxonomy_path or None\<close>, the argument of every call the client makes.\<close>

definition setting_or_none :: "string option \<Rightarrow> string option" where
  "setting_or_none p = (case p of Some (c # s) \<Rightarrow> Some (c # s) | _ \<Rightarrow> None)"

text \<open>The classifications of a running backend: each meets the files as they are then, and the cached
  taxonomy.\<close>

record classify_call =
  cl_world :: world_now
  cl_text :: string
  cl_tenant :: "string option"
  cl_environment :: "string option"
  cl_post :: "json \<Rightarrow> json option"

definition classify_all :: "(string \<Rightarrow> rat py) \<Rightarrow> (rat \<Rightarrow> string) \<Rightarrow> string \<Rightarrow> string \<Rightarrow> classifier_client
    \<Rightarrow> string option \<Rightarrow> classify_call list \<Rightarrow> classifier_decision py list" where
  "classify_all float_text fr backend_place repo_place c setting calls =
     map2 (\<lambda>call tx. classify float_text fr tx (cl_post call) c (cl_text call) (cl_tenant call) (cl_environment call)) calls
       (taxonomy_v1_calls float_text fr backend_place repo_place
         (map (\<lambda>call. (cl_world call, setting_or_none setting)) calls))"

lemma backend_calls_one_path:
  "taxonomy_v1_calls float_text fr b r (map (\<lambda>w. (w, k)) ws) =
     (let load = (\<lambda>w. read_taxonomy_v1 float_text fr b r w k);
          failed = takeWhile (\<lambda>w. isl (load w)) ws; rest = drop (length failed) ws
      in map load failed @ replicate (length rest) (load (hd rest)))"
proof -
  have "card (snd ` set (map (\<lambda>w. (w, k)) ws)) \<le> card {k}" by (intro card_mono) auto
  then have "card (snd ` set (map (\<lambda>w. (w, k)) ws)) \<le> 16" by simp
  from backend.few_keys [OF this] show ?thesis
    unfolding taxonomy_v1_calls_def by (simp only: once_single Let_def)
qed

lemma prefix_nth:
  assumes "length failed \<le> i" and "i < length ws" and "failed = takeWhile P ws"
  shows "drop (length failed) ws \<noteq> []" and "hd (drop (length failed) ws) = ws ! length failed"
    and "\<not> P (ws ! length failed)" and "\<forall>j < length failed. P (ws ! j)"
proof -
  from assms(1,2) have n: "length failed < length ws" by simp
  then show "drop (length failed) ws \<noteq> []" and "hd (drop (length failed) ws) = ws ! length failed"
    by (simp_all add: hd_drop_conv_nth)
  show "\<not> P (ws ! length failed)" using n assms(3) nth_length_takeWhile by blast
  show "\<forall>j < length failed. P (ws ! j)"
    using assms(3) by (metis nth_mem set_takeWhileD takeWhile_nth)
qed

lemma one_path_nth:
  assumes "i < length ws" and "taxonomy_v1_calls float_text fr b r (map (\<lambda>w. (w, k)) ws) ! i = Inr tx"
  shows "\<exists>j \<le> i. read_taxonomy_v1 float_text fr b r (ws ! j) k = Inr tx
    \<and> (\<forall>m < j. isl (read_taxonomy_v1 float_text fr b r (ws ! m) k))"
proof -
  define load where "load w = read_taxonomy_v1 float_text fr b r w k" for w
  define failed where "failed = takeWhile (\<lambda>w. isl (load w)) ws"
  have c: "taxonomy_v1_calls float_text fr b r (map (\<lambda>w. (w, k)) ws)
      = map load failed @ replicate (length (drop (length failed) ws)) (load (hd (drop (length failed) ws)))"
    unfolding backend_calls_one_path Let_def load_def failed_def by simp
  show ?thesis
  proof (cases "i < length failed")
    case True
    then have "isl (load (failed ! i))" using nth_mem set_takeWhileD unfolding failed_def by metis
    with True assms(2) show ?thesis by (simp add: c nth_append)
  next
    case False
    then have l: "length failed \<le> i" by simp
    note p = prefix_nth [OF l assms(1) failed_def]
    have "load (ws ! length failed) = Inr tx"
      using assms False p(2) l unfolding c by (simp add: nth_append)
    with p(4) l show ?thesis unfolding load_def by blast
  qed
qed

text \<open>C34. A backend classifies by the taxonomy it read first: whatever happens to the file, its path or
  the environment while the backend runs, a decision it returns carries a label that is routable in
  the taxonomy of the first load that succeeded; before that load every classification raises, and
  a taxonomy edited afterwards has no effect until a restart.\<close>

theorem classifications_follow_first_taxonomy:
  assumes "i < length calls" and "is_configured c"
    and "classify_all float_text fr b r c setting calls ! i = Inr d"
  shows "\<exists>j \<le> i. \<exists>tx. read_taxonomy_v1 float_text fr b r (cl_world (calls ! j)) (setting_or_none setting) = Inr tx
    \<and> (\<forall>m < j. isl (read_taxonomy_v1 float_text fr b r (cl_world (calls ! m)) (setting_or_none setting)))
    \<and> is_routable_intent tx (cd_intent_label d)"
proof -
  let ?k = "setting_or_none setting" and ?ws = "map cl_world calls"
  have m: "map (\<lambda>call. (cl_world call, ?k)) calls = map (\<lambda>w. (w, ?k)) ?ws" by simp
  define txs where "txs = taxonomy_v1_calls float_text fr b r (map (\<lambda>w. (w, ?k)) ?ws)"
  have len: "length txs = length calls"
    unfolding txs_def backend_calls_one_path Let_def
    using length_takeWhile_le [of "\<lambda>w. isl (read_taxonomy_v1 float_text fr b r w ?k)" ?ws] by simp
  have d: "classify float_text fr (txs ! i) (cl_post (calls ! i)) c (cl_text (calls ! i)) (cl_tenant (calls ! i))
      (cl_environment (calls ! i)) = Inr d"
    using assms(1,3) len by (simp add: classify_all_def m txs_def [symmetric] del: map_map)
  then obtain tx where tx: "txs ! i = Inr tx"
    using assms(2) by (cases "txs ! i") (auto simp: classify_def)
  from classify_label_routable [OF d [unfolded tx]] have "is_routable_intent tx (cd_intent_label d)" by blast
  moreover from one_path_nth [of i ?ws float_text fr b r ?k tx] assms(1) tx obtain j where
    "j \<le> i" "read_taxonomy_v1 float_text fr b r (?ws ! j) ?k = Inr tx"
    "\<forall>m < j. isl (read_taxonomy_v1 float_text fr b r (?ws ! m) ?k)" unfolding txs_def by auto
  ultimately show ?thesis using assms(1) by (intro exI [of _ j] exI [of _ tx] conjI) auto
qed

section \<open>The taxonomy of the classifier\<close>

definition read_classifier_taxonomy :: "(string \<Rightarrow> rat py) \<Rightarrow> (rat \<Rightarrow> string) \<Rightarrow> files \<Rightarrow> string \<Rightarrow> taxonomy py" where
  "read_classifier_taxonomy float_text fr fs path =
     (if \<not> is_file fs path then Inl (FileNotFoundError path)
      else (case read_yaml fs path of Inl e \<Rightarrow> Inl e | Inr doc \<Rightarrow> load_taxonomy_file float_text fr doc))"

definition classifier_taxonomy_calls :: "(string \<Rightarrow> rat py) \<Rightarrow> (rat \<Rightarrow> string) \<Rightarrow> (files \<times> string) list
    \<Rightarrow> taxonomy py list" where
  "classifier_taxonomy_calls float_text fr cs = lru_calls 4 (read_classifier_taxonomy float_text fr) cs []"

interpretation classifier: memoized 4 "read_classifier_taxonomy float_text fr" for float_text fr
  by unfold_locales simp

lemma classifier_calls_once:
  "card (snd ` set cs) \<le> 4 \<Longrightarrow>
     classifier_taxonomy_calls float_text fr cs = once_calls (read_classifier_taxonomy float_text fr) cs Map.empty"
  unfolding classifier_taxonomy_calls_def by (rule classifier.few_keys)

text \<open>Every name a loaded taxonomy has for the model is paired with a phrase, and its template has
  the place for it.\<close>

lemma phrases_of_length: "phrases_of h labs = Inr phs \<Longrightarrow> length phs = length labs"
  by (induction labs arbitrary: phs) (auto split: sum.splits)

lemma read_classifier_taxonomy_shape:
  assumes "read_classifier_taxonomy float_text fr fs path = Inr tx"
  shows "length (tn_nli_phrases tx) = length (tn_candidate_labels tx) \<and> contains ''{}'' (tn_hypothesis_template tx)"
proof -
  have t: "contains ''{}'' default_template" by (code_simp)
  from assms obtain doc where "load_taxonomy_file float_text fr doc = Inr tx"
    by (auto simp: read_classifier_taxonomy_def split: if_splits sum.splits)
  then show ?thesis
    using t by (auto simp: load_taxonomy_file_def Let_def dest: phrases_of_length split: json.splits sum.splits if_splits)
qed

section \<open>The taxonomy service\<close>

definition read_taxonomy_entry :: "json \<Rightarrow> taxonomy_entry valid" where
  "read_taxonomy_entry = as_object (\<lambda>d. map_valid (\<lambda>((((l, s), desc), ex), _).
       \<lparr>te_label = l, te_service_id = s, te_description = desc, te_examples = ex\<rparr>)
     (both (both (both (both (required as_str d ''label'') (required as_str d ''service_id''))
         (defaulted [] as_str d ''description''))
         (defaulted [] (as_list as_str) d ''examples''))
       (forbid_extra [''label'', ''service_id'', ''description'', ''examples''] d)))"

definition read_taxonomy_document :: "json \<Rightarrow> (string \<times> taxonomy_entry list) valid" where
  "read_taxonomy_document = as_object (\<lambda>d. map_valid fst
     (both (both (defaulted ''1.0.0'' as_str d ''version'') (required (as_list read_taxonomy_entry) d ''intents''))
       (forbid_extra [''version'', ''intents''] d)))"

text \<open>\<open>os.path.join(os.getcwd(), path)\<close> for a path that is not absolute.\<close>

definition absolute_path :: "string \<Rightarrow> string \<Rightarrow> string" where
  "absolute_path cwd p = (case p of
     c # _ \<Rightarrow> (if c = CHR ''/'' then p else if cwd = [] \<or> last cwd = CHR ''/'' then cwd @ p else cwd @ ''/'' @ p)
   | [] \<Rightarrow> (if cwd = [] \<or> last cwd = CHR ''/'' then cwd else cwd @ ''/''))"

definition taxonomy_service_load :: "string \<Rightarrow> files \<Rightarrow> string \<Rightarrow> taxonomy_service \<Rightarrow> taxonomy_service \<times> unit py" where
  "taxonomy_service_load cwd fs file_path tx =
     (let path = absolute_path cwd file_path
      in if fs path = None then (tx, Inl (FileNotFoundError path))
         else (case read_yaml fs path of
             Inl e \<Rightarrow> (tx, Inl e)
           | Inr raw \<Rightarrow> (case read_taxonomy_document raw of
                 Inl _ \<Rightarrow> (tx, Inl ValueError)
               | Inr (version, intents) \<Rightarrow> (load_taxonomy version intents tx, Inr ()))))"

text \<open>A load that fails leaves the service as it was; after one that succeeds the service allows
  exactly the labels of the file, and gives each a service.\<close>

lemma foldl_labels: "fst ` set (foldl (\<lambda>d e. dict_set d (te_label e) (te_service_id e)) d0 es)
    = fst ` set d0 \<union> te_label ` set es"
  by (induction es arbitrary: d0) (simp_all add: set_keys_dict_set Un_commute)

lemma taxonomy_service_follows_file:
  assumes "taxonomy_service_load cwd fs file_path tx = (tx', r)"
  shows "case r of
      Inl _ \<Rightarrow> tx' = tx
    | Inr _ \<Rightarrow> (\<exists>raw version intents. fs (absolute_path cwd file_path) = Some (File (Inr raw))
        \<and> read_taxonomy_document raw = Inr (version, intents)
        \<and> (\<forall>nm. assert_intent_allowed tx' nm = Inr () \<longleftrightarrow> nm \<in> te_label ` set intents)
        \<and> (\<forall>nm. default_service_for_intent tx' nm \<noteq> None \<longleftrightarrow> nm \<in> te_label ` set intents))"
proof (cases r)
  case (Inl e)
  with assms show ?thesis by (auto simp: taxonomy_service_load_def Let_def split: if_splits sum.splits prod.splits)
next
  case (Inr u)
  with assms obtain raw version intents where
    y: "read_yaml fs (absolute_path cwd file_path) = Inr raw" and d: "read_taxonomy_document raw = Inr (version, intents)"
    and tx': "tx' = load_taxonomy version intents tx"
    by (auto simp: taxonomy_service_load_def Let_def split: if_splits sum.splits prod.splits)
  from y have "fs (absolute_path cwd file_path) = Some (File (Inr raw))"
    by (auto simp: read_yaml_def split: option.splits node.splits)
  moreover have "default_service_for_intent tx' nm \<noteq> None \<longleftrightarrow> nm \<in> te_label ` set intents" for nm
    unfolding default_service_for_intent_def tx' load_taxonomy_def taxonomy_service.simps dict_get_None_iff
    by (simp add: foldl_labels)
  ultimately show ?thesis
    using Inr d by (auto simp: tx' load_taxonomy_def assert_intent_allowed_def)
qed

section \<open>Witness\<close>

text \<open>The first call finds no file, the second one with the label code; before the third the label is
  renamed, and the answer that names the new label is replaced.\<close>

definition place :: string where
  "place = ''/intent_labels_v1.yaml''"

definition files_with :: "string \<Rightarrow> files" where
  "files_with label = (\<lambda>p. if p = place
     then Some (File (Inr (JObj [(''candidate_labels'', JArr [JStr label]), (''confidence_threshold'', JInt 0)]))) else None)"

definition sample_call :: "files \<Rightarrow> string \<Rightarrow> classify_call" where
  "sample_call fs label = \<lparr>cl_world = \<lparr>wn_files = fs, wn_env_path = None\<rparr>, cl_text = ''hi'', cl_tenant = None,
     cl_environment = None, cl_post = (\<lambda>_. Some (JObj [(''intent_label'', JStr label), (''confidence'', JInt 1)]))\<rparr>"

definition sample_calls :: "classify_call list" where
  "sample_calls = [sample_call (\<lambda>_. None) ''code'', sample_call (files_with ''code'') ''code'',
     sample_call (files_with ''poem'') ''poem'']"

definition sample_client :: classifier_client where
  "sample_client = \<lparr>cc_base = ''http://c'', cc_enabled = True\<rparr>"

lemma sample_loads:
  "read_taxonomy_v1 (\<lambda>_. Inl ValueError) (\<lambda>_. []) place place \<lparr>wn_files = files_with l, wn_env_path = None\<rparr> None
    = Inr \<lparr>taxonomy_version = ''1'', confidence_threshold = fl 0, candidate_labels = [JStr l]\<rparr>"
  "read_taxonomy_v1 (\<lambda>_. Inl ValueError) (\<lambda>_. []) place place \<lparr>wn_files = (\<lambda>_. None), wn_env_path = None\<rparr> None
    = Inl (FileNotFoundError place)"
  by (simp_all add: read_taxonomy_v1_def resolved_path_def default_taxonomy_path_def is_file_def files_with_def read_yaml_def
      load_taxonomy_v1_def list_or_empty_def json_float_def dict_get_default_def json_str_def)

lemma sample_third:
  "\<exists>d. classify_all (\<lambda>_. Inl ValueError) (\<lambda>_. []) place place sample_client None sample_calls ! 2 = Inr d"
  by (simp add: classify_all_def setting_or_none_def sample_calls_def sample_call_def classify_def sample_client_def
      is_configured_def read_answer_def dict_get_default_def json_float_def Let_def taxonomy_v1_calls_def
      lru_call_def lru_get_def sample_loads lru_set_eq dict_del_def take_last_def move_to_end_def)

theorem classifications_follow_first_taxonomy_witness:
  "\<exists>d. classify_all (\<lambda>_. Inl ValueError) (\<lambda>_. []) place place sample_client None sample_calls ! 2 = Inr d
    \<and> cd_intent_label d \<noteq> ''poem''"
proof -
  obtain d where d: "classify_all (\<lambda>_. Inl ValueError) (\<lambda>_. []) place place sample_client None sample_calls ! 2 = Inr d"
    using sample_third by blast
  have "2 < length sample_calls" "is_configured sample_client"
    by (simp_all add: sample_calls_def sample_client_def is_configured_def)
  from classifications_follow_first_taxonomy [OF this d] obtain j tx where j: "j \<le> 2"
    "read_taxonomy_v1 (\<lambda>_. Inl ValueError) (\<lambda>_. []) place place (cl_world (sample_calls ! j)) None = Inr tx"
    "\<forall>m < j. isl (read_taxonomy_v1 (\<lambda>_. Inl ValueError) (\<lambda>_. []) place place (cl_world (sample_calls ! m)) None)"
    "is_routable_intent tx (cd_intent_label d)" unfolding setting_or_none_def by auto
  have n1: "\<not> isl (read_taxonomy_v1 (\<lambda>_. Inl ValueError) (\<lambda>_. []) place place (cl_world (sample_calls ! 1)) None)"
    by (simp add: sample_calls_def sample_call_def sample_loads)
  from n1 j(3) have "\<not> 1 < j" by blast
  moreover have "j \<noteq> 0" using j(2) by (cases j) (simp_all add: sample_calls_def sample_call_def sample_loads)
  ultimately have "j = 1" by simp
  with j(2,4) have "cd_intent_label d \<noteq> ''poem''"
    by (auto simp: sample_calls_def sample_call_def sample_loads is_routable_intent_def routable_labels_def
        unclassified_label_def)
  with d show ?thesis by blast
qed

end
