(* ===== verification/Background.thy ===== *)
theory Background
  imports Intent_Routing
begin

text \<open>
  The background refresh of the intent cache (\<open>start_background_refresh\<close> of
  src/fastapi\_backend/app/services/intent\_cache\_service.py) and the end of the application
  (\<open>lifespan\<close> in src/fastapi\_backend/app/main.py). The task reloads the cache in a loop; a tick
  is one round of it, and the reload of a round may raise when the database does not answer. Between
  ticks the table changes, an administrator may reload by hand, and the application may end.
\<close>

section \<open>The task\<close>

datatype task = Running | Died exn | Cancelled

datatype event = Change "database \<Rightarrow> database" | Tick "exn option" | Manual_Reload | Shut_Down

record app =
  app_db :: database
  app_cache :: intent_cache
  app_task :: task

text \<open>One event; only the cancellation is caught by the task, and only to be raised again. A reload
  that raises leaves the cache as it was, since the rows are read first.\<close>

definition app_step :: "event \<Rightarrow> app \<Rightarrow> app" where
  "app_step e a =
     (case e of
        Change f \<Rightarrow> a\<lparr>app_db := f (app_db a)\<rparr>
      | Tick fault \<Rightarrow>
          (if app_task a \<noteq> Running then a
           else case fault of
               None \<Rightarrow> a\<lparr>app_cache := force_reload (app_db a) (app_cache a)\<rparr>
             | Some x \<Rightarrow> a\<lparr>app_task := Died x\<rparr>)
      | Manual_Reload \<Rightarrow> a\<lparr>app_cache := force_reload (app_db a) (app_cache a)\<rparr>
      | Shut_Down \<Rightarrow> (if app_task a = Running then a\<lparr>app_task := Cancelled\<rparr> else a))"

definition app_run :: "event list \<Rightarrow> app \<Rightarrow> app" where
  "app_run es a = foldl (\<lambda>a e. app_step e a) a es"

text \<open>Start-up loads the cache and starts the task.\<close>

definition app_started :: "database \<Rightarrow> intent_cache \<Rightarrow> app" where
  "app_started db c = \<lparr>app_db = db, app_cache = force_reload db c, app_task = Running\<rparr>"

text \<open>The \<open>finally\<close> block of \<open>lifespan\<close> cancels the task and awaits it; what the task raised comes out
  unless it is the cancellation.\<close>

definition shut_down :: "app \<Rightarrow> app \<times> exn option" where
  "shut_down a = (let a' = app_step Shut_Down a in (a', case app_task a' of Died x \<Rightarrow> Some x | _ \<Rightarrow> None))"

lemma app_run_simps [simp]: "app_run [] a = a" "app_run (e # es) a = app_run es (app_step e a)"
  "app_run (es @ fs) a = app_run fs (app_run es a)"
  by (simp_all add: app_run_def)

section \<open>As long as no tick fails\<close>

fun healthy :: "event \<Rightarrow> bool" where
  "healthy (Tick (Some x)) = False"
| "healthy Shut_Down = False"
| "healthy e = True"

fun as_cache_event :: "event \<Rightarrow> (database \<Rightarrow> database) cache_event" where
  "as_cache_event (Change f) = Write f"
| "as_cache_event e = Reload"

lemma healthy_run:
  assumes "list_all healthy es" and "app_task a = Running"
  shows "app_task (app_run es a) = Running
    \<and> (app_db (app_run es a), app_cache (app_run es a))
      = run_events (\<lambda>f. f) force_reload (map as_cache_event es) (app_db a) (app_cache a)"
  using assms
proof (induction es arbitrary: a)
  case (Cons e es)
  then show ?case
    by (cases e) (auto simp: app_step_def split: option.splits)
qed simp

section \<open>After a tick that fails\<close>

lemma dead_step: "app_task a = Died x \<Longrightarrow> app_task (app_step e a) = Died x
    \<and> (e \<noteq> Manual_Reload \<longrightarrow> app_cache (app_step e a) = app_cache a)"
  by (auto simp: app_step_def split: event.splits)

lemma dead_run:
  "app_task a = Died x \<Longrightarrow> app_task (app_run es a) = Died x
     \<and> (Manual_Reload \<notin> set es \<longrightarrow> app_cache (app_run es a) = app_cache a)"
proof (induction es arbitrary: a)
  case (Cons e es)
  from dead_step [OF Cons.prems, of e] Cons.IH [of "app_step e a"] show ?case by auto
qed simp

text \<open>C30. One failed refresh ends the refreshing: when a round of the background task meets a database that
  does not answer, the task dies unnoticed; from then on intents resolve as they did before the
  failure, however the table changes and however long the application runs, until somebody reloads
  by hand; and at the end of the application the old exception comes out of its shutdown.\<close>

theorem failed_refresh_is_final:
  assumes "list_all healthy pre" and "Manual_Reload \<notin> set post"
  shows "app_cache (app_run (pre @ Tick (Some x) # post) (app_started db c)) = app_cache (app_run pre (app_started db c))
    \<and> snd (shut_down (app_run (pre @ Tick (Some x) # post) (app_started db c))) = Some x"
proof -
  let ?a = "app_run pre (app_started db c)"
  from healthy_run [OF assms(1), of "app_started db c"] have r: "app_task ?a = Running"
    by (simp add: app_started_def)
  then have d: "app_task (app_step (Tick (Some x)) ?a) = Died x" "app_cache (app_step (Tick (Some x)) ?a) = app_cache ?a"
    by (simp_all add: app_step_def)
  from dead_run [OF d(1), of post] assms(2) d(2) show ?thesis
    by (simp add: shut_down_def app_step_def Let_def)
qed

text \<open>Without a failure the cache is never older than one round: after a tick intents resolve by the
  table as it is.\<close>

lemma tick_is_fresh:
  assumes "list_all healthy es"
  shows "app_cache (app_run (es @ [Tick None]) (app_started db c))
    = force_reload (app_db (app_run es (app_started db c))) (app_cache (app_run es (app_started db c)))"
  using healthy_run [OF assms, of "app_started db c"] by (simp add: app_step_def app_started_def)

text \<open>A deleted table, a tick that fails before and one that would not have: the intent still resolves.\<close>

theorem failed_refresh_is_final_witness:
  "\<exists>a. a = app_run ([Tick None] @ Tick (Some (Runtime ValueError)) # [Change (\<lambda>_. empty_database), Tick None])
        (app_started sample_routing init_intent_cache)
    \<and> app_db a = empty_database \<and> resolve_intent (app_cache a) ''chat'' = Inr ''llm''
    \<and> snd (shut_down a) = Some (Runtime ValueError)"
proof -
  let ?post = "[Change (\<lambda>_. empty_database), Tick None]"
  let ?a = "app_run ([Tick None] @ Tick (Some (Runtime ValueError)) # ?post) (app_started sample_routing init_intent_cache)"
  have "list_all healthy [Tick None]" "Manual_Reload \<notin> set ?post" by simp_all
  from failed_refresh_is_final [OF this, of "Runtime ValueError" sample_routing init_intent_cache]
  have "app_cache ?a = app_cache (app_run [Tick None] (app_started sample_routing init_intent_cache))"
    and "snd (shut_down ?a) = Some (Runtime ValueError)" by blast+
  moreover have "resolve_intent (app_cache (app_run [Tick None] (app_started sample_routing init_intent_cache))) ''chat'' = Inr ''llm''"
    by (simp add: app_step_def app_started_def force_reload_def sample_routing_def list_active_intent_mappings_def
        resolve_intent_def init_intent_cache_def)
  moreover have "app_db ?a = empty_database" by (simp add: app_step_def app_started_def)
  ultimately show ?thesis by simp
qed

end
