(* ===== verification/Configuration.thy ===== *)
theory Configuration
  imports Validation AI_Request Migrations
begin

text \<open>
  The settings of both programs (src/fastapi\_backend/app/core/config.py,
  src/intent\_classifier\_service/app/config.py), read from the environment and the file .env when the
  modules are imported, and what the backend makes of them when it is put together: the address of
  the database, the origins for CORS and the fields of the \<open>gateway\<close>. By the rules of the
  library names are compared without case, a variable of the environment goes before one of the
  file, unknown names are ignored, and a field without a default must be there. How a text is read
  as a truth value or a number is a parameter.
\<close>

section \<open>Reading\<close>

record text_readers =
  rd_bool :: "string \<Rightarrow> bool option"
  rd_int :: "string \<Rightarrow> int option"
  rd_float :: "string \<Rightarrow> rat option"

type_synonym variables = "(string \<times> string) list"

text \<open>Of names that differ in case only, the last one counts.\<close>

definition settings_source :: "variables \<Rightarrow> variables \<Rightarrow> (string \<times> json) list" where
  "settings_source env dotenv =
     map (\<lambda>(k, v). (lower k, JStr v)) (rev env) @ map (\<lambda>(k, v). (lower k, JStr v)) (rev dotenv)"

definition of_text :: "(string \<Rightarrow> 'a option) \<Rightarrow> json \<Rightarrow> 'a option" where
  "of_text f v = (case v of JStr s \<Rightarrow> f s | _ \<Rightarrow> None)"

definition ap :: "('a \<Rightarrow> 'b) valid \<Rightarrow> 'a valid \<Rightarrow> 'b valid" where
  "ap f a = map_valid (\<lambda>(g, x). g x) (both f a)"

lemma ap_Inr [valid_iff]: "ap f a = Inr y \<longleftrightarrow> (\<exists>g x. f = Inr g \<and> a = Inr x \<and> y = g x)"
  by (auto simp: ap_def valid_iff)

abbreviation needed :: "(string \<times> json) list \<Rightarrow> string \<Rightarrow> string valid" where
  "needed d k \<equiv> required as_str d (lower k)"

definition text_setting :: "(string \<times> json) list \<Rightarrow> string \<Rightarrow> string \<Rightarrow> string valid" where
  "text_setting d k x = defaulted x as_str d (lower k)"

definition opt_setting :: "(string \<times> json) list \<Rightarrow> string \<Rightarrow> string option valid" where
  "opt_setting d k = defaulted None (as_optional as_str) d (lower k)"

definition typed_setting :: "(string \<Rightarrow> 'a option) \<Rightarrow> (string \<times> json) list \<Rightarrow> string \<Rightarrow> 'a \<Rightarrow> 'a valid" where
  "typed_setting f d k x = defaulted x (as_converted (of_text f)) d (lower k)"

section \<open>The backend\<close>

record settings =
  database_url :: string
  keycloak_url :: string
  keycloak_realm :: string
  cors_origin :: string
  kong_header_value :: string
  environment_name :: string
  policy_file_path :: string
  port :: int
  redis_url :: string
  quotas_file_path :: string
  set_opa_enabled :: bool
  opa_url :: string
  opa_policy_path :: string
  opa_data_path :: string
  opa_timeout_seconds :: rat
  set_opa_strict_sync :: bool
  set_opa_allow_local_fallback :: bool
  set_opa_fail_closed :: bool
  intent_classifier_url :: "string option"
  intent_classifier_timeout_seconds :: rat
  intent_classifier_enabled :: bool
  intent_classifier_shadow :: bool
  intent_auto_token :: string
  intent_taxonomy_path :: "string option"
  gemini_api_key :: string

definition read_settings :: "text_readers \<Rightarrow> variables \<Rightarrow> variables \<Rightarrow> settings valid" where
  "read_settings R env dotenv =
     (let d = settings_source env dotenv;
          text = text_setting d; opt = opt_setting d;
          bool = typed_setting (rd_bool R) d; int = typed_setting (rd_int R) d; float = typed_setting (rd_float R) d
      in ap (ap (ap (ap (ap (ap (ap (ap (ap (ap (ap (ap (ap (ap (ap (ap (ap (ap (ap (ap (ap (ap (ap (ap (ap
           (Inr settings.make)
           (needed d ''PLATFORM_DB_URL''))
           (needed d ''KEYCLOAK_URL''))
           (needed d ''KEYCLOAK_REALM''))
           (needed d ''CORS_ORIGIN''))
           (text ''KONG_HEADER_VALUE'' ''true''))
           (text ''ENVIRONMENT'' ''development''))
           (text ''POLICY_FILE_PATH'' ''policies.yaml''))
           (int ''PORT'' 3000))
           (text ''REDIS_URL'' ''redis://redis:6379/0''))
           (text ''QUOTAS_FILE_PATH'' ''quotas.yaml''))
           (bool ''OPA_ENABLED'' True))
           (text ''OPA_URL'' ''http://opa:8181''))
           (text ''OPA_POLICY_PATH'' ''/v1/data/orchestrator''))
           (text ''OPA_DATA_PATH'' ''/v1/data/policies''))
           (float ''OPA_TIMEOUT_SECONDS'' 2))
           (bool ''OPA_STRICT_SYNC'' True))
           (bool ''OPA_ALLOW_LOCAL_FALLBACK'' True))
           (bool ''OPA_FAIL_CLOSED'' False))
           (opt ''INTENT_CLASSIFIER_URL''))
           (float ''INTENT_CLASSIFIER_TIMEOUT_SECONDS'' (fl (1 / 4))))
           (bool ''INTENT_CLASSIFIER_ENABLED'' True))
           (bool ''INTENT_CLASSIFIER_SHADOW'' False))
           (text ''INTENT_AUTO_TOKEN'' ''auto''))
           (opt ''INTENT_TAXONOMY_PATH''))
           (text ''GEMINI_API_KEY'' []))"

section \<open>The classifier service\<close>

record classifier_settings =
  cls_port :: int
  cls_redis_url :: string
  cls_taxonomy_path :: string
  cls_llm_base_url :: string
  cls_llm_model :: string
  cls_llm_timeout_seconds :: rat
  cls_cache_ttl_seconds :: int
  cls_cache_max_entries :: int

definition read_classifier_settings :: "text_readers \<Rightarrow> variables \<Rightarrow> variables \<Rightarrow> classifier_settings valid" where
  "read_classifier_settings R env dotenv =
     (let d = settings_source env dotenv; text = text_setting d;
          int = typed_setting (rd_int R) d; float = typed_setting (rd_float R) d
      in ap (ap (ap (ap (ap (ap (ap (ap (Inr classifier_settings.make)
           (int ''PORT'' 3010))
           (text ''REDIS_URL'' ''redis://redis:6379/1''))
           (text ''INTENT_TAXONOMY_PATH'' ''/app/intent_taxonomy/intent_labels_v1.yaml''))
           (text ''LLM_BASE_URL'' ''http://host.docker.internal:11434/api/chat''))
           (text ''LLM_MODEL'' ''llama3.2''))
           (float ''LLM_TIMEOUT_SECONDS'' 8))
           (int ''INTENT_CLASSIFIER_CACHE_TTL_SECONDS'' 3600))
           (int ''INTENT_CLASSIFIER_LRU_MAX'' 10000))"

section \<open>What the settings become\<close>

definition opa_settings_of :: "settings \<Rightarrow> opa_settings" where
  "opa_settings_of s = \<lparr>opa_enabled = set_opa_enabled s, opa_strict_sync = set_opa_strict_sync s,
     opa_allow_local_fallback = set_opa_allow_local_fallback s, opa_fail_closed = set_opa_fail_closed s\<rparr>"

definition classifier_client_of :: "settings \<Rightarrow> classifier_client" where
  "classifier_client_of s = classifier_client_init None (intent_classifier_url s) None (intent_classifier_enabled s)"

definition configured :: "settings \<Rightarrow> 's gateway \<Rightarrow> 's gateway" where
  "configured s gw = gw\<lparr>gw_opa := opa_settings_of s, gw_classifier := classifier_client_of s,
     gw_auto_token := intent_auto_token s, gw_shadow := intent_classifier_shadow s\<rparr>"

text \<open>The engine's address, and the origins CORS allows.\<close>

definition engine_url :: "settings \<Rightarrow> string" where
  "engine_url s = asyncpg_url (database_url s)"

definition cors_origins :: "settings \<Rightarrow> string list" where
  "cors_origins s = filter (\<lambda>o'. o' \<noteq> []) (map strip (split_char (CHR '','') (cors_origin s)))"

section \<open>What must be set\<close>

definition value_of :: "variables \<Rightarrow> variables \<Rightarrow> string \<Rightarrow> string option" where
  "value_of env dotenv k = map_option (\<lambda>v. case v of JStr s \<Rightarrow> s | _ \<Rightarrow> []) (dict_get (settings_source env dotenv) (lower k))"

lemma source_value: "dict_get (settings_source env dotenv) (lower k) = map_option JStr (value_of env dotenv k)"
proof -
  have "\<exists>s. v = JStr s" if "dict_get (settings_source env dotenv) key = Some v" for key v
    using dict_get_Some_in [OF that] by (auto simp: settings_source_def)
  from this [of "lower k"] show ?thesis
    by (cases "dict_get (settings_source env dotenv) (lower k)") (fastforce simp: value_of_def)+
qed

lemma needed_Inr: "needed (settings_source env dotenv) k = Inr s \<longleftrightarrow> value_of env dotenv k = Some s"
  by (auto simp: valid_iff source_value)

lemma text_setting_Inr: "text_setting (settings_source env dotenv) k x = Inr s
    \<longleftrightarrow> s = (case value_of env dotenv k of None \<Rightarrow> x | Some v \<Rightarrow> v)"
  by (auto simp: text_setting_def valid_iff source_value split: option.split)

lemma opt_setting_Inr: "opt_setting (settings_source env dotenv) k = Inr s \<longleftrightarrow> s = value_of env dotenv k"
  by (auto simp: opt_setting_def valid_iff source_value split: option.split)

lemma typed_setting_Inr: "typed_setting f (settings_source env dotenv) k x = Inr s
    \<longleftrightarrow> (case value_of env dotenv k of None \<Rightarrow> s = x | Some v \<Rightarrow> f v = Some s)"
  by (auto simp: typed_setting_def valid_iff source_value of_text_def split: option.split)

lemmas setting_iff = needed_Inr text_setting_Inr opt_setting_Inr typed_setting_Inr ap_Inr

definition required_names :: "string list" where
  "required_names = [''PLATFORM_DB_URL'', ''KEYCLOAK_URL'', ''KEYCLOAK_REALM'', ''CORS_ORIGIN'']"

definition bool_names :: "string list" where
  "bool_names = [''OPA_ENABLED'', ''OPA_STRICT_SYNC'', ''OPA_ALLOW_LOCAL_FALLBACK'', ''OPA_FAIL_CLOSED'',
     ''INTENT_CLASSIFIER_ENABLED'', ''INTENT_CLASSIFIER_SHADOW'']"

definition float_names :: "string list" where
  "float_names = [''OPA_TIMEOUT_SECONDS'', ''INTENT_CLASSIFIER_TIMEOUT_SECONDS'']"

text \<open>A variable that may be left out but must read when it is there.\<close>

definition reads :: "(string \<Rightarrow> 'a option) \<Rightarrow> string option \<Rightarrow> bool" where
  "reads f v = (case v of None \<Rightarrow> True | Some s \<Rightarrow> f s \<noteq> None)"

lemma fails_ap: "isl (ap f a) \<longleftrightarrow> isl f \<or> isl a"
  by (cases f; cases a) (simp_all add: ap_def map_valid_def both_def)

lemma fails_iff: "isl r \<longleftrightarrow> (\<nexists>x. r = Inr x)"
  by (cases r) simp_all

lemma fails_needed: "isl (needed (settings_source env dotenv) k) \<longleftrightarrow> value_of env dotenv k = None"
  by (simp add: fails_iff needed_Inr)

lemma fails_text: "\<not> isl (text_setting (settings_source env dotenv) k x)" "\<not> isl (opt_setting (settings_source env dotenv) k)"
  by (simp_all add: fails_iff text_setting_Inr opt_setting_Inr)

lemma fails_typed: "isl (typed_setting f (settings_source env dotenv) k x) \<longleftrightarrow> \<not> reads f (value_of env dotenv k)"
  by (auto simp: fails_iff typed_setting_Inr reads_def split: option.split)

text \<open>The backend starts exactly when the four variables without a default are set, and every variable
  that is set reads as its type.\<close>

lemma settings_exist:
  "(\<exists>s. read_settings R env dotenv = Inr s) \<longleftrightarrow>
     (\<forall>k \<in> set required_names. value_of env dotenv k \<noteq> None)
     \<and> (\<forall>k \<in> set bool_names. reads (rd_bool R) (value_of env dotenv k))
     \<and> (\<forall>k \<in> set float_names. reads (rd_float R) (value_of env dotenv k))
     \<and> reads (rd_int R) (value_of env dotenv ''PORT'')"
proof -
  have "(\<exists>s. read_settings R env dotenv = Inr s) \<longleftrightarrow> \<not> isl (read_settings R env dotenv)" by (simp add: fails_iff)
  also have "\<dots> \<longleftrightarrow> (\<forall>k \<in> set required_names. value_of env dotenv k \<noteq> None)
     \<and> (\<forall>k \<in> set bool_names. reads (rd_bool R) (value_of env dotenv k))
     \<and> (\<forall>k \<in> set float_names. reads (rd_float R) (value_of env dotenv k))
     \<and> reads (rd_int R) (value_of env dotenv ''PORT'')"
    unfolding read_settings_def Let_def fails_ap fails_needed fails_typed required_names_def bool_names_def float_names_def
    by (simp add: fails_text) blast
  finally show ?thesis .
qed

lemma switches:
  assumes "read_settings R env dotenv = Inr s"
  shows "typed_setting (rd_bool R) (settings_source env dotenv) ''OPA_ENABLED'' True = Inr (set_opa_enabled s)"
    and "typed_setting (rd_bool R) (settings_source env dotenv) ''OPA_ALLOW_LOCAL_FALLBACK'' True
      = Inr (set_opa_allow_local_fallback s)"
    and "typed_setting (rd_bool R) (settings_source env dotenv) ''OPA_FAIL_CLOSED'' False = Inr (set_opa_fail_closed s)"
    and "intent_classifier_url s = value_of env dotenv ''INTENT_CLASSIFIER_URL''"
  using assms unfolding read_settings_def Let_def ap_Inr opt_setting_Inr by (auto simp: settings.make_def)

section \<open>What the defaults mean\<close>

definition unset :: "variables \<Rightarrow> variables \<Rightarrow> string list \<Rightarrow> bool" where
  "unset env dotenv ks = list_all (\<lambda>k. value_of env dotenv k = None) ks"

text \<open>Under the default switches a gateway that cannot reach OPA decides by its embedded evaluator,
  without an error and without regard to whether the last push worked.\<close>

lemma defaults_decide_locally:
  assumes "read_settings R env dotenv = Inr s"
    and "unset env dotenv [''OPA_ENABLED'', ''OPA_ALLOW_LOCAL_FALLBACK'', ''OPA_FAIL_CLOSED'']"
    and "\<And>c. gw_opa_post gw c = Opa_Error m"
  shows "evaluate_async fr (gw_opa (configured s gw)) (gw_opa_post gw) st ctx = evaluate st ctx"
proof -
  from switches(1-3) [OF assms(1)] assms(2)
  have "set_opa_enabled s" "set_opa_allow_local_fallback s" "\<not> set_opa_fail_closed s"
    by (simp_all add: typed_setting_Inr unset_def)
  then show ?thesis
    by (simp add: evaluate_async_def configured_def opa_settings_of_def evaluate_with_opa_def evaluate_def assms(3))
qed

text \<open>Without the address of the classifier a request whose intent is the token for classification is
  resolved as unclassified, and the classifier is never called.\<close>

lemma defaults_do_not_classify:
  assumes "read_settings R env dotenv = Inr s" and "unset env dotenv [''INTENT_CLASSIFIER_URL'']"
    and "intent body = intent_auto_token s"
  shows "classify_intent (configured s gw) tenant body = Inr \<lparr>id_name = unclassified_label, id_mode = ''fallback'',
     id_confidence = None, id_source = None, id_taxonomy_version = None\<rparr>"
proof -
  from switches(4) [OF assms(1)] assms(2) have "\<not> is_configured (classifier_client_of s)"
    by (simp add: unset_def classifier_client_of_def classifier_client_init_def is_configured_def rstrip_char_def)
  then show ?thesis by (simp add: classify_intent_def configured_def assms(3) Let_def)
qed

text \<open>The engine always gets the asynchronous driver for an address of the form the platform uses, and a
  second conversion changes nothing.\<close>

lemma engine_url_idem: "asyncpg_url (engine_url s) = engine_url s"
  by (simp add: engine_url_def asyncpg_url_def)

end
