(* ===== verification/Wiring.thy ===== *)
theory Wiring
  imports Configuration Access
begin

text \<open>
  How the backend is put together (src/fastapi\_backend/app/main.py, api/dependencies.py), the client of
  Redis everybody shares (infrastructure/redis\_client.py), and logging (core/logging.py). The modules
  build one object per service and hand out references to it, so the services live in a store and
  a reference is an address in it.
\<close>

section \<open>The objects\<close>

datatype service_object =
    Intent_Cache intent_cache
  | Policy_Service policy_service
  | Quota_Service quota_service
  | Security_Service prompt_security_service

type_synonym store = "nat \<Rightarrow> service_object option"

text \<open>Creating an object takes the next free address.\<close>

definition new_object :: "service_object \<Rightarrow> nat \<times> store \<Rightarrow> nat \<times> (nat \<times> store)" where
  "new_object ob st = (case st of (free, h) \<Rightarrow> (free, Suc free, h(free \<mapsto> ob)))"

record module_objects =
  mo_intent_cache :: nat
  mo_policy :: nat
  mo_quota :: nat
  mo_security :: nat

text \<open>The module level of main.py; the quota service reads its file when it is made.\<close>

definition build_objects :: "json option \<Rightarrow> rat \<Rightarrow> module_objects \<times> (nat \<times> store)" where
  "build_objects quotas_file block_threshold =
     (let (ic, st1) = new_object (Intent_Cache init_intent_cache) (0, Map.empty);
          (po, st2) = new_object (Policy_Service init_policy_service) st1;
          (qu, st3) = new_object (Quota_Service (load_quotas quotas_file)) st2;
          (se, st4) = new_object (Security_Service (init_prompt_security block_threshold)) st3
      in (\<lparr>mo_intent_cache = ic, mo_policy = po, mo_quota = qu, mo_security = se\<rparr>, st4))"

text \<open>The AI request service and the mappings service keep references, and so does the state of the
  application, which the accessors of the routers read.\<close>

record ai_service_refs =
  as_intent_cache :: nat
  as_policy :: nat
  as_quota :: nat
  as_security :: nat

definition build_ai_request_service :: "module_objects \<Rightarrow> ai_service_refs" where
  "build_ai_request_service m = \<lparr>as_intent_cache = mo_intent_cache m, as_policy = mo_policy m,
     as_quota = mo_quota m, as_security = mo_security m\<rparr>"

record app_refs =
  ar_intent_cache_service :: nat
  ar_ai_request_service :: ai_service_refs
  ar_mappings_cache :: nat
  ar_policy_service :: nat
  ar_quota_service :: nat
  ar_prompt_security_service :: nat

definition create_app_state :: "module_objects \<Rightarrow> app_refs" where
  "create_app_state m =
     \<lparr>ar_intent_cache_service = mo_intent_cache m, ar_ai_request_service = build_ai_request_service m,
      ar_mappings_cache = mo_intent_cache m, ar_policy_service = mo_policy m,
      ar_quota_service = mo_quota m, ar_prompt_security_service = mo_security m\<rparr>"

text \<open>The gateway the AI request service sees through its references.\<close>

definition gateway_of :: "store \<Rightarrow> ai_service_refs \<Rightarrow> 's gateway \<Rightarrow> 's gateway option" where
  "gateway_of h r gw =
     (case (h (as_intent_cache r), h (as_policy r), h (as_quota r), h (as_security r)) of
        (Some (Intent_Cache ic), Some (Policy_Service ps), Some (Quota_Service q), Some (Security_Service sc)) \<Rightarrow>
          Some (gw\<lparr>gw_intents := ic, gw_policy := ps, gw_quota := q, gw_security := sc\<rparr>)
      | _ \<Rightarrow> None)"

text \<open>What an administrator changes through the state of the application, the next AI request is
  decided by, and nothing else of the gateway changes.\<close>

lemma administered_is_used:
  assumes "build_objects qfile threshold = (m, (n, h))" and "gateway_of h' (ar_ai_request_service (create_app_state m)) gw = Some gw1"
  shows "gateway_of (h'(ar_policy_service (create_app_state m) \<mapsto> Policy_Service ps))
      (ar_ai_request_service (create_app_state m)) gw = Some (gw1\<lparr>gw_policy := ps\<rparr>)"
    and "gateway_of (h'(ar_mappings_cache (create_app_state m) \<mapsto> Intent_Cache ic))
      (ar_ai_request_service (create_app_state m)) gw = Some (gw1\<lparr>gw_intents := ic\<rparr>)"
    and "gateway_of (h'(ar_quota_service (create_app_state m) \<mapsto> Quota_Service q))
      (ar_ai_request_service (create_app_state m)) gw = Some (gw1\<lparr>gw_quota := q\<rparr>)"
    and "gateway_of (h'(ar_prompt_security_service (create_app_state m) \<mapsto> Security_Service sc))
      (ar_ai_request_service (create_app_state m)) gw = Some (gw1\<lparr>gw_security := sc\<rparr>)"
proof -
  have m: "m = \<lparr>mo_intent_cache = 0, mo_policy = 1, mo_quota = 2, mo_security = 3\<rparr>"
    using assms(1) by (auto simp: build_objects_def new_object_def numeral_2_eq_2 numeral_3_eq_3)
  note g = assms(2) [unfolded gateway_of_def m create_app_state_def build_ai_request_service_def]
  show "gateway_of (h'(ar_policy_service (create_app_state m) \<mapsto> Policy_Service ps))
      (ar_ai_request_service (create_app_state m)) gw = Some (gw1\<lparr>gw_policy := ps\<rparr>)"
    and "gateway_of (h'(ar_mappings_cache (create_app_state m) \<mapsto> Intent_Cache ic))
      (ar_ai_request_service (create_app_state m)) gw = Some (gw1\<lparr>gw_intents := ic\<rparr>)"
    and "gateway_of (h'(ar_quota_service (create_app_state m) \<mapsto> Quota_Service q))
      (ar_ai_request_service (create_app_state m)) gw = Some (gw1\<lparr>gw_quota := q\<rparr>)"
    and "gateway_of (h'(ar_prompt_security_service (create_app_state m) \<mapsto> Security_Service sc))
      (ar_ai_request_service (create_app_state m)) gw = Some (gw1\<lparr>gw_security := sc\<rparr>)"
    using g by (auto simp: gateway_of_def m create_app_state_def build_ai_request_service_def
        split: option.splits service_object.splits)
qed

text \<open>After start-up the objects are there.\<close>

lemma built_gateway:
  "build_objects qfile threshold = (m, (n, h)) \<Longrightarrow>
     gateway_of h (ar_ai_request_service (create_app_state m)) gw
       = Some (gw\<lparr>gw_intents := init_intent_cache, gw_policy := init_policy_service, gw_quota := load_quotas qfile,
            gw_security := init_prompt_security threshold\<rparr>)"
  by (auto simp: build_objects_def new_object_def gateway_of_def create_app_state_def build_ai_request_service_def)

section \<open>One client of Redis\<close>

definition get_shared_redis :: "(string \<Rightarrow> 'c) \<Rightarrow> settings \<Rightarrow> 'c option \<Rightarrow> 'c option \<times> 'c" where
  "get_shared_redis from_url s client =
     (case client of None \<Rightarrow> (Some (from_url (redis_url s)), from_url (redis_url s)) | Some c \<Rightarrow> (Some c, c))"

lemma one_redis_client:
  "get_shared_redis from_url s client = (client1, c) \<Longrightarrow> get_shared_redis from_url' s' client1 = (client1, c)"
  by (auto simp: get_shared_redis_def split: option.splits)

section \<open>Logging\<close>

text \<open>The handlers of the root logger with their filters, and the levels set for names.\<close>

record log_setup =
  log_handlers :: "string list list"
  log_root_level :: nat
  log_levels :: "string \<rightharpoonup> nat"

definition noisy_loggers :: "string list" where
  "noisy_loggers = [''sqlalchemy.engine'', ''sqlalchemy.pool'', ''httpx'', ''httpcore'', ''uvicorn.access'', ''asyncio'', ''aiosqlite'']"

definition INFO :: nat where "INFO = 20"

definition WARNING :: nat where "WARNING = 30"

definition setup_logging :: "log_setup \<Rightarrow> log_setup" where
  "setup_logging s =
     (if log_handlers s \<noteq> [] then s
      else s\<lparr>log_handlers := [[''CorrelationIdFilter'']], log_root_level := INFO,
             log_levels := foldl (\<lambda>l nm. l(nm \<mapsto> WARNING)) (log_levels s) noisy_loggers\<rparr>)"

text \<open>\<open>CorrelationIdFilter.filter\<close>: the id of the context, or a dash; every record passes.\<close>

definition correlation_filter :: "string option \<Rightarrow> string \<times> bool" where
  "correlation_filter ctx = (case ctx of None \<Rightarrow> ''-'' | Some i \<Rightarrow> i, True)"

lemma setup_once: "setup_logging (setup_logging s) = setup_logging s"
  by (simp add: setup_logging_def)

lemma noisy_are_quiet:
  assumes "log_handlers s = []" and "nm \<in> set noisy_loggers"
  shows "log_levels (setup_logging s) nm = Some WARNING"
  using assms by (auto simp: setup_logging_def noisy_loggers_def)

end
