(* ===== verification/Migration_Run.thy ===== *)
theory Migration_Run
  imports Configuration
begin

text \<open>
  How the migration scripts are run (src/fastapi\_backend/migrations/env.py): offline, where the statements
  are written out for the converted address and nothing is changed, or online, where the scripts from
  the recorded revision to the last one run in one transaction. The order of the scripts is that of
  their \<open>down_revision\<close>; the recorded revision is part of the database.
\<close>

record alembic_state =
  al_revision :: "string option"
  al_tables :: catalogue
  al_rows :: database

datatype script = Statements "ddl list" | Seed

text \<open>Revision, the one it follows, and what its upgrade does.\<close>

definition scripts :: "(string \<times> string option \<times> script) list" where
  "scripts =
     [(''a5b96c4ebf81'', None, Statements upgrade_a5b96c4ebf81),
      (''fb609a2f3088'', Some ''a5b96c4ebf81'', Statements upgrade_fb609a2f3088),
      (''c7e8f9012abc'', Some ''fb609a2f3088'', Seed)]"

text \<open>The scripts after a revision: the one that follows it, then the one that follows that. \<open>fuel\<close> is
  the number of scripts, which bounds the way.\<close>

fun pending :: "nat \<Rightarrow> string option \<Rightarrow> (string \<times> script) list" where
  "pending 0 at_rev = []"
| "pending (Suc fuel) at_rev =
     (case find (\<lambda>(r, down, s). down = at_rev) scripts of
        None \<Rightarrow> [] | Some (r, _, s) \<Rightarrow> (r, s) # pending fuel (Some r))"

definition run_script :: "bool option \<Rightarrow> string \<Rightarrow> string \<times> script \<Rightarrow> alembic_state \<Rightarrow> alembic_state option" where
  "run_script dflt new_id rs st =
     (case rs of
        (r, Statements ops) \<Rightarrow> map_option (\<lambda>S. st\<lparr>al_tables := S, al_revision := Some r\<rparr>) (run_ddl ops (al_tables st))
      | (r, Seed) \<Rightarrow> map_option (\<lambda>db. st\<lparr>al_rows := db, al_revision := Some r\<rparr>) (seed_unclassified dflt new_id (al_rows st)))"

fun run_scripts :: "bool option \<Rightarrow> string \<Rightarrow> (string \<times> script) list \<Rightarrow> alembic_state \<Rightarrow> alembic_state option" where
  "run_scripts dflt new_id [] st = Some st"
| "run_scripts dflt new_id (rs # later) st =
     (case run_script dflt new_id rs st of None \<Rightarrow> None | Some st' \<Rightarrow> run_scripts dflt new_id later st')"

text \<open>\<open>with context.begin_transaction(): context.run_migrations()\<close>: an exception takes everything back.\<close>

definition do_run_migrations :: "bool option \<Rightarrow> string \<Rightarrow> alembic_state \<Rightarrow> alembic_state \<times> bool" where
  "do_run_migrations dflt new_id st =
     (case run_scripts dflt new_id (pending (length scripts) (al_revision st)) st of
        None \<Rightarrow> (st, False) | Some st' \<Rightarrow> (st', True))"

datatype migration_result = Written string | Ran bool

definition run_migrations :: "bool \<Rightarrow> settings \<Rightarrow> bool option \<Rightarrow> string \<Rightarrow> alembic_state
    \<Rightarrow> alembic_state \<times> migration_result" where
  "run_migrations offline s dflt new_id st =
     (if offline then (st, Written (asyncpg_url (database_url s)))
      else (case do_run_migrations dflt new_id st of (st', ok) \<Rightarrow> (st', Ran ok)))"

section \<open>All or nothing\<close>

lemma pending_scripts:
  "pending (length scripts) None = map (\<lambda>(r, down, s). (r, s)) scripts"
  "pending (length scripts) (Some ''a5b96c4ebf81'') = tl (map (\<lambda>(r, down, s). (r, s)) scripts)"
  "pending (length scripts) (Some ''fb609a2f3088'') = tl (tl (map (\<lambda>(r, down, s). (r, s)) scripts))"
  "pending (length scripts) (Some ''c7e8f9012abc'') = []"
  by (simp_all add: scripts_def numeral_3_eq_3)

lemma run_scripts_revision:
  "run_scripts d i (rss @ [(r, s)]) st = Some st' \<Longrightarrow> al_revision st' = Some r"
  by (induction rss arbitrary: st) (auto simp: run_script_def split: option.splits script.splits prod.splits)

text \<open>From any revision of the scripts a run ends at the last one, or leaves tables, rows and the revision
  as they were; at the last one it changes nothing.\<close>

lemma migrations_are_atomic:
  assumes "al_revision st \<in> {None, Some ''a5b96c4ebf81'', Some ''fb609a2f3088'', Some ''c7e8f9012abc''}"
    and "do_run_migrations d i st = (st', ok)"
  shows "(if ok then al_revision st' = Some ''c7e8f9012abc'' else st' = st)
    \<and> (al_revision st = Some ''c7e8f9012abc'' \<longrightarrow> st' = st \<and> ok)"
proof (cases "al_revision st = Some ''c7e8f9012abc''")
  case True
  with assms(2) show ?thesis by (simp add: do_run_migrations_def pending_scripts)
next
  case False
  define rss where "rss = pending (length scripts) (al_revision st)"
  have "\<exists>xs s. map (\<lambda>(r, down, s). (r, s)) scripts = xs @ [(''c7e8f9012abc'', s)]"
    and "\<exists>xs s. tl (map (\<lambda>(r, down, s). (r, s)) scripts) = xs @ [(''c7e8f9012abc'', s)]"
    and "\<exists>xs s. tl (tl (map (\<lambda>(r, down, s). (r, s)) scripts)) = xs @ [(''c7e8f9012abc'', s)]"
    by (simp_all add: scripts_def)
  with assms(1) False obtain xs s where r: "rss = xs @ [(''c7e8f9012abc'', s)]"
    unfolding rss_def by (auto simp only: pending_scripts insert_iff empty_iff)
  have "run_scripts d i rss st = Some st'' \<Longrightarrow> al_revision st'' = Some ''c7e8f9012abc''" for st''
    unfolding r by (rule run_scripts_revision)
  with False assms(2) show ?thesis
    unfolding do_run_migrations_def rss_def [symmetric] by (auto split: option.splits)
qed

text \<open>A database the application has started on is never migrated: every run fails and leaves it as it
  was, so the revision is never recorded.\<close>

lemma started_database_stays_unmigrated:
  assumes "create_all model_tables S = Some (al_tables st)" and "al_revision st = None"
  shows "do_run_migrations d i st = (st, False)"
proof -
  have "''governance_policies'' \<in> fst ` set model_tables" by (simp add: model_tables_def migrated_tables_def)
  with create_all_adds [OF model_tables_create assms(1)]
  have t: "dict_get (al_tables st) ''governance_policies'' \<noteq> None" by blast
  obtain cs ks ops where "upgrade_a5b96c4ebf81 = Create_Table ''governance_policies'' cs ks # ops"
    by (auto simp: upgrade_a5b96c4ebf81_def)
  with create_table_twice [OF t] have "run_ddl upgrade_a5b96c4ebf81 (al_tables st) = None" by metis
  then show ?thesis
    using assms(2) by (simp add: do_run_migrations_def pending_scripts) (simp add: scripts_def run_script_def)
qed

end
