(* ===== verification/Orchestrator.thy ===== *)
theory Orchestrator
  imports Policy
begin

text \<open>
  The whole of src/opa/policies/orchestrator.rego: the rule that finds the active policies in the
  input or in one of the two shapes of the data document, the two rules that show the version and the
  hash of the bundle, and the document OPA answers for the package. The decision rules over a list of
  policies are those of Policy. Undefined is \<open>None\<close>: a rule whose body is undefined gives way to the
  next one of its \<open>else\<close> chain. The data document is absent until something is pushed, and again
  after a restart of OPA, which keeps it in memory.
\<close>

section \<open>The rules\<close>

text \<open>A reference below a document that may be undefined; a member of something that is not an
  object is undefined, and a comparison with null holds of every value that is defined and not null.\<close>

definition rego_ref :: "json option \<Rightarrow> string \<Rightarrow> json option" where
  "rego_ref v k = (case v of None \<Rightarrow> None | Some j \<Rightarrow> jobj_get j k)"

definition rego_not_null :: "json option \<Rightarrow> bool" where
  "rego_not_null v = (case v of None \<Rightarrow> False | Some j \<Rightarrow> j \<noteq> JNull)"

definition rego_is_array :: "json option \<Rightarrow> bool" where
  "rego_is_array v = (case v of Some (JArr _) \<Rightarrow> True | _ \<Rightarrow> False)"

text \<open>An \<open>else\<close> chain: the value of the first clause whose body holds.\<close>

fun rego_chain :: "(bool \<times> json option) list \<Rightarrow> json \<Rightarrow> json" where
  "rego_chain [] otherwise = otherwise"
| "rego_chain ((holds, v) # clauses) otherwise =
     (case v of Some j \<Rightarrow> if holds then j else rego_chain clauses otherwise
      | None \<Rightarrow> rego_chain clauses otherwise)"

definition rego_policies :: "json option \<Rightarrow> json option \<Rightarrow> json" where
  "rego_policies override doc = rego_chain
     [(rego_not_null override, override),
      (rego_not_null doc \<and> rego_not_null (rego_ref doc ''items''), rego_ref doc ''items''),
      (rego_is_array doc, doc)] (JArr [])"

definition rego_bundle_version :: "json option \<Rightarrow> json" where
  "rego_bundle_version doc = rego_chain
     [(rego_not_null doc \<and> rego_not_null (rego_ref doc ''version''), rego_ref doc ''version'')] (JStr [])"

definition rego_bundle_hash :: "json option \<Rightarrow> json" where
  "rego_bundle_hash doc = rego_chain
     [(rego_not_null doc \<and> rego_not_null (rego_ref doc ''hash''), rego_ref doc ''hash'')] (JStr [])"

text \<open>What \<open>policies[_]\<close> ranges over: the elements of an array, the values of an object, nothing else.\<close>

definition rego_elements :: "json \<Rightarrow> json list" where
  "rego_elements v = (case v of JArr xs \<Rightarrow> xs | JObj d \<Rightarrow> map snd d | _ \<Rightarrow> [])"

text \<open>The document of the package for an input, as a query of its path gives it. A set is shown as an
  array without repetitions; its order is OPA's and nothing here depends on it.\<close>

definition orchestrator_document :: "json option \<Rightarrow> json option \<Rightarrow> policy_context \<Rightarrow> json" where
  "orchestrator_document override doc ctx =
     (let pols = rego_policies override doc; items = rego_elements pols in JObj
       [(''allow'', JBool (rego_allow items ctx)), (''block'', JArr (remdups (rego_block items ctx))),
        (''bundle_hash'', rego_bundle_hash doc), (''bundle_version'', rego_bundle_version doc),
        (''policies'', pols)])"

text \<open>A server that answers the queries of the service, which carry no policies of their own.\<close>

definition opa_server :: "json option \<Rightarrow> policy_context \<Rightarrow> opa_reply" where
  "opa_server doc ctx = Opa_Reply 200 [] (Inr (JObj [(''result'', orchestrator_document None doc ctx)]))"

section \<open>Over the bundle the service pushes\<close>

lemma rego_policies_pushed [simp]:
  "rego_policies None (Some (serialize_policy_bundle st)) = JArr (map serialize_policy (policies st))"
  by (simp add: rego_policies_def rego_not_null_def rego_ref_def serialize_policy_bundle_def jobj_get_def)

lemma rego_bundle_version_pushed [simp]:
  "rego_bundle_version (Some (serialize_policy_bundle st)) = JStr (policy_version st)"
  by (simp add: rego_bundle_version_def rego_not_null_def rego_ref_def serialize_policy_bundle_def jobj_get_def)

lemma rego_bundle_hash_pushed:
  assumes "local_hash st = Some h" and "h \<noteq> []"
  shows "rego_bundle_hash (Some (serialize_policy_bundle st)) = JStr h"
  using assms
  by (simp add: rego_bundle_hash_def rego_not_null_def rego_ref_def serialize_policy_bundle_def jobj_get_def)

text \<open>A server that holds the pushed bundle runs the policies of the cache.\<close>

lemma opa_server_runs: "opa_runs (policies st) (opa_server (Some (serialize_policy_bundle st)))"
  by (simp add: opa_runs_def opa_server_def orchestrator_document_def Let_def rego_elements_def)

text \<open>The older shape of the document, the bare array, gives the same decisions, and so do the same
  policies in the input of a test, over any document.\<close>

lemma rego_policies_array: "rego_policies None (Some (JArr items)) = JArr items"
  by (simp add: rego_policies_def rego_not_null_def rego_ref_def rego_is_array_def jobj_get_def)

lemma rego_policies_override: "v \<noteq> JNull \<Longrightarrow> rego_policies (Some v) doc = v"
  by (simp add: rego_policies_def rego_not_null_def)

lemma rego_policies_null_override: "rego_policies (Some JNull) doc = rego_policies None doc"
  by (simp add: rego_policies_def rego_not_null_def)

text \<open>Decisions do not depend on the order of the policies in the bundle, and an id blocks once.\<close>

lemma rego_block_set:
  "set (rego_block items ctx) = {i. \<exists>pol \<in> set items. rego_policy_matches pol ctx
     \<and> rego_should_block pol ctx \<and> jobj_get pol ''id'' = Some i}"
  by (induction items) (auto simp: rego_block_def List.map_filter_simps split: option.splits if_splits)

lemma rego_allow_set:
  assumes "set items = set items'"
  shows "rego_allow items ctx = rego_allow items' ctx"
proof -
  have "set (rego_block items ctx) = set (rego_block items' ctx)"
    unfolding rego_block_set assms ..
  then show ?thesis unfolding rego_allow_def by (metis set_empty)
qed

section \<open>From the table to a decision\<close>

lemma loaded_ids: "policy_id ` set (load_policies rows) \<subseteq> gp_id ` set rows"
  by (induction rows) (auto simp: parse_policy_def split: option.splits)

lemma distinct_loaded: "distinct (map gp_id rows) \<Longrightarrow> distinct (map policy_id (load_policies rows))"
proof (induction rows)
  case (Cons p rows)
  then show ?case using loaded_ids [of rows]
    by (auto simp: parse_policy_def split: option.splits)
qed simp

text \<open>A sync that ends in sync has left the bundle of the rows with OPA.\<close>

lemma synced_document:
  assumes "opa_enabled cfg" and "fst (sync_from_db cfg put now rows st) = st'" and "is_in_sync st'"
    and "stores put (serialize_policy_bundle (refresh_cache rows st)) doc doc'"
  shows "doc' = Some (serialize_policy_bundle (refresh_cache rows st)) \<and> policies st' = load_policies rows"
  using assms
  by (auto simp: sync_state is_in_sync_def push_policies_to_opa_def stores_simps Let_def
      split: sum.splits http_reply.splits if_splits)

text \<open>C18. From the policy table to the decision: after a sync that ends in sync, whatever OPA held
  before, the Rego policy evaluated over the document OPA then holds lets the service decide every
  context as the embedded evaluator decides it over the active rows, with the same results, and
  deny by the same policy, also with the fail-closed switch on.\<close>

theorem synced_opa_decides:
  assumes "opa_enabled cfg" and "fst (sync_from_db cfg put now rows st) = st'" and "is_in_sync st'"
    and "stores put (serialize_policy_bundle (refresh_cache rows st)) doc doc'"
    and "distinct (map gp_id rows)"
  shows "denial_of (evaluate_async fr cfg (opa_server doc') st' ctx)
      = denial_of (evaluate_local (load_policies rows) (canonicalize_context ctx) [])
    \<and> (\<forall>results. evaluate_async fr cfg (opa_server doc') st' ctx = Inr results
      \<longleftrightarrow> evaluate_local (load_policies rows) (canonicalize_context ctx) [] = Inr results)"
proof -
  from synced_document [OF assms(1-4)]
  have d: "doc' = Some (serialize_policy_bundle (refresh_cache rows st))" and p: "policies st' = load_policies rows"
    by blast+
  have "opa_runs (policies st') (opa_server doc')"
    using opa_server_runs [of "refresh_cache rows st"] unfolding d p by simp
  moreover have "distinct (map policy_id (policies st'))" unfolding p by (rule distinct_loaded [OF assms(5)])
  ultimately show ?thesis
    using opa_decides_as_local [of st' "opa_server doc'" cfg fr ctx] assms(1,3) by (simp add: evaluate_def p)
qed

definition deny_everyone :: governance_policy where
  "deny_everyone = \<lparr>gp_id = ''p1'', gp_description = None, gp_condition = JObj [], gp_effect = ''deny_all'',
     gp_is_active = True, gp_version = ''1'', gp_created_at = 0\<rparr>"

lemma deny_everyone_loaded:
  "load_policies [deny_everyone] = [\<lparr>policy_id = ''p1'', description = None,
     condition = \<lparr>cond_sensitivity = None, cond_tenant = None\<rparr>, effect = DENY_ALL\<rparr>]"
  by code_simp

lemma deny_everyone_denies:
  "denial_of (evaluate_local (load_policies [deny_everyone]) ctx []) = Some (''p1'', ''No description provided'')"
  unfolding deny_everyone_loaded
  by (simp add: policy_matches_def should_block_def denial_of_def violation_def description_or_default_def)

theorem synced_opa_decides_witness:
  "let cfg = \<lparr>opa_enabled = True, opa_strict_sync = True, opa_allow_local_fallback = False, opa_fail_closed = True\<rparr>;
       st' = fst (sync_from_db cfg (\<lambda>_. Http_Reply 204 []) ''now'' [deny_everyone] init_policy_service);
       doc' = Some (serialize_policy_bundle (refresh_cache [deny_everyone] init_policy_service));
       ctx = \<lparr>ctx_sensitivity = None, ctx_tenant = Some ''t'', ctx_service_type = None\<rparr>
   in denial_of (evaluate_async (\<lambda>_. []) cfg (opa_server doc') st' ctx)
      = Some (''p1'', ''No description provided'')"
proof -
  let ?cfg = "\<lparr>opa_enabled = True, opa_strict_sync = True, opa_allow_local_fallback = False, opa_fail_closed = True\<rparr>"
  let ?put = "\<lambda>_::json. Http_Reply 204 []"
  let ?st' = "fst (sync_from_db ?cfg ?put ''now'' [deny_everyone] init_policy_service)"
  let ?doc = "serialize_policy_bundle (refresh_cache [deny_everyone] init_policy_service)"
  have sync: "is_in_sync ?st'"
    by (simp add: sync_state is_in_sync_def push_policies_to_opa_def Let_def)
  have stored: "stores ?put ?doc None (Some ?doc)"
    by (rule stores.stored [of _ _ 204 "[]"]) simp_all
  have "opa_enabled ?cfg" and "distinct (map gp_id [deny_everyone])" by simp_all
  from synced_opa_decides [OF this(1) refl sync stored this(2), THEN conjunct1]
  show ?thesis unfolding Let_def deny_everyone_denies .
qed

section \<open>Without a bundle\<close>

text \<open>A server without a document answers that everything is allowed: the default of the rule and
  the empty list at the end of the chain.\<close>

lemma empty_server_allows:
  "opa_server None ctx = Opa_Reply 200 [] (Inr (JObj [(''result'', JObj
     [(''allow'', JBool True), (''block'', JArr []), (''bundle_hash'', JStr []),
      (''bundle_version'', JStr []), (''policies'', JArr [])])]))"
  by (simp add: opa_server_def orchestrator_document_def rego_policies_def rego_not_null_def rego_ref_def
      rego_is_array_def rego_elements_def rego_allow_def rego_block_def rego_bundle_hash_def
      rego_bundle_version_def List.map_filter_simps Let_def)

lemma nothing_denied [simp]: "opa_denied pols [] = []"
  by (simp add: opa_denied_def)

text \<open>So a server that has lost the bundle lets every request pass, with every switch on: the service
  goes by the hash it pushed and does not look at the one OPA answers with.\<close>

theorem lost_bundle_allows:
  assumes "opa_enabled cfg" and "is_in_sync st"
  shows "\<exists>rs. evaluate_async fr cfg (opa_server None) st ctx = Inr rs"
proof -
  have "evaluate_with_opa fr (opa_server None) (policies st) c
      = Inr (opa_evaluation (policies st) [] c)" for c
    by (simp add: evaluate_with_opa_def empty_server_allows parse_opa_result_def coerce_block_ids_def)
  then show ?thesis using assms by (simp add: evaluate_async_def Let_def)
qed

theorem lost_bundle_allows_witness:
  "let cfg = \<lparr>opa_enabled = True, opa_strict_sync = True, opa_allow_local_fallback = False, opa_fail_closed = True\<rparr>;
       p = \<lparr>policy_id = ''p1'', description = None,
            condition = \<lparr>cond_sensitivity = None, cond_tenant = None\<rparr>, effect = DENY_ALL\<rparr>;
       st = init_policy_service\<lparr>policies := [p], local_hash := Some ''h'', last_pushed_hash := Some ''h'',
              last_sync_ok := Some True\<rparr>;
       ctx = \<lparr>ctx_sensitivity = None, ctx_tenant = Some ''t'', ctx_service_type = None\<rparr>
   in (\<exists>rs. evaluate_async (\<lambda>_. []) cfg (opa_server None) st ctx = Inr rs)
      \<and> (\<exists>e. evaluate st ctx = Inl e)"
  unfolding Let_def
  by (rule conjI, rule lost_bundle_allows)
    (simp_all add: is_in_sync_def evaluate_def policy_matches_def should_block_def)

end
