(* ===== verification/Model_Request.thy ===== *)
theory Model_Request
  imports Classifier_Service
begin

text \<open>
  What the classifier service sends to its language model (src/intent\_classifier\_service/app/
  llm\_classifier.py): the schema of the answer it asks for, the prompt that shows it, and the body of
  the request, with the exchange as a function of the body. The schema is given its meaning here, by the
  documented rules of JSON Schema for the keywords it uses; an answer that conforms to it is read without
  a default, and one body belongs to one text.
\<close>

section \<open>The request\<close>

definition typed :: "string \<Rightarrow> json" where
  "typed t = JObj [(''type'', JStr t)]"

definition response_schema :: json where
  "response_schema = JObj
     [(''type'', JStr ''object''),
      (''properties'', JObj
        [(''intent'', typed ''string''), (''confidence'', typed ''number''), (''reasoning'', typed ''string''),
         (''multi_intent'', JObj [(''type'', JStr ''array''), (''items'', typed ''string'')])]),
      (''required'', JArr (map JStr [''intent'', ''confidence'', ''reasoning'', ''multi_intent'']))]"

text \<open>\<open>json.dumps(v, separators=(",", ":"))\<close>.\<close>

definition compact_style :: "(rat \<Rightarrow> string) \<Rightarrow> dump_style" where
  "compact_style fr = (default_style fr)\<lparr>item_sep := '','', key_sep := '':''\<rparr>"

definition user_prompt :: "(rat \<Rightarrow> string) \<Rightarrow> string \<Rightarrow> string" where
  "user_prompt fr txt = ''Return ONLY valid JSON matching this schema exactly: ''
     @ dumps (compact_style fr) response_schema @ [CHR 0x0A, CHR 0x0A]
     @ ''Input text:'' @ [CHR 0x0A] @ txt"

definition chat_message :: "string \<Rightarrow> string \<Rightarrow> json" where
  "chat_message r c = JObj [(''role'', JStr r), (''content'', JStr c)]"

definition classifier_body :: "(rat \<Rightarrow> string) \<Rightarrow> string \<Rightarrow> taxonomy \<Rightarrow> string \<Rightarrow> json" where
  "classifier_body fr model_name tx txt = JObj
     [(''model'', JStr model_name), (''stream'', JBool False),
      (''messages'', JArr [chat_message ''system'' (build_system_instruction fr tx),
         chat_message ''user'' (user_prompt fr txt)]),
      (''options'', JObj [(''temperature'', JInt 0)]), (''format'', response_schema)]"

text \<open>The text as the log names it.\<close>

definition hash_text_prefix :: "string \<Rightarrow> string" where
  "hash_text_prefix txt = take 16 (sha256_hex txt)"

text \<open>\<open>LLMClassifier(...)\<close> over an exchange that takes a body and the number of the attempt.\<close>

definition llm_classifier :: "(json \<Rightarrow> nat \<Rightarrow> llm_attempt) \<Rightarrow> (string \<Rightarrow> json option) \<Rightarrow> (string \<Rightarrow> rat py)
    \<Rightarrow> (rat \<Rightarrow> string) \<Rightarrow> string \<Rightarrow> taxonomy \<Rightarrow> llm_side" where
  "llm_classifier post loads float_text fr model_name tx =
     \<lparr>ll_taxonomy = tx, ll_ask = (\<lambda>txt. post (classifier_body fr model_name tx txt)), ll_loads = loads,
      ll_float_text = float_text, ll_float_repr = fr\<rparr>"

section \<open>One body, one text\<close>

lemma classifier_body_inj: "classifier_body fr m tx x = classifier_body fr m tx y \<longleftrightarrow> x = y"
  by (simp add: classifier_body_def chat_message_def user_prompt_def)

text \<open>So to let the outcome of an exchange depend on the text, as the model of the service does, is to
  let it depend on the body: every such dependence is one of the bodies.\<close>

lemma every_answer_by_body:
  "\<exists>post. ll_ask (llm_classifier post loads ft fr m tx) = ask"
proof
  show "ll_ask (llm_classifier (\<lambda>b. ask (inv (classifier_body fr m tx) b)) loads ft fr m tx) = ask"
    by (simp add: llm_classifier_def inv_f_f inj_on_def classifier_body_inj)
qed

text \<open>What is asked for depends on the labels and hints of the taxonomy only through the instruction,
  whose hash is part of the keys of the cache.\<close>

lemma same_instruction_same_body:
  assumes "build_system_instruction fr tx = build_system_instruction fr tx'"
  shows "classifier_body fr m tx = classifier_body fr m tx'"
  using assms by (simp add: classifier_body_def fun_eq_iff)

section \<open>What the schema says\<close>

definition has_type :: "string \<Rightarrow> json \<Rightarrow> bool" where
  "has_type t v = (case v of
     JNull \<Rightarrow> t = ''null'' | JBool _ \<Rightarrow> t = ''boolean'' | JInt _ \<Rightarrow> t = ''integer'' \<or> t = ''number''
   | JFloat _ \<Rightarrow> t = ''number'' | JStr _ \<Rightarrow> t = ''string'' | JArr _ \<Rightarrow> t = ''array'' | JObj _ \<Rightarrow> t = ''object'')"

definition has_required :: "json \<Rightarrow> json \<Rightarrow> bool" where
  "has_required schema v = (case (jobj_get schema ''required'', v) of
     (Some (JArr ks), JObj d) \<Rightarrow> list_all (\<lambda>k. case k of JStr s \<Rightarrow> dict_get d s \<noteq> None | _ \<Rightarrow> True) ks
   | _ \<Rightarrow> True)"

lemma dict_get_size: "dict_get d k = Some w \<Longrightarrow> size w < size (JObj d)"
  by (induction d) (auto split: if_splits)

function conforms :: "json \<Rightarrow> json \<Rightarrow> bool" where
  "conforms schema v =
     ((case jobj_get schema ''type'' of Some (JStr t) \<Rightarrow> has_type t v | _ \<Rightarrow> True)
      \<and> has_required schema v
      \<and> (case (jobj_get schema ''properties'', v) of
           (Some (JObj ps), JObj d) \<Rightarrow> list_all (\<lambda>(k, sub). case dict_get d k of
               None \<Rightarrow> True | Some w \<Rightarrow> conforms sub w) ps
         | _ \<Rightarrow> True)
      \<and> (case (jobj_get schema ''items'', v) of
           (Some sub, JArr vs) \<Rightarrow> list_all (\<lambda>w. conforms sub w) vs
         | _ \<Rightarrow> True))"
  by pat_completeness auto
termination
  by (relation "measure (\<lambda>(_, v). size v)") (auto dest: dict_get_size simp: less_Suc_eq_le intro: size_list_estimation')

declare conforms.simps [simp del]

lemma conforms_typed: "conforms (typed t) v = has_type t v"
  by (subst conforms.simps) (simp add: typed_def jobj_get_def has_required_def)

lemma conforms_typed_eq: "conforms (typed t) = has_type t"
  by (rule ext) (rule conforms_typed)

lemma has_array: "has_type ''array'' v \<longleftrightarrow> (\<exists>vs. v = JArr vs)"
  by (cases v) (simp_all add: has_type_def)

definition number_value :: "json \<Rightarrow> rat" where
  "number_value v = (case v of JInt i \<Rightarrow> fl (of_int i) | JFloat x \<Rightarrow> x | _ \<Rightarrow> 0)"

lemma all_texts: "list_all (has_type ''string'') vs \<longleftrightarrow> (\<exists>labs. vs = map JStr labs)"
proof (induction vs)
  case (Cons v vs)
  then show ?case by (cases v) (auto simp: has_type_def Cons_eq_map_conv)
qed simp

lemma conforms_texts:
  "conforms (JObj [(''type'', JStr ''array''), (''items'', typed ''string'')]) v
    \<longleftrightarrow> (\<exists>labs. v = JArr (map JStr labs))"
  by (subst conforms.simps)
    (auto simp: jobj_get_def has_required_def has_array conforms_typed_eq all_texts split: json.splits)

text \<open>The answers that conform to the schema of the service.\<close>

lemma conforms_response:
  "conforms response_schema v \<longleftrightarrow>
     (\<exists>d i c r labs. v = JObj d \<and> dict_get d ''intent'' = Some (JStr i)
       \<and> dict_get d ''confidence'' = Some c \<and> has_type ''number'' c
       \<and> dict_get d ''reasoning'' = Some (JStr r) \<and> dict_get d ''multi_intent'' = Some (JArr (map JStr labs)))"
  (is "?L \<longleftrightarrow> ?R")
proof
  assume ?L
  then obtain d where v: "v = JObj d"
    by (subst (asm) conforms.simps)
      (auto simp: response_schema_def jobj_get_def has_type_def split: json.splits)
  from \<open>?L\<close> obtain i c r m where
    "dict_get d ''intent'' = Some i" "dict_get d ''confidence'' = Some c"
    "dict_get d ''reasoning'' = Some r" "dict_get d ''multi_intent'' = Some m"
    "has_type ''string'' i" "has_type ''number'' c" "has_type ''string'' r"
    "conforms (JObj [(''type'', JStr ''array''), (''items'', typed ''string'')]) m"
    unfolding v by (subst (asm) conforms.simps)
      (auto simp: response_schema_def jobj_get_def has_required_def conforms_typed split: option.splits)
  then show ?R unfolding v conforms_texts
    by (cases i; cases r) (auto simp: has_type_def)
next
  assume ?R
  then obtain d i c r labs where "v = JObj d" "dict_get d ''intent'' = Some (JStr i)"
    "dict_get d ''confidence'' = Some c" "has_type ''number'' c"
    "dict_get d ''reasoning'' = Some (JStr r)" "dict_get d ''multi_intent'' = Some (JArr (map JStr labs))"
    by blast
  then show ?L
    by (subst conforms.simps)
      (auto simp: response_schema_def jobj_get_def has_required_def conforms_typed conforms_texts has_type_def)
qed

section \<open>An answer that conforms is read as it is\<close>

text \<open>No default, no exception: the label counts when it is one that was offered, the confidence is
  cut to the unit interval, and the further labels are those offered and not the first.\<close>

definition offered :: "taxonomy \<Rightarrow> string \<Rightarrow> bool" where
  "offered tx lab = (JStr lab \<in> set (model_labels tx))"

definition result_of :: "taxonomy \<Rightarrow> string \<Rightarrow> json \<Rightarrow> string \<Rightarrow> string list \<Rightarrow> llm_result" where
  "result_of tx i c r labs =
     (let chosen = (if offered tx i then i else unclassified_label)
      in \<lparr>lr_intent = chosen, lr_confidence = max 0 (min 1 (number_value c)),
          lr_reasoning = (if strip r = [] then ''n/a'' else strip r),
          lr_multi_intent = filter (\<lambda>l. offered tx l \<and> l \<noteq> chosen) labs\<rparr>)"

lemma result_of_offered: "offered tx (lr_intent (result_of tx i c r labs))"
  by (simp add: result_of_def Let_def offered_def)

lemma clamp_number:
  "has_type ''number'' c \<Longrightarrow> clamp_confidence float_text c = Inr (max 0 (min 1 (number_value c)))"
  by (cases c) (simp_all add: has_type_def clamp_confidence_def json_float_def number_value_def)

lemma map_json_str [simp]: "map (json_str fr) (map JStr labs) = labs"
  by (simp add: json_str_def comp_def)

lemma read_members:
  assumes "dict_get d ''intent'' = Some (JStr i)" and "dict_get d ''confidence'' = Some c"
    and "has_type ''number'' c" and "dict_get d ''reasoning'' = Some (JStr r)"
    and "dict_get d ''multi_intent'' = Some (JArr (map JStr labs))"
  shows "read_payload float_text fr tx (JObj d) = Inr (result_of tx i c r labs)"
  unfolding read_payload_def dict_get_default_def assms option.case json.case Let_def map_json_str
    clamp_number [OF assms(3)] sum.case result_of_def offered_def
  by (simp add: json_str_def)

theorem conforming_answer_read:
  assumes "conforms response_schema (JObj d)"
  shows "\<exists>i c r labs. dict_get d ''intent'' = Some (JStr i) \<and> dict_get d ''confidence'' = Some c
    \<and> dict_get d ''reasoning'' = Some (JStr r) \<and> dict_get d ''multi_intent'' = Some (JArr (map JStr labs))
    \<and> read_payload float_text fr tx (JObj d) = Inr (result_of tx i c r labs)"
proof -
  from assms obtain i c r labs where f: "dict_get d ''intent'' = Some (JStr i)"
    "dict_get d ''confidence'' = Some c" "has_type ''number'' c" "dict_get d ''reasoning'' = Some (JStr r)"
    "dict_get d ''multi_intent'' = Some (JArr (map JStr labs))"
    unfolding conforms_response by blast
  with read_members [OF f] show ?thesis by blast
qed

theorem conforming_answer_read_witness:
  "\<exists>i c r labs. read_payload (\<lambda>_. Inl ValueError) (\<lambda>_. []) sample_taxonomy (JObj
     [(''intent'', JStr ''other''), (''confidence'', JInt 7), (''reasoning'', JStr '' ''),
      (''multi_intent'', JArr [JStr ''other''])]) = Inr (result_of sample_taxonomy i c r labs)"
proof -
  let ?d = "[(''intent'', JStr ''other''), (''confidence'', JInt 7), (''reasoning'', JStr '' ''),
    (''multi_intent'', JArr [JStr ''other''])]"
  have "conforms response_schema (JObj ?d)" by code_simp
  from conforming_answer_read [OF this] show ?thesis by blast
qed

text \<open>So with an exchange whose document holds such an answer the service does not fall back: the
  result is the one the answer names.\<close>

lemma conforming_exchange:
  assumes "ll_ask L txt 0 = Answered (Some (JObj [(''message'', JObj [(''content'', JStr raw)])]))"
    and "ll_loads L raw = Some (JObj d)" and "raw \<noteq> []" and "conforms response_schema (JObj d)"
  shows "\<exists>i c r labs. llm_classify L txt = Inr (result_of (ll_taxonomy L) i c r labs)"
proof -
  have "llm_classify L txt = read_payload (ll_float_text L) (ll_float_repr L) (ll_taxonomy L) (JObj d)"
    using assms(1-3) by (simp add: llm_classify_def raw_content_def dict_get_default_def json_str_def)
  with assms(4) show ?thesis unfolding conforms_response using read_members by metis
qed

end
