(* ===== verification/Spec2Isabelle.thy ===== *)
theory Spec2Isabelle
  imports Content_Inspector Gateway_Signature Policy_Admin Quota Cache Request_Effects Routes Classifier_Service
    Kong_Discovery Security_Admin Startup Migrations Dashboard Operations Evaluation Session_Scope
    Raw_Requests Taxonomy_Files Background Wiring Migration_Run Orchestrator Model_Request
begin

text \<open>
  \<^bold>\<open>What the program is.\<close> A platform that puts an API gateway (Kong) in front of
  language models. Two Python programs carry its logic. The backend (src/fastapi\_backend) takes the
  requests of tenants, decides whether and where they go, calls a provider (Ollama or Gemini), redacts and
  meters the answer, and lets administrators edit what it decides by. The classifier service
  (src/intent\_classifier\_service) names the intent of a text with a language model and a two-level cache.
  Around them are PostgreSQL, Redis, Open Policy Agent (with the policy src/opa/policies/orchestrator.rego)
  and Keycloak.

  \<^bold>\<open>How a request goes.\<close> Kong's header and the token are checked (Access). The
  pre-flight (Pre\_Flight) asks the classifier for the intent (Intent\_Classification), resolves it to a
  service with the intent cache (Intent\_Routing), checks the tenant's permission and quota (Database,
  Quota), stores the request, inspects its last message for personal data (Content\_Inspector), evaluates
  the policies (Policy) and scans the prompt for injections (Prompt\_Security). Then the provider is called
  (Providers), and its answer is sent on through the output guard (Output\_Guard) as a JSON document or as a
  stream of frames, charged and recorded (AI\_Request). Before all that the body is read by its schema
  (Validation, Raw\_Requests) and the session gets the scope of the user (Session\_Scope). The policy
  service, the scanner and the intent cache are caches of tables: endpoints change a table and then reload
  (Policy\_Admin, Security\_Admin, Intent\_Routing), and a start fills all three (Startup) and leaves a task
  running that reloads the intents (Background).

  \<^bold>\<open>The vocabulary.\<close> Prelude (exceptions of the runtime as \<open>py_exc + 'a\<close>,
  insertion-ordered dictionaries), Actions (steps on a state that keep what was written before an
  exception), Exceptions (the domain exceptions and their handlers), Schemas (enumerations and request
  models), and the part of Python's library the code uses: Py\_Str (texts), Py\_Regex (the \<open>re\<close>
  module: a backtracking matcher and its declarative meaning), Py\_Float and Py\_Num (doubles as rationals
  with rounding to 53 bits), Py\_Json, and Py\_Hash (SHA-256 on words of 32 bits, HMAC, base64). Redaction
  has the lemmas on replacing matches.

  \<^bold>\<open>Which theory models which files\<close> (under src/fastapi\_backend/app where nothing else
  is said). Output\_Guard, Content\_Inspector, Prompt\_Security, Policy, Quota, Providers, Pre\_Flight and
  AI\_Request: the services of the same names, with infrastructure/ai\_provider and api/ai.py. Orchestrator:
  the Rego policy as a whole. Database: models and repositories, with the tenant filter; Session\_Scope:
  infrastructure/db/session.py, the context variables, and the pre-flight over transactions under row-level
  security. Schemas, Validation and Raw\_Requests: schemas, and the endpoints from the JSON of the body to
  the JSON of the answer. Intent\_Routing: the intent cache, the mapping service, its endpoints and the
  taxonomy; Background: the refresh task and the shutdown. Intent\_Classification: the classifier's client.
  Taxonomy\_Files: where the backend and the classifier service find their taxonomies, and what their caches
  keep of them. Access: core/security.py, middleware.py, governance.py and the guards of the routes. Routes:
  the routers of api and their order in main.py. Gateway\_Signature: core/gateway\_signature.py.
  Policy\_Admin, Security\_Admin, Dashboard, Operations, Kong\_Config, Kong\_Admin, Kong\_Discovery:
  api/admin and api/health.py. Startup: the lifespan of main.py, the shipped policies.yaml, and
  scripts/migrate\_taxonomy.py. Configuration: both config.py. Wiring: the objects main.py and
  api/dependencies.py build, infrastructure/redis\_client.py and core/logging.py. Migrations: the Alembic
  scripts and the tables of the models; Migration\_Run: migrations/env.py. Lru\_Cache, Classifier\_Service,
  Model\_Request and Evaluation: src/intent\_classifier\_service. Request\_Effects and Routing\_Map hold no
  new code but what requests do to the state as a whole, and the abstract specification of the routing
  table.

  \<^bold>\<open>State and operations.\<close> The platform database is a record with one list of rows per
  table; a repository function or a handler takes it and returns it changed, with its result or exception.
  Redis, Kong and the answer store of the classifier are states of a type of their own, changed only through
  functions that are parameters. A whole request works on a \<open>world\<close>, the database and the store
  of the counters. A session of the database is a record of its role and the settings of its transaction.
  What modules share is an address in a store of objects.

  \<^bold>\<open>Interfaces.\<close> \<open>policy_evaluator\<close> (what an evaluator of policies
  promises: the embedded one and OPA with the repository's policy), \<open>table_cache\<close> (a cache
  reloaded from a table), \<open>memoized\<close> (a function behind \<open>lru_cache\<close>),
  \<open>codec\<close> (a validator that reads back what was written) and \<open>word_token\<close> (a
  pattern between word boundaries) stand where their clients need them; each is interpreted on the model of
  the code that provides it.

  \<^bold>\<open>What the lemmas show.\<close>
  \<^item> Safety of a request: what a pre-flight that succeeds has established, what each refusal leaves
    behind, that a refused request is not charged, and that a request touches no other request and no other
    tenant.
  \<^item> Streams: at most one terminal frame, agreeing with the recorded status; charged once; with no
    rule that can match, the frames carry the text of the chunks; a window of 30 characters at most is held
    back.
  \<^item> Redaction: no social security number is left by the redaction, proved from the declarative
    meaning of the patterns; the labels reported are those of what was replaced.
  \<^item> Decisions: the embedded evaluator and OPA running the Rego policy agree; with fail-closed set a
    stale OPA is an error; the sync invariant says when OPA holds the cached bundle. From the rows of the
    table over the push and the document of OPA to the decision, the Rego policy decides as the embedded
    evaluator.
  \<^item> Caches: a reader sees the table as it was at the last reload (locale \<open>table_cache\<close>,
    interpreted for intents, patterns and policies); every mutation of a policy ends with such a reload. The
    endpoints for mappings refine the update of a finite map.
  \<^item> Bodies: reading the JSON of a request gives the request, members without a field change nothing
    where they are ignored; the null that an update of a policy may carry switches the policy off.
  \<^item> Tenants: the context a user's session sets is gone when it ends; under row-level security a
    session without the exempting role serves nobody, since its settings end with the first commit.
  \<^item> Access: the claims of a user come from a token decoded with the matching key; whatever a call
    changes, it changes through a route whose guards it passed, and only administrators change policies,
    services and routing.
  \<^item> Failures: an OPA without a bundle allows everything; a background refresh that fails once never
    runs again; a taxonomy is read once in the life of a process; a database that \<open>create_all\<close>
    has set up cannot be migrated.
  \<^item> Quotas: the check agrees with the report, increments add up, and edits touch one tenant.
  \<^item> Classifier: answers have a label of the taxonomy and a confidence in \<open>[0, 1]\<close>; the
    in-process cache holds the keys used last; its eviction ends. An answer that conforms to the schema sent
    with the text is read as it is.
  \<^item> Operations: a clean-up deletes exactly what is too old; discovery reports the guarded paths; the
    scripts of the schema agree with the models; a latency gate that passes bounds the share of slow
    requests.

  \<^bold>\<open>Loops and bounds.\<close> All definitions are total. The matcher is structural in the
  pattern; a repetition without upper limit is unfolded as often as the text has characters left after its
  least number (\<open>lo + length\<close>), which is enough since a further round would have to match the
  empty text, and is the place where Python stops too. \<open>finditer\<close>, \<open>sub\<close>, the
  splitting of lines, the slices of a stream, the IBAN chunks and the eviction are \<open>function\<close>s
  with a measure; the schema walk of the plugin catalog has the size of the document. Integers are unbounded
  as in Python; hashes are on 32-bit words. Floats are rationals rounded as doubles are.

  \<^bold>\<open>Parameters.\<close> The HTTP exchanges (providers, OPA, Kong, the identity provider, the
  classifier, its model), Redis, the library for tokens, spaCy, the decoding of YAML and JSON texts,
  \<open>re.compile\<close> of stored patterns, how a text is read as a number or a truth value,
  \<open>repr\<close> of a float, clocks and fresh ids. What is relied on of them is a named predicate in
  the theory that uses it, with an instance in the witness. The rules of the libraries that the code is
  written against (the framework's validation and dependencies, settings, \<open>lru_cache\<close>,
  sessions, transactions and policies of PostgreSQL, OPA's language, Alembic) are written out from their
  documentation.

  \<^bold>\<open>Not modelled.\<close> Cancellation of a stream by its client; infinite and undefined
  floats; characters beyond 255; server defaults and sequences of PostgreSQL and its catalogue of sizes; the
  scheduling of asyncio, its locks and time limits (a round of the background refresh is one event, probes
  run in order); the opening of connections; the texts of log lines and those shown beside figures;
  printing; the tests.
\<close>

end
